theory Spec2Isabelle
  imports Complex_Main
begin

section \<open>Data model\<close>

text \<open>
  The backend keeps two stores. MySQL holds the structured tables
  (\<open>voting_records\<close>, \<open>elections\<close>, \<open>candidates\<close>, \<open>election_results\<close>,
  \<open>election_decisions\<close>); MongoDB holds the anonymous \<open>ballots\<close> collection.
  A table is modelled as the list of its rows, a \<open>SELECT\<close> as a filter over that
  list and an \<open>UPDATE\<close> as a map over it. Identifiers are the positive integers of
  the \<open>AUTO_INCREMENT\<close> columns; a JavaScript value that is absent, \<open>null\<close>, \<open>0\<close>
  or \<open>NaN\<close> is the number \<open>0\<close>, which is what the handlers' truthiness tests
  (\<open>!electionId\<close>, \<open>winnerId || null\<close>) distinguish. Timestamps are natural numbers.
\<close>

record voting_record =
  vr_voter_id :: nat
  vr_election_id :: nat
  has_voted :: bool
  voted_at :: "nat option"

record election =
  el_id :: nat
  el_title :: string
  el_description :: string
  el_start_date :: nat
  el_end_date :: nat
  el_is_public :: bool
  el_max_votes :: nat
  el_created_by :: nat
  el_status :: string
  el_institution_id :: nat

record candidate =
  c_id :: nat
  c_election_id :: nat
  c_name :: string
  c_description :: string
  c_order_position :: nat

text \<open>The value returned by \<open>VoteEncryption.encryptVote\<close>, stored in a ballot as JSON text.\<close>

record encrypted_vote =
  encryptedData :: string
  iv :: string
  authTag :: string

text \<open>A document of the \<open>ballots\<close> collection (\<open>ballotSchema\<close>): no voter reference.\<close>

record ballot =
  b_electionId :: nat
  b_encryptedVote :: encrypted_vote
  b_voteHash :: string

text \<open>The object the vote route encrypts: \<open>{electionId, candidateId, timestamp}\<close>.\<close>

record vote_data =
  vd_electionId :: nat
  vd_candidateId :: nat
  vd_timestamp :: string

text \<open>One line of the tally: \<open>{candidateId, candidateName, votes, percentage}\<close>.\<close>

record result_line =
  candidateId :: nat
  candidateName :: string
  votes :: nat
  percentage :: string

text \<open>The object written to \<open>results_json\<close>: \<open>{list, tie, tiedCandidates}\<close>.\<close>

record results_payload =
  rp_list :: "result_line list"
  rp_tie :: bool
  rp_tiedCandidates :: "result_line list"

record election_result =
  er_election_id :: nat
  total_votes :: nat
  results_json :: results_payload
  proclaimed :: bool
  proclaimed_at :: "nat option"
  winner_id :: "nat option"
  winner_name :: "string option"
  updated_at :: nat

datatype decision_payload =
  SecondRound "nat list" nat "string option"
| RandomDraw "nat list" nat string nat "string option"
| RegulatoryDecision nat "string option"

record election_decision =
  ed_election_id :: nat
  ed_decision_type :: string
  ed_payload :: decision_payload
  ed_decided_by :: nat

record db =
  voting_records :: "voting_record list"
  elections :: "election list"
  candidates :: "candidate list"
  ballots :: "ballot list"
  election_results :: "election_result list"
  election_decisions :: "election_decision list"

text \<open>The authenticated caller (\<open>req.user\<close>).\<close>

record user =
  u_id :: nat
  u_type :: string
  u_institution_id :: nat

section \<open>Number formatting\<close>

text \<open>Decimal rendering of a natural number (\<open>Number.prototype.toString\<close>).\<close>

definition digit :: "nat \<Rightarrow> char" where
  "digit d = ''0123456789'' ! (d mod 10)"

fun dec_str :: "nat \<Rightarrow> string" where
  "dec_str n = (if n < 10 then [digit n] else dec_str (n div 10) @ [digit n])"

declare dec_str.simps [simp del]

text \<open>
  A JavaScript number is an IEEE 754 double. A finite double that is not negative is
  \<open>mant * 2 ^ expo\<close> with a significand of at most 53 bits; as a fraction of natural
  numbers it is \<open>dbl_num / dbl_den\<close>.
\<close>

record double =
  mant :: nat
  expo :: int

definition dbl_num :: "double \<Rightarrow> nat" where
  "dbl_num d = mant d * 2 ^ nat (expo d)"

definition dbl_den :: "double \<Rightarrow> nat" where
  "dbl_den d = 2 ^ nat (- expo d)"

text \<open>The number of binary digits of a natural number.\<close>

fun bit_length :: "nat \<Rightarrow> nat" where
  "bit_length n = (if n = 0 then 0 else Suc (bit_length (n div 2)))"

declare bit_length.simps [simp del]

text \<open>The integer nearest to \<open>a / b\<close>, the even one of two that are equally near.\<close>

definition round_half_even :: "nat \<Rightarrow> nat \<Rightarrow> nat" where
  "round_half_even a b =
     (let q = a div b; r = a mod b
      in if 2 * r < b then q
         else if b < 2 * r then q + 1
         else if even q then q else q + 1)"

text \<open>
  The result of an arithmetic operation is the double nearest to the exact result
  \<open>a / b\<close> (round to nearest, ties to even): the exponent \<open>e\<close> is chosen so that
  \<open>a / b / 2 ^ e\<close> lies between \<open>2 ^ 52\<close> and \<open>2 ^ 53\<close>, and the significand is that
  quotient rounded to an integer. With \<open>l\<close> binary digits in \<open>a\<close> and \<open>m\<close> in \<open>b\<close>,
  \<open>a / b\<close> lies between \<open>2 ^ (l - m - 1)\<close> and \<open>2 ^ (l - m + 1)\<close>, so \<open>e\<close> is
  \<open>l - m - 53\<close> or one more. The operands here are counts of ballots (array lengths,
  below \<open>2 ^ 32\<close>) and the constant 100, so every result is in the normal range;
  subnormal numbers and overflow do not arise and are not modelled.
\<close>

definition round_double :: "nat \<Rightarrow> nat \<Rightarrow> double" where
  "round_double a b =
     (if a = 0 then \<lparr>mant = 0, expo = 0\<rparr>
      else let e0 = int (bit_length a) - int (bit_length b) - 53;
               e = (if 2 ^ 53 * (b * 2 ^ nat e0) \<le> a * 2 ^ nat (- e0) then e0 + 1 else e0)
           in \<lparr>mant = round_half_even (a * 2 ^ nat (- e)) (b * 2 ^ nat e), expo = e\<rparr>)"

text \<open>
  \<open>v / n\<close> for two integers (below \<open>2 ^ 53\<close>, so they are doubles as they stand) with
  \<open>n\<close> other than zero, and \<open>d * k\<close> for a double and an integer.
\<close>

definition js_divide :: "nat \<Rightarrow> nat \<Rightarrow> double" where
  "js_divide v n = round_double v n"

definition js_times :: "double \<Rightarrow> nat \<Rightarrow> double" where
  "js_times d k = round_double (dbl_num d * k) (dbl_den d)"

text \<open>
  \<open>Number.prototype.toFixed(2)\<close> for a double that is not negative: the integer \<open>h\<close>
  for which \<open>h / 100\<close> is nearest to the exact value of the double, the larger one of
  two that are equally near, written with two decimals.
\<close>

definition hundredths :: "double \<Rightarrow> nat" where
  "hundredths d = (200 * dbl_num d + dbl_den d) div (2 * dbl_den d)"

definition toFixed2 :: "double \<Rightarrow> string" where
  "toFixed2 d =
     (let h = hundredths d in dec_str (h div 100) @ ''.'' @ [digit (h div 10), digit h])"

text \<open>
  \<open>((v / n) * 100).toFixed(2)\<close>. Division by zero gives \<open>NaN\<close> or \<open>Infinity\<close>, which
  the multiplication keeps and \<open>toFixed\<close> prints by name.
\<close>

definition percentage_of :: "nat \<Rightarrow> nat \<Rightarrow> string" where
  "percentage_of v n =
     (if n = 0 then (if v = 0 then ''NaN'' else ''Infinity'')
      else toFixed2 (js_times (js_divide v n) 100))"

section \<open>Tally: counting, result lines, tie rule\<close>

text \<open>
  The object \<open>voteCount\<close>. Its keys are candidate ids (canonical integer keys), which
  \<open>Object.keys\<close> enumerates in ascending numeric order, so the object is an association
  list kept in ascending key order. \<open>inc_count\<close> is
  \<open>voteCount[c] = (voteCount[c] || 0) + 1\<close>. Candidate ids are the numbers of the
  \<open>candidates\<close> table, as a client sends them; a vote cast with another spelling of an
  id that MySQL accepts as the same number (one with a leading zero, say) would be a key
  of its own and is outside this data model.
\<close>

fun inc_count :: "nat \<Rightarrow> (nat \<times> nat) list \<Rightarrow> (nat \<times> nat) list" where
  "inc_count c [] = [(c, 1)]"
| "inc_count c ((k, n) # kvs) =
     (if c = k then (k, n + 1) # kvs
      else if c < k then (c, 1) # (k, n) # kvs
      else (k, n) # inc_count c kvs)"

text \<open>
  The body of the loop over the ballots: parse, decrypt, count. \<open>decryptVote\<close> is
  \<open>VoteEncryption.decryptVote\<close>, a wrapper of Node's scrypt and AES-256-GCM; it is a
  parameter, \<open>None\<close> when it throws. A ballot that fails is skipped (the \<open>catch\<close>
  only logs).
\<close>

type_synonym decryptor = "string \<Rightarrow> nat \<Rightarrow> string \<Rightarrow> string \<Rightarrow> vote_data option"

definition decrypt_ballot :: "decryptor \<Rightarrow> nat \<Rightarrow> ballot \<Rightarrow> nat option" where
  "decrypt_ballot decryptVote electionId b =
     (let e = b_encryptedVote b
      in map_option vd_candidateId (decryptVote (encryptedData e) electionId (iv e) (authTag e)))"

fun count_loop :: "decryptor \<Rightarrow> nat \<Rightarrow> ballot list \<Rightarrow> (nat \<times> nat) list \<times> nat
    \<Rightarrow> (nat \<times> nat) list \<times> nat" where
  "count_loop decryptVote electionId [] acc = acc"
| "count_loop decryptVote electionId (b # bs) (voteCount, decryptedCount) =
     (case decrypt_ballot decryptVote electionId b of
        Some c \<Rightarrow> count_loop decryptVote electionId bs (inc_count c voteCount, decryptedCount + 1)
      | None \<Rightarrow> count_loop decryptVote electionId bs (voteCount, decryptedCount))"

text \<open>
  \<open>candidateMap[candidateId] || 'Candidat inconnu'\<close>: the map is filled by a
  \<open>forEach\<close>, so a later row of the same id overwrites an earlier one.
\<close>

fun candidateMap :: "candidate list \<Rightarrow> nat \<Rightarrow> string option" where
  "candidateMap [] k = None"
| "candidateMap (c # cs) k =
     (case candidateMap cs k of Some n \<Rightarrow> Some n
      | None \<Rightarrow> if c_id c = k then Some (c_name c) else None)"

definition name_of :: "candidate list \<Rightarrow> nat \<Rightarrow> string" where
  "name_of cs k =
     (case candidateMap cs k of
        Some n \<Rightarrow> if n = [] then ''Candidat inconnu'' else n
      | None \<Rightarrow> ''Candidat inconnu'')"

text \<open>
  \<open>Object.keys(voteCount).map(...)\<close>: the percentage divides by \<open>ballots.length\<close>.
\<close>

definition make_results :: "candidate list \<Rightarrow> nat \<Rightarrow> (nat \<times> nat) list \<Rightarrow> result_line list" where
  "make_results cs nballots voteCount =
     map (\<lambda>(k, n). \<lparr>candidateId = k, candidateName = name_of cs k, votes = n,
                    percentage = percentage_of n nballots\<rparr>) voteCount"

text \<open>
  \<open>results.sort((a, b) => b.votes - a.votes)\<close>: a stable sort by votes, descending.
\<close>

definition sort_results :: "result_line list \<Rightarrow> result_line list" where
  "sort_results rs = sort_key (\<lambda>r. - int (votes r)) rs"

definition topVotes :: "result_line list \<Rightarrow> nat" where
  "topVotes results = (case results of [] \<Rightarrow> 0 | r # _ \<Rightarrow> votes r)"

definition tiedCandidates :: "result_line list \<Rightarrow> result_line list" where
  "tiedCandidates results = filter (\<lambda>r. votes r = topVotes results) results"

definition tie :: "result_line list \<Rightarrow> bool" where
  "tie results = (length (tiedCandidates results) > 1 \<and> topVotes results > 0)"

definition winner :: "result_line list \<Rightarrow> result_line option" where
  "winner results =
     (if tie results then None else (case results of [] \<Rightarrow> None | r # _ \<Rightarrow> Some r))"

text \<open>The sorted result lines of a tally over the ballots found for an election.\<close>

definition tally_results :: "decryptor \<Rightarrow> candidate list \<Rightarrow> nat \<Rightarrow> ballot list \<Rightarrow> result_line list" where
  "tally_results decryptVote cs electionId bs =
     sort_results (make_results cs (length bs)
       (fst (count_loop decryptVote electionId bs ([], 0))))"

section \<open>Result snapshot: persistence, reading, proclamation\<close>

text \<open>
  \<open>updated_at\<close> is declared \<open>ON UPDATE CURRENT_TIMESTAMP\<close>: MySQL sets it when an
  \<open>UPDATE\<close> changes a value of the row and leaves it otherwise.
\<close>

definition on_update :: "nat \<Rightarrow> election_result \<Rightarrow> election_result \<Rightarrow> election_result" where
  "on_update now old new = (if new = old then old else new\<lparr>updated_at := now\<rparr>)"

definition update_results ::
    "nat \<Rightarrow> nat \<Rightarrow> (election_result \<Rightarrow> election_result) \<Rightarrow> election_result list \<Rightarrow> election_result list" where
  "update_results now electionId f rows =
     map (\<lambda>r. if er_election_id r = electionId then on_update now r (f r) else r) rows"

text \<open>
  \<open>doUpsert\<close>: \<open>INSERT ... ON DUPLICATE KEY UPDATE\<close> on the unique key
  \<open>election_id\<close>. A new row takes the column defaults (\<open>proclaimed = 0\<close>,
  \<open>proclaimed_at = NULL\<close>); an existing row keeps its proclamation columns.
\<close>

definition doUpsert ::
    "nat \<Rightarrow> nat \<Rightarrow> nat \<Rightarrow> results_payload \<Rightarrow> result_line option \<Rightarrow> election_result list \<Rightarrow> election_result list" where
  "doUpsert now electionId nballots payload w rows =
     (let wid = map_option candidateId w; wname = map_option candidateName w
      in if \<exists>r \<in> set rows. er_election_id r = electionId
         then update_results now electionId
                (\<lambda>r. r\<lparr>total_votes := nballots, results_json := payload,
                        winner_id := wid, winner_name := wname\<rparr>) rows
         else rows @ [\<lparr>er_election_id = electionId, total_votes = nballots,
                        results_json = payload, proclaimed = False, proclaimed_at = None,
                        winner_id = wid, winner_name = wname, updated_at = now\<rparr>])"

text \<open>\<open>String.prototype.toLowerCase\<close> (ASCII) and \<open>String.prototype.includes\<close>.\<close>

definition lower_char :: "char \<Rightarrow> char" where
  "lower_char c =
     (case map_of (zip ''ABCDEFGHIJKLMNOPQRSTUVWXYZ'' ''abcdefghijklmnopqrstuvwxyz'') c of
        Some l \<Rightarrow> l
      | None \<Rightarrow> c)"

definition toLowerCase :: "string \<Rightarrow> string" where
  "toLowerCase s = map lower_char s"

fun starts_with :: "string \<Rightarrow> string \<Rightarrow> bool" where
  "starts_with s [] = True"
| "starts_with [] (p # ps) = False"
| "starts_with (c # cs) (p # ps) = (c = p \<and> starts_with cs ps)"

fun str_includes :: "string \<Rightarrow> string \<Rightarrow> bool" where
  "str_includes [] pat = (pat = [])"
| "str_includes (c # cs) pat = (starts_with (c # cs) pat \<or> str_includes cs pat)"

text \<open>
  What the database answers to the statements of the persistence block of the tally:
  for each, \<open>None\<close> when it succeeds and the error's message when it throws.
\<close>

record tally_env =
  te_now :: nat
  te_create_table_error :: "string option"
  te_upsert_error :: "string option"
  te_retry_error :: "string option"

text \<open>
  The control flow of the persistence block: whether an upsert takes effect. A failure
  of \<open>CREATE TABLE\<close> or of the upsert is caught by the outer \<open>catch\<close>, which only
  warns. An \<open>unknown column\<close> failure naming a winner or proclamation column runs the
  \<open>ALTER TABLE\<close> statements (each in its own \<open>try\<close>) and replays the upsert once.
\<close>

definition missing_column_error :: "string \<Rightarrow> bool" where
  "missing_column_error message =
     (let msg = toLowerCase message
      in str_includes msg ''unknown column'' \<and>
         (str_includes msg ''winner_id'' \<or> str_includes msg ''winner_name'' \<or> str_includes msg ''proclaimed''))"

definition upsert_takes_effect :: "tally_env \<Rightarrow> bool" where
  "upsert_takes_effect env =
     (case te_create_table_error env of
        Some _ \<Rightarrow> False
      | None \<Rightarrow>
          (case te_upsert_error env of
             None \<Rightarrow> True
           | Some message \<Rightarrow>
               if missing_column_error message
               then (case te_retry_error env of None \<Rightarrow> True | Some _ \<Rightarrow> False)
               else False))"

definition persist_results ::
    "tally_env \<Rightarrow> nat \<Rightarrow> nat \<Rightarrow> results_payload \<Rightarrow> result_line option \<Rightarrow> db \<Rightarrow> db" where
  "persist_results env electionId nballots payload w s =
     (if upsert_takes_effect env
      then s\<lparr>election_results :=
               doUpsert (te_now env) electionId nballots payload w (election_results s)\<rparr>
      else s)"

section \<open>The tally route\<close>

record tally_report =
  tr_totalVotes :: nat
  tr_decryptedVotes :: nat
  tr_failedDecryptions :: nat
  tr_mysqlVotes :: nat
  tr_mongoVotes :: nat
  tr_results :: "result_line list"
  tr_tie :: bool
  tr_tiedCandidates :: "result_line list"
  tr_winner :: "result_line option"

datatype tally_response =
  TallyForbidden
| ConsistencyError nat nat
| TallyOk tally_report

definition ballots_of :: "nat \<Rightarrow> db \<Rightarrow> ballot list" where
  "ballots_of electionId s = filter (\<lambda>b. b_electionId b = electionId) (ballots s)"

definition countVoted :: "nat \<Rightarrow> db \<Rightarrow> nat" where
  "countVoted electionId s =
     length (filter (\<lambda>r. vr_election_id r = electionId \<and> has_voted r) (voting_records s))"

definition candidates_of :: "nat \<Rightarrow> db \<Rightarrow> candidate list" where
  "candidates_of electionId s = filter (\<lambda>c. c_election_id c = electionId) (candidates s)"

text \<open>\<open>POST /api/elections/:id/tally\<close>.\<close>

definition runTally :: "decryptor \<Rightarrow> tally_env \<Rightarrow> user \<Rightarrow> nat \<Rightarrow> db \<Rightarrow> tally_response \<times> db" where
  "runTally decryptVote env u electionId s =
     (if u_type u \<noteq> ''admin'' then (TallyForbidden, s)
      else
        let bs = ballots_of electionId s;
            mysqlVoteCount = countVoted electionId s;
            mongoVoteCount = length bs
        in if mysqlVoteCount \<noteq> mongoVoteCount
           then (ConsistencyError mysqlVoteCount mongoVoteCount, s)
           else
             let decryptedCount = snd (count_loop decryptVote electionId bs ([], 0));
                 results = tally_results decryptVote (candidates_of electionId s) electionId bs;
                 payload = \<lparr>rp_list = results, rp_tie = tie results,
                            rp_tiedCandidates = tiedCandidates results\<rparr>;
                 s' = persist_results env electionId (length bs) payload (winner results) s
             in (TallyOk \<lparr>tr_totalVotes = length bs, tr_decryptedVotes = decryptedCount,
                          tr_failedDecryptions = length bs - decryptedCount,
                          tr_mysqlVotes = mysqlVoteCount, tr_mongoVotes = mongoVoteCount,
                          tr_results = results, tr_tie = tie results,
                          tr_tiedCandidates = tiedCandidates results,
                          tr_winner = winner results\<rparr>, s'))"

section \<open>Institution scope, reading and proclaiming a snapshot\<close>

datatype access = AccessOk | AccessDenied | AccessElectionNotFound

text \<open>
  \<open>assertAdminCanAccessElection\<close>: the caller is an admin attached to an institution
  and the election belongs to that institution (\<open>Number(null)\<close> is \<open>0\<close>).
\<close>

definition assertAdminCanAccessElection :: "user \<Rightarrow> nat \<Rightarrow> db \<Rightarrow> access" where
  "assertAdminCanAccessElection u electionId s =
     (if u_type u \<noteq> ''admin'' \<or> u_institution_id u = 0 then AccessDenied
      else (case filter (\<lambda>e. el_id e = electionId) (elections s) of
              [] \<Rightarrow> AccessElectionNotFound
            | row # _ \<Rightarrow>
                if el_institution_id row \<noteq> u_institution_id u then AccessDenied
                else AccessOk))"

definition snapshot_rows :: "nat \<Rightarrow> db \<Rightarrow> election_result list" where
  "snapshot_rows electionId s =
     filter (\<lambda>r. er_election_id r = electionId) (election_results s)"

text \<open>\<open>winner_id ? { id, name } : null\<close>.\<close>

definition winner_view :: "election_result \<Rightarrow> (nat \<times> string option) option" where
  "winner_view r =
     (case winner_id r of
        None \<Rightarrow> None
      | Some w \<Rightarrow> if w = 0 then None else Some (w, winner_name r))"

datatype results_response =
  ResultsRefused access
| NoResults
| ResultsOk election_result

text \<open>\<open>GET /api/elections/:id/results\<close>: the persisted snapshot, or 404.\<close>

definition getResults :: "user \<Rightarrow> nat \<Rightarrow> db \<Rightarrow> results_response" where
  "getResults u electionId s =
     (let scope = (if u_type u = ''admin'' \<and> u_institution_id u \<noteq> 0
                   then assertAdminCanAccessElection u electionId s else AccessOk)
      in if scope \<noteq> AccessOk then ResultsRefused scope
         else (case snapshot_rows electionId s of
                 [] \<Rightarrow> NoResults
               | row # _ \<Rightarrow> ResultsOk row))"

datatype proclaim_response =
  ProclaimForbidden
| ProclaimRefused access
| NothingToProclaim
| ProclaimError
| Proclaimed bool "nat option" "(nat \<times> string option) option"

text \<open>
  \<open>POST /api/elections/:id/proclaim\<close>: 404 without a snapshot; otherwise
  \<open>UPDATE election_results SET proclaimed = 1, proclaimed_at = NOW()\<close> and the row
  read back. Reading back no row makes the destructuring throw (the 500 of the
  \<open>catch\<close>).
\<close>

definition proclaim :: "nat \<Rightarrow> user \<Rightarrow> nat \<Rightarrow> db \<Rightarrow> proclaim_response \<times> db" where
  "proclaim now u electionId s =
     (if u_type u \<noteq> ''admin'' then (ProclaimForbidden, s)
      else
        let scope = assertAdminCanAccessElection u electionId s
        in if scope \<noteq> AccessOk then (ProclaimRefused scope, s)
           else (case snapshot_rows electionId s of
                   [] \<Rightarrow> (NothingToProclaim, s)
                 | _ # _ \<Rightarrow>
                     let s' = s\<lparr>election_results :=
                                  update_results now electionId
                                    (\<lambda>r. r\<lparr>proclaimed := True, proclaimed_at := Some now\<rparr>)
                                    (election_results s)\<rparr>
                     in (case snapshot_rows electionId s' of
                           [] \<Rightarrow> (ProclaimError, s')
                         | after # _ \<Rightarrow>
                             (Proclaimed (proclaimed after) (proclaimed_at after)
                                (winner_view after), s'))))"

text \<open>
  The content of a snapshot that a proclamation must not touch: the election it belongs
  to, the total, the results payload and the winner.
\<close>

definition snapshot_content ::
    "election_result \<Rightarrow> nat \<times> nat \<times> results_payload \<times> nat option \<times> string option" where
  "snapshot_content r =
     (er_election_id r, total_votes r, results_json r, winner_id r, winner_name r)"

section \<open>The tie-break route\<close>

text \<open>
  The JSON object a client sends to \<open>POST /api/elections/:id/tie-break\<close>:
  \<open>{action, candidateIds, chosenCandidateId, note}\<close>. \<open>candidateIds\<close> is \<open>None\<close>
  when it is not an array; a field that is absent is the empty string or \<open>0\<close>.
\<close>

record tiebreak_body =
  tb_action :: string
  tb_candidateIds :: "nat list option"
  tb_chosenCandidateId :: nat
  tb_note :: "string option"

text \<open>
  The random material of one call: \<open>crypto.randomBytes(16)\<close> as hex and the result of
  \<open>crypto.randomInt(0, n)\<close>, and the clock.
\<close>

record tiebreak_env =
  tbe_now :: nat
  tbe_seed :: string
  tbe_index :: nat

datatype tiebreak_response =
  RouteNotFound
| TieBreakForbidden
| InvalidElectionId
| InvalidAction
| CandidateIdsRequired
| ElectionNotFound
| ChosenCandidateRequired
| CandidateNotFound
| ActionNotHandled
| SecondRoundCreated nat
| DrawDone nat "string option"
| DecisionRecorded nat string

text \<open>\<open>note || null\<close>.\<close>

definition note_or_null :: "string option \<Rightarrow> string option" where
  "note_or_null n = (case n of None \<Rightarrow> None | Some t \<Rightarrow> if t = [] then None else Some t)"

text \<open>An \<open>AUTO_INCREMENT\<close> key: above every key of the table.\<close>

definition next_id :: "nat list \<Rightarrow> nat" where
  "next_id ids = Suc (foldr max ids 0)"

text \<open>The title suffix of a second round: a space, an em dash (UTF-8) and \<open>Second tour\<close>.\<close>

definition second_round_suffix :: string where
  "second_round_suffix = [CHR 0x20, CHR 0xE2, CHR 0x80, CHR 0x94] @ '' Second tour''"

fun copy_candidates :: "nat \<Rightarrow> candidate list \<Rightarrow> candidate list \<Rightarrow> candidate list" where
  "copy_candidates newElectionId [] table = table"
| "copy_candidates newElectionId (c # cs) table =
     copy_candidates newElectionId cs
       (table @ [\<lparr>c_id = next_id (map c_id table), c_election_id = newElectionId,
                   c_name = c_name c, c_description = c_description c,
                   c_order_position = c_order_position c\<rparr>])"

definition set_winner :: "nat \<Rightarrow> nat \<Rightarrow> nat option \<Rightarrow> string option \<Rightarrow> db \<Rightarrow> db" where
  "set_winner now electionId wid wname s =
     s\<lparr>election_results :=
         update_results now electionId (\<lambda>r. r\<lparr>winner_id := wid, winner_name := wname\<rparr>)
           (election_results s)\<rparr>"

definition log_decision :: "nat \<Rightarrow> string \<Rightarrow> decision_payload \<Rightarrow> nat \<Rightarrow> db \<Rightarrow> db" where
  "log_decision electionId kind payload who s =
     s\<lparr>election_decisions := election_decisions s @
         [\<lparr>ed_election_id = electionId, ed_decision_type = kind, ed_payload = payload,
           ed_decided_by = who\<rparr>]\<rparr>"

definition second_round :: "user \<Rightarrow> nat \<Rightarrow> tiebreak_body \<Rightarrow> db \<Rightarrow> tiebreak_response \<times> db" where
  "second_round u electionId body s =
     (case tb_candidateIds body of
        None \<Rightarrow> (CandidateIdsRequired, s)
      | Some ids \<Rightarrow>
          if length ids < 2 then (CandidateIdsRequired, s)
          else (case filter (\<lambda>e. el_id e = electionId) (elections s) of
                  [] \<Rightarrow> (ElectionNotFound, s)
                | orig # _ \<Rightarrow>
                    let newElectionId = next_id (map el_id (elections s));
                        s1 = s\<lparr>elections := elections s @
                               [\<lparr>el_id = newElectionId,
                                 el_title = el_title orig @ second_round_suffix,
                                 el_description = el_description orig,
                                 el_start_date = el_start_date orig,
                                 el_end_date = el_end_date orig,
                                 el_is_public = el_is_public orig,
                                 el_max_votes = el_max_votes orig,
                                 el_created_by = u_id u, el_status = ''draft'',
                                 el_institution_id = el_institution_id orig\<rparr>]\<rparr>;
                        toCopy = filter (\<lambda>c. c_id c \<in> set ids) (candidates_of electionId s1);
                        s2 = s1\<lparr>candidates := copy_candidates newElectionId toCopy (candidates s1)\<rparr>
                    in (SecondRoundCreated newElectionId,
                        log_decision electionId ''second_round''
                          (SecondRound ids newElectionId (note_or_null (tb_note body))) (u_id u) s2)))"

definition candidate_by_id :: "nat \<Rightarrow> db \<Rightarrow> candidate option" where
  "candidate_by_id k s =
     (case filter (\<lambda>c. c_id c = k) (candidates s) of [] \<Rightarrow> None | c # _ \<Rightarrow> Some c)"

definition random_draw ::
    "tiebreak_env \<Rightarrow> user \<Rightarrow> nat \<Rightarrow> tiebreak_body \<Rightarrow> db \<Rightarrow> tiebreak_response \<times> db" where
  "random_draw env u electionId body s =
     (case tb_candidateIds body of
        None \<Rightarrow> (CandidateIdsRequired, s)
      | Some ids \<Rightarrow>
          if length ids < 2 then (CandidateIdsRequired, s)
          else
            let index = tbe_index env;
                winnerId = (if index < length ids then ids ! index else 0);
                winnerName = map_option c_name (candidate_by_id winnerId s);
                s1 = set_winner (tbe_now env) electionId
                       (if winnerId = 0 then None else Some winnerId) winnerName s
            in (DrawDone winnerId winnerName,
                log_decision electionId ''random_draw''
                  (RandomDraw ids winnerId (tbe_seed env) index (note_or_null (tb_note body)))
                  (u_id u) s1))"

definition regulatory_decision ::
    "tiebreak_env \<Rightarrow> user \<Rightarrow> nat \<Rightarrow> tiebreak_body \<Rightarrow> db \<Rightarrow> tiebreak_response \<times> db" where
  "regulatory_decision env u electionId body s =
     (let winnerId = tb_chosenCandidateId body
      in if winnerId = 0 then (ChosenCandidateRequired, s)
         else (case candidate_by_id winnerId s of
                 None \<Rightarrow> (CandidateNotFound, s)
               | Some cand \<Rightarrow>
                   (DecisionRecorded winnerId (c_name cand),
                    log_decision electionId ''regulatory_decision''
                      (RegulatoryDecision winnerId (note_or_null (tb_note body))) (u_id u)
                      (set_winner (tbe_now env) electionId (Some winnerId)
                         (Some (c_name cand)) s))))"

text \<open>
  What a handler finds in \<open>req.body\<close>: the parsed payload when
  \<open>app.use(express.json())\<close> was registered before the route, and \<open>undefined\<close> when
  it was not, since no other middleware of this server fills it.
\<close>

definition req_body :: "bool \<Rightarrow> 'a \<Rightarrow> 'a option" where
  "req_body json_before payload = (if json_before then Some payload else None)"

text \<open>\<open>req.body || {}\<close>: every field of the empty object is absent.\<close>

definition body_or_empty :: "tiebreak_body option \<Rightarrow> tiebreak_body" where
  "body_or_empty b =
     (case b of
        None \<Rightarrow> \<lparr>tb_action = [], tb_candidateIds = None, tb_chosenCandidateId = 0,
                  tb_note = None\<rparr>
      | Some body \<Rightarrow> body)"

text \<open>
  The handler of \<open>POST /api/elections/:id/tie-break\<close>. The audit table is created if
  missing before the action is looked at; tables are taken to exist. The answer after the
  three branches cannot be reached.
\<close>

definition tieBreak_handler ::
    "tiebreak_env \<Rightarrow> user \<Rightarrow> nat \<Rightarrow> tiebreak_body option \<Rightarrow> db \<Rightarrow> tiebreak_response \<times> db" where
  "tieBreak_handler env u electionId b s =
     (let body = body_or_empty b
      in if u_type u \<noteq> ''admin'' then (TieBreakForbidden, s)
         else if electionId = 0 then (InvalidElectionId, s)
         else if tb_action body \<notin> set [''second_round'', ''random_draw'', ''regulatory_decision'']
           then (InvalidAction, s)
         else if tb_action body = ''second_round'' then second_round u electionId body s
         else if tb_action body = ''random_draw'' then random_draw env u electionId body s
         else if tb_action body = ''regulatory_decision''
           then regulatory_decision env u electionId body s
         else (ActionNotHandled, s))"


section \<open>The vote route\<close>

record vote_body =
  vq_electionId :: nat
  vq_candidateId :: nat

text \<open>
  What one call draws from outside: the clock (\<open>new Date().toISOString()\<close> and MySQL's
  \<open>NOW()\<close>), the eight random bytes of the fingerprint as hex, and whether the final
  \<open>UPDATE\<close> of the ledger throws.
\<close>

record vote_env =
  ve_timestamp :: string
  ve_now :: nat
  ve_random :: string
  ve_update_fails :: bool

text \<open>
  \<open>VoteEncryption.encryptVote\<close> (\<open>None\<close> when it throws) and SHA-256 as a hex digest
  are Node's \<open>crypto\<close>; both are parameters.
\<close>

type_synonym encryptor = "vote_data \<Rightarrow> nat \<Rightarrow> encrypted_vote option"

datatype vote_response =
  MissingIds
| Ineligible
| AlreadyVoted
| ElectionNotActive
| InvalidCandidate
| CryptoError
| PersistenceError
| Receipt string

text \<open>
  \<open>VoteEncryption.generateVoteHash\<close>: the digest of
  \<open>voterId-electionId-timestamp-random\<close>.
\<close>

definition generateVoteHash ::
    "(string \<Rightarrow> string) \<Rightarrow> string \<Rightarrow> nat \<Rightarrow> nat \<Rightarrow> string \<Rightarrow> string" where
  "generateVoteHash sha256 random voterId electionId timestamp =
     sha256 (dec_str voterId @ ''-'' @ dec_str electionId @ ''-'' @ timestamp @ ''-'' @ random)"

text \<open>
  The handler awaits five database operations; the code between two of them runs
  without interruption. Each stage below is one operation together with the code that
  follows it up to the next \<open>await\<close>.

  Stage 1: the body is checked, then \<open>SELECT * FROM voting_records\<close>; no row is 403,
  a first row with \<open>has_voted\<close> is 400.
\<close>

definition eligibility_rows :: "nat \<Rightarrow> nat \<Rightarrow> db \<Rightarrow> voting_record list" where
  "eligibility_rows voterId electionId s =
     filter (\<lambda>r. vr_voter_id r = voterId \<and> vr_election_id r = electionId) (voting_records s)"

definition check_eligibility :: "nat \<Rightarrow> vote_body \<Rightarrow> db \<Rightarrow> vote_response option" where
  "check_eligibility voterId body s =
     (if vq_electionId body = 0 \<or> vq_candidateId body = 0 then Some MissingIds
      else (case eligibility_rows voterId (vq_electionId body) s of
              [] \<Rightarrow> Some Ineligible
            | r # _ \<Rightarrow> if has_voted r then Some AlreadyVoted else None))"

text \<open>Stage 2: the election exists with status \<open>ongoing\<close> or \<open>active\<close>.\<close>

definition check_election :: "vote_body \<Rightarrow> db \<Rightarrow> vote_response option" where
  "check_election body s =
     (case filter (\<lambda>e. el_id e = vq_electionId body \<and>
                        (el_status e = ''ongoing'' \<or> el_status e = ''active'')) (elections s) of
        [] \<Rightarrow> Some ElectionNotActive
      | _ # _ \<Rightarrow> None)"

text \<open>
  Stage 3: the candidate belongs to the election; then the vote is encrypted, the
  fingerprint generated and the ballot built. A throw of \<open>encryptVote\<close> leaves the
  handler.
\<close>

definition prepare_ballot ::
    "encryptor \<Rightarrow> (string \<Rightarrow> string) \<Rightarrow> vote_env \<Rightarrow> nat \<Rightarrow> vote_body \<Rightarrow> db
     \<Rightarrow> vote_response + ballot" where
  "prepare_ballot encryptVote sha256 env voterId body s =
     (case filter (\<lambda>c. c_id c = vq_candidateId body \<and> c_election_id c = vq_electionId body)
             (candidates s) of
        [] \<Rightarrow> Inl InvalidCandidate
      | _ # _ \<Rightarrow>
          let voteData = \<lparr>vd_electionId = vq_electionId body,
                          vd_candidateId = vq_candidateId body,
                          vd_timestamp = ve_timestamp env\<rparr>
          in (case encryptVote voteData (vq_electionId body) of
                None \<Rightarrow> Inl CryptoError
              | Some encryptedVote \<Rightarrow>
                  Inr \<lparr>b_electionId = vq_electionId body, b_encryptedVote = encryptedVote,
                       b_voteHash = generateVoteHash sha256 (ve_random env) voterId
                                      (vq_electionId body) (ve_timestamp env)\<rparr>))"

text \<open>
  Stage 4: \<open>ballot.save()\<close>. The document is new, so the \<open>pre('save')\<close> hook lets it
  pass; the unique index on \<open>voteHash\<close> rejects a hash already in the collection, and
  the error leaves the handler.
\<close>

definition save_ballot :: "ballot \<Rightarrow> db \<Rightarrow> vote_response + db" where
  "save_ballot b s =
     (if b_voteHash b \<in> b_voteHash ` set (ballots s) then Inl PersistenceError
      else Inr (s\<lparr>ballots := ballots s @ [b]\<rparr>))"

text \<open>
  Stage 5: \<open>UPDATE voting_records SET has_voted = TRUE, voted_at = NOW() WHERE
  voter_id = ? AND election_id = ?\<close>, then the receipt.
\<close>

definition mark_voted :: "vote_env \<Rightarrow> nat \<Rightarrow> nat \<Rightarrow> db \<Rightarrow> vote_response + db" where
  "mark_voted env voterId electionId s =
     (if ve_update_fails env then Inl PersistenceError
      else Inr (s\<lparr>voting_records :=
                    map (\<lambda>r. if vr_voter_id r = voterId \<and> vr_election_id r = electionId
                              then r\<lparr>has_voted := True, voted_at := Some (ve_now env)\<rparr>
                              else r) (voting_records s)\<rparr>))"

text \<open>\<open>POST /api/vote\<close>, run from its first line to its response.\<close>

definition submitVote ::
    "encryptor \<Rightarrow> (string \<Rightarrow> string) \<Rightarrow> vote_env \<Rightarrow> nat \<Rightarrow> vote_body \<Rightarrow> db
     \<Rightarrow> vote_response \<times> db" where
  "submitVote encryptVote sha256 env voterId body s =
     (case check_eligibility voterId body s of
        Some r \<Rightarrow> (r, s)
      | None \<Rightarrow>
     (case check_election body s of
        Some r \<Rightarrow> (r, s)
      | None \<Rightarrow>
     (case prepare_ballot encryptVote sha256 env voterId body s of
        Inl r \<Rightarrow> (r, s)
      | Inr b \<Rightarrow>
     (case save_ballot b s of
        Inl r \<Rightarrow> (r, s)
      | Inr s1 \<Rightarrow>
     (case mark_voted env voterId (vq_electionId body) s1 of
        Inl r \<Rightarrow> (r, s1)
      | Inr s2 \<Rightarrow> (Receipt (b_voteHash b), s2))))))"

subsection \<open>A sequence of submissions\<close>

record vote_call =
  vc_env :: vote_env
  vc_voter :: nat
  vc_body :: vote_body

text \<open>
  Calls served one after the other: for each, the response, the database before and the
  database after.
\<close>

record vote_event =
  ev_call :: vote_call
  ev_response :: vote_response
  ev_before :: db
  ev_after :: db

fun vote_trace :: "encryptor \<Rightarrow> (string \<Rightarrow> string) \<Rightarrow> vote_call list \<Rightarrow> db \<Rightarrow> vote_event list" where
  "vote_trace encryptVote sha256 [] s = []"
| "vote_trace encryptVote sha256 (c # cs) s =
     (let (r, s') = submitVote encryptVote sha256 (vc_env c) (vc_voter c) (vc_body c) s
      in \<lparr>ev_call = c, ev_response = r, ev_before = s, ev_after = s'\<rparr>
         # vote_trace encryptVote sha256 cs s')"

subsection \<open>Interleaved submissions\<close>

text \<open>
  Node serves requests on one thread and switches between handlers at an \<open>await\<close>.
  A request in flight is at one of its five operations or has responded.
\<close>

datatype vote_pc =
  AtEligibility
| AtElection
| AtCandidate
| AtSave ballot
| AtMark ballot
| Responded vote_response

record vote_task =
  vt_call :: vote_call
  vt_pc :: vote_pc

definition vote_step :: "encryptor \<Rightarrow> (string \<Rightarrow> string) \<Rightarrow> vote_task \<Rightarrow> db \<Rightarrow> vote_task \<times> db" where
  "vote_step encryptVote sha256 t s =
     (let c = vt_call t
      in case vt_pc t of
           AtEligibility \<Rightarrow>
             (case check_eligibility (vc_voter c) (vc_body c) s of
                Some r \<Rightarrow> (t\<lparr>vt_pc := Responded r\<rparr>, s)
              | None \<Rightarrow> (t\<lparr>vt_pc := AtElection\<rparr>, s))
         | AtElection \<Rightarrow>
             (case check_election (vc_body c) s of
                Some r \<Rightarrow> (t\<lparr>vt_pc := Responded r\<rparr>, s)
              | None \<Rightarrow> (t\<lparr>vt_pc := AtCandidate\<rparr>, s))
         | AtCandidate \<Rightarrow>
             (case prepare_ballot encryptVote sha256 (vc_env c) (vc_voter c) (vc_body c) s of
                Inl r \<Rightarrow> (t\<lparr>vt_pc := Responded r\<rparr>, s)
              | Inr b \<Rightarrow> (t\<lparr>vt_pc := AtSave b\<rparr>, s))
         | AtSave b \<Rightarrow>
             (case save_ballot b s of
                Inl r \<Rightarrow> (t\<lparr>vt_pc := Responded r\<rparr>, s)
              | Inr s1 \<Rightarrow> (t\<lparr>vt_pc := AtMark b\<rparr>, s1))
         | AtMark b \<Rightarrow>
             (case mark_voted (vc_env c) (vc_voter c) (vq_electionId (vc_body c)) s of
                Inl r \<Rightarrow> (t\<lparr>vt_pc := Responded r\<rparr>, s)
              | Inr s2 \<Rightarrow> (t\<lparr>vt_pc := Responded (Receipt (b_voteHash b))\<rparr>, s2))
         | Responded r \<Rightarrow> (t, s))"

text \<open>
  A schedule names, step by step, the request whose pending operation runs next.
\<close>

fun run_schedule ::
    "encryptor \<Rightarrow> (string \<Rightarrow> string) \<Rightarrow> nat list \<Rightarrow> vote_task list \<times> db \<Rightarrow> vote_task list \<times> db" where
  "run_schedule encryptVote sha256 [] cfg = cfg"
| "run_schedule encryptVote sha256 (i # sched) (ts, s) =
     (if i < length ts
      then let (t', s') = vote_step encryptVote sha256 (ts ! i) s
           in run_schedule encryptVote sha256 sched (ts[i := t'], s')
      else run_schedule encryptVote sha256 sched (ts, s))"

definition start_task :: "vote_call \<Rightarrow> vote_task" where
  "start_task c = \<lparr>vt_call = c, vt_pc = AtEligibility\<rparr>"

section \<open>Notions used in the statements\<close>

text \<open>The count stored for a key of \<open>voteCount\<close> (\<open>0\<close> for an absent key).\<close>

definition getc :: "(nat \<times> nat) list \<Rightarrow> nat \<Rightarrow> nat" where
  "getc vc k = (case map_of vc k of None \<Rightarrow> 0 | Some n \<Rightarrow> n)"

text \<open>The number of ballots that decrypt to candidate \<open>k\<close>.\<close>

definition count_for :: "decryptor \<Rightarrow> nat \<Rightarrow> ballot list \<Rightarrow> nat \<Rightarrow> nat" where
  "count_for decryptVote electionId bs k =
     length (filter (\<lambda>b. decrypt_ballot decryptVote electionId b = Some k) bs)"

text \<open>The number of ballots that decrypt at all.\<close>

definition decryptable :: "decryptor \<Rightarrow> nat \<Rightarrow> ballot list \<Rightarrow> nat" where
  "decryptable decryptVote electionId bs =
     length (filter (\<lambda>b. decrypt_ballot decryptVote electionId b \<noteq> None) bs)"

text \<open>The exact value of a double.\<close>

definition dbl_val :: "double \<Rightarrow> real" where
  "dbl_val d = real (dbl_num d) / real (dbl_den d)"

text \<open>
  The ledger says that the voter has voted in the election: a row exists for the pair
  and every row of the pair has \<open>has_voted\<close> (the pair is a unique key, so there is one).
\<close>

definition marked :: "nat \<Rightarrow> nat \<Rightarrow> db \<Rightarrow> bool" where
  "marked voterId electionId s =
     (eligibility_rows voterId electionId s \<noteq> [] \<and>
      list_all has_voted (eligibility_rows voterId electionId s))"





text \<open>An event of a trace is a submission of the voter for the election.\<close>

definition of_pair :: "nat \<Rightarrow> nat \<Rightarrow> vote_event \<Rightarrow> bool" where
  "of_pair voterId electionId ev =
     (vc_voter (ev_call ev) = voterId \<and> vq_electionId (vc_body (ev_call ev)) = electionId)"

text \<open>
  A submission that was answered by an error because its ledger \<open>UPDATE\<close> threw, after
  its ballot had been saved.
\<close>

definition ledger_update_lost :: "vote_event \<Rightarrow> bool" where
  "ledger_update_lost ev =
     (ev_response ev = PersistenceError \<and> ve_update_fails (vc_env (ev_call ev))
      \<and> ballots (ev_after ev) \<noteq> ballots (ev_before ev))"

fun is_receipt :: "vote_response \<Rightarrow> bool" where
  "is_receipt (Receipt _) = True"
| "is_receipt _ = False"

fun is_proclaimed :: "proclaim_response \<Rightarrow> bool" where
  "is_proclaimed (Proclaimed _ _ _) = True"
| "is_proclaimed _ = False"

section \<open>Sample data\<close>

text \<open>
  A stand-in for the cipher at concrete inputs: the ciphertext is as long as the
  candidate id, and the tag \<open>tag\<close> authenticates.
\<close>

definition sample_decryptVote :: decryptor where
  "sample_decryptVote d e i t =
     (if t = ''tag''
      then Some \<lparr>vd_electionId = e, vd_candidateId = length d, vd_timestamp = i\<rparr>
      else None)"

definition sample_encryptVote :: encryptor where
  "sample_encryptVote v e =
     Some \<lparr>encryptedData = replicate (vd_candidateId v) (CHR ''x''), iv = ''00'',
           authTag = ''tag''\<rparr>"

definition sample_ballot :: "string \<Rightarrow> string \<Rightarrow> string \<Rightarrow> ballot" where
  "sample_ballot d t h =
     \<lparr>b_electionId = 1, b_encryptedVote = \<lparr>encryptedData = d, iv = ''00'', authTag = t\<rparr>,
      b_voteHash = h\<rparr>"

definition abc_candidates :: "candidate list" where
  "abc_candidates =
     [\<lparr>c_id = 1, c_election_id = 1, c_name = ''A'', c_description = [], c_order_position = 1\<rparr>,
      \<lparr>c_id = 2, c_election_id = 1, c_name = ''B'', c_description = [], c_order_position = 2\<rparr>,
      \<lparr>c_id = 3, c_election_id = 1, c_name = ''C'', c_description = [], c_order_position = 3\<rparr>]"

text \<open>Ballots for A, B, A, C, B, B, A: the counts \<open>{A:3, B:3, C:1}\<close>.\<close>

definition abc_ballots :: "ballot list" where
  "abc_ballots =
     [sample_ballot ''x'' ''tag'' ''h1'', sample_ballot ''xx'' ''tag'' ''h2'',
      sample_ballot ''x'' ''tag'' ''h3'', sample_ballot ''xxx'' ''tag'' ''h4'',
      sample_ballot ''xx'' ''tag'' ''h5'', sample_ballot ''xx'' ''tag'' ''h6'',
      sample_ballot ''x'' ''tag'' ''h7'']"

text \<open>Ballots for A, A, B.\<close>

definition aab_ballots :: "ballot list" where
  "aab_ballots =
     [sample_ballot ''x'' ''tag'' ''h1'', sample_ballot ''x'' ''tag'' ''h2'',
      sample_ballot ''xx'' ''tag'' ''h3'']"

text \<open>Ballots for A, A and one whose tag does not authenticate.\<close>

definition aa_bad_ballots :: "ballot list" where
  "aa_bad_ballots =
     [sample_ballot ''x'' ''tag'' ''h1'', sample_ballot ''x'' ''tag'' ''h2'',
      sample_ballot ''xx'' ''forged'' ''h3'']"

definition sample_election :: election where
  "sample_election =
     \<lparr>el_id = 1, el_title = ''Bureau'', el_description = [], el_start_date = 10,
      el_end_date = 20, el_is_public = False, el_max_votes = 1, el_created_by = 100,
      el_status = ''active'', el_institution_id = 1\<rparr>"

definition sample_admin :: user where
  "sample_admin = \<lparr>u_id = 100, u_type = ''admin'', u_institution_id = 1\<rparr>"

definition ledger_row :: "nat \<Rightarrow> bool \<Rightarrow> voting_record" where
  "ledger_row v b =
     \<lparr>vr_voter_id = v, vr_election_id = 1, has_voted = b,
      voted_at = (if b then Some 12 else None)\<rparr>"

text \<open>Election 1 is open with candidates A, B, C; voters 7 and 8 may vote.\<close>

definition open_db :: db where
  "open_db =
     \<lparr>voting_records = [ledger_row 7 False, ledger_row 8 False],
      elections = [sample_election], candidates = abc_candidates, ballots = [],
      election_results = [], election_decisions = []\<rparr>"

text \<open>Three voters have voted and the vault holds the given ballots.\<close>

definition voted3_db :: "ballot list \<Rightarrow> db" where
  "voted3_db bs =
     open_db\<lparr>voting_records := [ledger_row 7 True, ledger_row 8 True, ledger_row 9 True],
             ballots := bs\<rparr>"

text \<open>The ledger reports five voters and the vault holds four ballots.\<close>

definition mismatch_db :: db where
  "mismatch_db =
     open_db\<lparr>voting_records := map (\<lambda>v. ledger_row v True) [5, 6, 7, 8, 9],
             ballots := [sample_ballot ''x'' ''tag'' ''h1'', sample_ballot ''x'' ''tag'' ''h2'',
                         sample_ballot ''xx'' ''tag'' ''h3'', sample_ballot ''xx'' ''tag'' ''h4'']\<rparr>"

definition quiet_env :: tally_env where
  "quiet_env = \<lparr>te_now = 30, te_create_table_error = None, te_upsert_error = None,
                te_retry_error = None\<rparr>"

definition failing_env :: tally_env where
  "failing_env = quiet_env\<lparr>te_upsert_error := Some ''Connection lost''\<rparr>"

text \<open>A snapshot of election 1 that is not a tie: A won with two votes out of three.\<close>

definition a_line :: result_line where
  "a_line = \<lparr>candidateId = 1, candidateName = ''A'', votes = 2, percentage = ''66.67''\<rparr>"

definition b_line :: result_line where
  "b_line = \<lparr>candidateId = 2, candidateName = ''B'', votes = 1, percentage = ''33.33''\<rparr>"

definition untied_snapshot :: election_result where
  "untied_snapshot =
     \<lparr>er_election_id = 1, total_votes = 3,
      results_json = \<lparr>rp_list = [a_line, b_line], rp_tie = False, rp_tiedCandidates = [a_line]\<rparr>,
      proclaimed = False, proclaimed_at = None, winner_id = Some 1, winner_name = Some ''A'',
      updated_at = 30\<rparr>"

definition counted_db :: db where
  "counted_db = (voted3_db aab_ballots)\<lparr>election_results := [untied_snapshot]\<rparr>"

definition decision_env :: tiebreak_env where
  "decision_env = \<lparr>tbe_now = 40, tbe_seed = ''5eed'', tbe_index = 0\<rparr>"

definition choose_c :: tiebreak_body where
  "choose_c = \<lparr>tb_action = ''regulatory_decision'', tb_candidateIds = None,
               tb_chosenCandidateId = 3, tb_note = None\<rparr>"

definition calm_env :: vote_env where
  "calm_env = \<lparr>ve_timestamp = ''t0'', ve_now = 12, ve_random = ''ab'', ve_update_fails = False\<rparr>"

definition vote_for_a :: vote_body where
  "vote_for_a = \<lparr>vq_electionId = 1, vq_candidateId = 1\<rparr>"

definition call7 :: "string \<Rightarrow> vote_call" where
  "call7 rnd = \<lparr>vc_env = calm_env\<lparr>ve_random := rnd\<rparr>, vc_voter = 7, vc_body = vote_for_a\<rparr>"

definition call8 :: vote_call where
  "call8 = \<lparr>vc_env = calm_env, vc_voter = 8, vc_body = vote_for_a\<rparr>"

text \<open>
  The vault already holds a ballot whose fingerprint is the one the next submission of
  voter 7 will generate.
\<close>

definition collision_db :: db where
  "collision_db =
     open_db\<lparr>ballots := [sample_ballot ''xx'' ''tag''
                            (generateVoteHash (\<lambda>x. x) ''ab'' 7 1 ''t0'')]\<rparr>"

text \<open>
  The ballot that the sample cipher and the identity digest produce for a vote of voter
  \<open>v\<close> for candidate A with random material \<open>rnd\<close>.
\<close>

definition vote_ballot :: "nat \<Rightarrow> string \<Rightarrow> ballot" where
  "vote_ballot v rnd = sample_ballot ''x'' ''tag'' (dec_str v @ ''-1-t0-'' @ rnd)"

text \<open>Voter 7 has voted once.\<close>

definition voted7_db :: db where
  "voted7_db =
     open_db\<lparr>voting_records := [ledger_row 7 True, ledger_row 8 False],
             ballots := [vote_ballot 7 ''ab'']\<rparr>"

text \<open>Voter 7 is marked once and the vault holds two ballots of that voter.\<close>

definition double_db :: db where
  "double_db =
     open_db\<lparr>voting_records := [ledger_row 7 True, ledger_row 8 False],
             ballots := [vote_ballot 7 ''ab'', vote_ballot 7 ''cd'']\<rparr>"

text \<open>
  A submission of voter 7 whose ledger \<open>UPDATE\<close> throws, and the database it leaves: the
  ballot is in the vault and the ledger is as before.
\<close>

definition lost7 :: vote_call where
  "lost7 = \<lparr>vc_env = calm_env\<lparr>ve_update_fails := True\<rparr>, vc_voter = 7, vc_body = vote_for_a\<rparr>"

definition orphan_db :: db where
  "orphan_db = open_db\<lparr>ballots := [vote_ballot 7 ''ab'']\<rparr>"

text \<open>Voters 7 and 8 have voted.\<close>

definition voted78_db :: db where
  "voted78_db =
     open_db\<lparr>voting_records := [ledger_row 7 True, ledger_row 8 True],
             ballots := [vote_ballot 7 ''ab'', vote_ballot 8 ''ab'']\<rparr>"

section \<open>Counting the ballots\<close>

lemma inc_count_keys: "fst ` set (inc_count c kvs) = insert c (fst ` set kvs)"
  by (induction c kvs rule: inc_count.induct) auto

lemma inc_count_sorted:
  "sorted_wrt (<) (map fst kvs) \<Longrightarrow> sorted_wrt (<) (map fst (inc_count c kvs))"
proof (induction c kvs rule: inc_count.induct)
  case (1 c)
  then show ?case by simp
next
  case (2 c k n kvs)
  have keys: "fst ` set (inc_count c kvs) = insert c (fst ` set kvs)"
    by (rule inc_count_keys)
  from 2 show ?case
    by (auto simp: keys image_iff)
qed

lemma map_of_below_None:
  "\<forall>x \<in> set (kvs :: (nat \<times> nat) list). k < fst x \<Longrightarrow> c \<le> k \<Longrightarrow> map_of kvs c = None"
  by (induction kvs) auto

lemma inc_count_getc:
  "sorted_wrt (<) (map fst kvs) \<Longrightarrow>
   getc (inc_count c kvs) k = getc kvs k + (if k = c then 1 else 0)"
proof (induction c kvs rule: inc_count.induct)
  case (1 c)
  then show ?case by (simp add: getc_def)
next
  case (2 c k' n kvs)
  from "2.prems" have above: "\<forall>x \<in> set kvs. k' < fst x"
    and srt: "sorted_wrt (<) (map fst kvs)"
    by auto
  show ?case
  proof (cases "c = k'")
    case True
    then show ?thesis by (simp add: getc_def)
  next
    case False
    show ?thesis
    proof (cases "c < k'")
      case True
      then have "map_of kvs c = None" using above by (intro map_of_below_None) auto
      with True False show ?thesis by (simp add: getc_def)
    next
      case ge: False
      from "2.IH" [OF False ge srt] False ge show ?thesis
        by (cases "k = c") (simp_all add: getc_def)
    qed
  qed
qed

lemma inc_count_pos:
  "\<forall>p \<in> set kvs. 0 < snd p \<Longrightarrow> \<forall>p \<in> set (inc_count c kvs). 0 < snd p"
  by (induction c kvs rule: inc_count.induct) auto

lemma count_for_Cons:
  "count_for dec e (b # bs) k =
     (if decrypt_ballot dec e b = Some k then 1 else 0) + count_for dec e bs k"
  by (simp add: count_for_def)

lemma decryptable_Cons:
  "decryptable dec e (b # bs) =
     (if decrypt_ballot dec e b = None then 0 else 1) + decryptable dec e bs"
  by (simp add: decryptable_def)

lemma decryptable_le: "decryptable dec e bs \<le> length bs"
  by (simp add: decryptable_def)

text \<open>
  The loop invariant: keys stay in ascending order, stored counts are positive, the count
  of each key grows by the number of ballots decrypting to it, and the counter of
  decrypted ballots by the number of ballots that decrypt.
\<close>

lemma count_loop_props:
  "sorted_wrt (<) (map fst vc) \<Longrightarrow> \<forall>p \<in> set vc. 0 < snd p \<Longrightarrow>
   count_loop dec e bs (vc, d) = (vc', d') \<Longrightarrow>
     sorted_wrt (<) (map fst vc') \<and> (\<forall>p \<in> set vc'. 0 < snd p) \<and>
     (\<forall>k. getc vc' k = getc vc k + count_for dec e bs k) \<and>
     d' = d + decryptable dec e bs"
proof (induction bs arbitrary: vc d)
  case Nil
  then show ?case by (simp add: count_for_def decryptable_def)
next
  case (Cons b bs)
  show ?case
  proof (cases "decrypt_ballot dec e b")
    case None
    with Cons.prems have run: "count_loop dec e bs (vc, d) = (vc', d')" by simp
    from Cons.IH [OF Cons.prems(1) Cons.prems(2) run] None show ?thesis
      by (simp add: count_for_Cons decryptable_Cons)
  next
    case (Some c)
    with Cons.prems have run: "count_loop dec e bs (inc_count c vc, d + 1) = (vc', d')"
      by simp
    have s: "sorted_wrt (<) (map fst (inc_count c vc))"
      using Cons.prems(1) by (rule inc_count_sorted)
    have p: "\<forall>p \<in> set (inc_count c vc). 0 < snd p"
      using Cons.prems(2) by (rule inc_count_pos)
    from Cons.IH [OF s p run] Some show ?thesis
      by (simp add: count_for_Cons decryptable_Cons inc_count_getc [OF Cons.prems(1)])
  qed
qed

lemma count_loop_decrypted:
  "snd (count_loop dec e bs ([], 0)) = decryptable dec e bs"
proof -
  obtain vc d where run: "count_loop dec e bs ([], 0) = (vc, d)"
    by (cases "count_loop dec e bs ([], 0)")
  have "d = 0 + decryptable dec e bs"
    using count_loop_props [OF _ _ run] by simp
  with run show ?thesis by simp
qed

lemma getc_member:
  "sorted_wrt (<) (map fst vc) \<Longrightarrow> (k, n) \<in> set vc \<Longrightarrow> getc vc k = n"
proof -
  assume s: "sorted_wrt (<) (map fst vc)" and m: "(k, n) \<in> set vc"
  from s have "distinct (map fst vc)"
    by (simp add: strict_sorted_iff)
  with m have "map_of vc k = Some n" by simp
  then show ?thesis by (simp add: getc_def)
qed

section \<open>Sorting and the top of the list\<close>

lemma set_sort_results: "set (sort_results rs) = set rs"
  by (simp add: sort_results_def)

lemma sort_results_top:
  assumes "sort_results rs = r # rest" and "x \<in> set rs"
  shows "votes x \<le> votes r"
proof -
  have "sorted (map (\<lambda>r. - int (votes r)) (sort_results rs))"
    by (simp add: sort_results_def)
  with assms(1) have "\<forall>y \<in> set rest. - int (votes r) \<le> - int (votes y)" by simp
  moreover from assms have "x = r \<or> x \<in> set rest"
    using set_sort_results [of rs] by auto
  ultimately show ?thesis by auto
qed

lemma topVotes_Max:
  assumes "sort_results rs \<noteq> []"
  shows "topVotes (sort_results rs) = Max (votes ` set (sort_results rs))"
proof -
  from assms obtain r rest where eq: "sort_results rs = r # rest"
    by (cases "sort_results rs") auto
  have "Max (votes ` set (sort_results rs)) = votes r"
  proof (rule Max_eqI)
    show "finite (votes ` set (sort_results rs))" by simp
    show "votes r \<in> votes ` set (sort_results rs)" using eq by simp
    fix y assume "y \<in> votes ` set (sort_results rs)"
    then obtain x where "x \<in> set rs" "y = votes x"
      using set_sort_results [of rs] by auto
    then show "y \<le> votes r" using sort_results_top [OF eq] by simp
  qed
  then show ?thesis using eq by (simp add: topVotes_def)
qed

text \<open>
  Every line of a tally carries the number of ballots that decrypt to its candidate,
  which is positive, and a percentage over the number of ballots found.
\<close>

lemma tally_results_member:
  assumes "r \<in> set (tally_results dec cs e bs)"
  shows "votes r = count_for dec e bs (candidateId r) \<and> 0 < votes r \<and>
         percentage r = percentage_of (votes r) (length bs) \<and>
         candidateName r = name_of cs (candidateId r)"
proof -
  obtain vc d where run: "count_loop dec e bs ([], 0) = (vc, d)"
    by (cases "count_loop dec e bs ([], 0)")
  have props: "sorted_wrt (<) (map fst vc) \<and> (\<forall>p \<in> set vc. 0 < snd p) \<and>
     (\<forall>k. getc vc k = getc [] k + count_for dec e bs k) \<and>
     d = 0 + decryptable dec e bs"
    by (rule count_loop_props [OF _ _ run]) simp_all
  from assms run have "r \<in> set (make_results cs (length bs) vc)"
    by (simp add: tally_results_def set_sort_results)
  then obtain k n where kn: "(k, n) \<in> set vc"
    and r: "r = \<lparr>candidateId = k, candidateName = name_of cs k, votes = n,
                 percentage = percentage_of n (length bs)\<rparr>"
    by (auto simp: make_results_def)
  have "getc vc k = n" using getc_member [of vc k n] props kn by blast
  moreover have "getc vc k = getc [] k + count_for dec e bs k" using props by blast
  ultimately have "n = count_for dec e bs k" by (simp add: getc_def)
  moreover from props kn have "0 < n" by auto
  ultimately show ?thesis using r by simp
qed

lemma tiedCandidates_Cons:
  "tiedCandidates (r # rest) = r # filter (\<lambda>x. votes x = votes r) rest"
  by (simp add: tiedCandidates_def topVotes_def)

section \<open>Rounding of doubles\<close>

text \<open>
  A number with \<open>l\<close> binary digits lies between \<open>2 ^ (l - 1)\<close> and \<open>2 ^ l\<close>; rounding
  to an integer is off by at most one half; an operation is off by at most
  \<open>2 ^ - 52\<close> of its exact result; \<open>toFixed(2)\<close> is off by at most half a hundredth
  of the double it prints.
\<close>

lemma bit_length_bounds:
  "0 < n \<Longrightarrow> 2 ^ (bit_length n - 1) \<le> n \<and> n < 2 ^ bit_length n"
proof (induction n rule: bit_length.induct)
  case (1 n)
  show ?case
  proof (cases "n div 2 = 0")
    case True
    with 1(2) have "n = 1" by (simp add: div_eq_0_iff) 
    then show ?thesis by (simp add: bit_length.simps)
  next
    case False
    then have pos: "0 < n div 2" by simp
    from 1(2) have n0: "n \<noteq> 0" by simp
    from 1(1) [OF n0 pos] have lo: "2 ^ (bit_length (n div 2) - 1) \<le> n div 2"
      and hi: "n div 2 < 2 ^ bit_length (n div 2)" by simp_all
    have bl: "bit_length n = Suc (bit_length (n div 2))"
      using n0 by (subst bit_length.simps) simp
    have blpos: "0 < bit_length (n div 2)"
      using pos by (subst bit_length.simps) simp
    have "(2::nat) ^ bit_length (n div 2) = 2 * 2 ^ (bit_length (n div 2) - 1)"
      using blpos by (cases "bit_length (n div 2)") simp_all
    with lo have "2 ^ bit_length (n div 2) \<le> 2 * (n div 2)" by simp
    also have "\<dots> \<le> n" by simp
    finally have a: "2 ^ (bit_length n - 1) \<le> n" by (simp add: bl)
    from hi have "n div 2 + 1 \<le> 2 ^ bit_length (n div 2)" by simp
    then have "2 * (n div 2) + 2 \<le> 2 ^ bit_length n" by (simp add: bl)
    moreover have "n < 2 * (n div 2) + 2" by presburger
    ultimately have b: "n < 2 ^ bit_length n" by linarith
    from a b show ?thesis by simp
  qed
qed

lemma round_half_even_error:
  assumes "0 < b"
  shows "\<bar>real (round_half_even a b) - real a / real b\<bar> \<le> 1 / 2"
proof -
  define q where "q = a div b"
  define r where "r = a mod b"
  have a: "a = b * q + r" by (simp add: q_def r_def)
  have rb: "r < b" using assms by (simp add: r_def)
  have frac: "real a / real b = real q + real r / real b"
    using assms by (simp add: a field_simps)
  have r1: "real r / real b < 1" using rb assms by simp
  have r0: "0 \<le> real r / real b" by simp
  consider "2 * r < b" | "b < 2 * r" | "2 * r = b" by linarith
  then show ?thesis
  proof cases
    case 1
    then have "round_half_even a b = q" by (simp add: round_half_even_def q_def r_def Let_def)
    moreover from 1 have "real r / real b \<le> 1 / 2" using assms by (simp add: field_simps)
    ultimately show ?thesis using frac r0 by simp
  next
    case 2
    then have "round_half_even a b = q + 1"
      by (simp add: round_half_even_def q_def r_def Let_def)
    moreover from 2 have "1 / 2 \<le> real r / real b" using assms by (simp add: field_simps)
    ultimately show ?thesis using frac r1 by simp
  next
    case 3
    then have "round_half_even a b = q \<or> round_half_even a b = q + 1"
      by (simp add: round_half_even_def q_def r_def Let_def)
    moreover from 3 have "real r / real b = 1 / 2" using assms
      by (simp add: field_simps)
    ultimately show ?thesis using frac by auto
  qed
qed


lemma round_double_error:
  assumes "0 < a" and "0 < b"
  shows "\<bar>dbl_val (round_double a b) - real a / real b\<bar> \<le> (real a / real b) / 2 ^ 52"
proof -
  define e0 where "e0 = int (bit_length a) - int (bit_length b) - 53"
  define e where "e = (if 2 ^ 53 * (b * 2 ^ nat e0) \<le> a * 2 ^ nat (- e0) then e0 + 1 else e0)"
  define A where "A = a * 2 ^ nat (- e)"
  define B where "B = b * 2 ^ nat e"
  define p :: real where "p = 2 ^ nat e / 2 ^ nat (- e)"
  have rd: "round_double a b = \<lparr>mant = round_half_even A B, expo = e\<rparr>"
    using assms by (simp add: round_double_def Let_def e_def e0_def A_def B_def)
  have Bpos: "0 < B" using assms by (simp add: B_def)
  have ppos: "0 < p" by (simp add: p_def)
  have val: "dbl_val (round_double a b) = real (round_half_even A B) * p"
    by (simp add: rd dbl_val_def dbl_num_def dbl_den_def p_def)
  have scaled: "real A / real B * p = real a / real b"
    using assms by (simp add: A_def B_def p_def field_simps)
  from round_half_even_error [OF Bpos, of A]
  have "\<bar>real (round_half_even A B) - real A / real B\<bar> * p \<le> 1 / 2 * p"
    using ppos by (intro mult_right_mono) simp_all
  then have "\<bar>(real (round_half_even A B) - real A / real B) * p\<bar> \<le> p / 2"
    using ppos by (simp add: abs_mult)
  then have err: "\<bar>dbl_val (round_double a b) - real a / real b\<bar> \<le> p / 2"
    unfolding val using scaled by (simp add: algebra_simps)
  have e_le: "e \<le> int (bit_length a) - int (bit_length b) - 52"
    by (simp add: e_def e0_def)
  have pb: "p * (2 ^ bit_length b * 2 ^ 52) \<le> 2 ^ bit_length a"
  proof (cases "0 \<le> e")
    case True
    then have "p = 2 ^ nat e" by (simp add: p_def)
    moreover from True e_le have "nat e + (bit_length b + 52) \<le> bit_length a" by linarith
    then have "(2::real) ^ (nat e + (bit_length b + 52)) \<le> 2 ^ bit_length a"
      by (intro power_increasing) simp_all
    ultimately show ?thesis by (simp add: power_add)
  next
    case False
    then have p: "p = 1 / 2 ^ nat (- e)" by (simp add: p_def)
    from False e_le have "bit_length b + 52 \<le> bit_length a + nat (- e)" by linarith
    then have "(2::real) ^ (bit_length b + 52) \<le> 2 ^ (bit_length a + nat (- e))"
      by (intro power_increasing) simp_all
    then show ?thesis unfolding p by (simp add: power_add field_simps)
  qed
  have "0 < bit_length a" using assms(1) by (subst bit_length.simps) simp
  then have "(2::nat) ^ bit_length a = 2 * 2 ^ (bit_length a - 1)"
    by (cases "bit_length a") simp_all
  with bit_length_bounds [OF assms(1)] have "2 ^ bit_length a \<le> 2 * a" by simp
  then have la: "(2::real) ^ bit_length a \<le> 2 * real a"
    by (metis of_nat_le_iff of_nat_mult of_nat_numeral of_nat_power)
  from bit_length_bounds [OF assms(2)] have "b \<le> 2 ^ bit_length b" by simp
  then have lb: "real b \<le> 2 ^ bit_length b"
    by (metis of_nat_le_iff of_nat_numeral of_nat_power)
  have "p * (real b * 2 ^ 52) \<le> p * (2 ^ bit_length b * 2 ^ 52)"
    using ppos lb by (intro mult_left_mono mult_right_mono) simp_all
  with pb la have "p * (real b * 2 ^ 52) \<le> 2 * real a" by linarith
  then have "p / 2 \<le> (real a / real b) / 2 ^ 52"
    using assms by (simp add: field_simps)
  with err show ?thesis by linarith
qed


lemma hundredths_error:
  "\<bar>real (hundredths d) - 100 * dbl_val d\<bar> \<le> 1 / 2"
proof -
  define A where "A = 200 * dbl_num d + dbl_den d"
  define B where "B = 2 * dbl_den d"
  have Bpos: "0 < B" by (simp add: B_def dbl_den_def)
  have h: "hundredths d = A div B" by (simp add: hundredths_def A_def B_def)
  have split: "A = B * (A div B) + A mod B" by simp
  have rem: "A mod B < B" using Bpos by simp
  have "real A = real B * real (A div B) + real (A mod B)"
    by (metis split of_nat_add of_nat_mult)
  then have quot: "real (A div B) = real A / real B - real (A mod B) / real B"
    using Bpos by (simp add: field_simps)
  have exact: "real A / real B = 100 * dbl_val d + 1 / 2"
    using Bpos by (simp add: A_def B_def dbl_val_def dbl_den_def field_simps)
  have r0: "0 \<le> real (A mod B) / real B" by simp
  have r1: "real (A mod B) / real B < 1" using rem Bpos by simp
  from quot exact r0 r1 show ?thesis unfolding h by linarith
qed

text \<open>
  The significand of a result has 53 binary digits, or is \<open>2 ^ 53\<close> after a carry of
  the rounding: the result is a double.
\<close>

lemma scale_powi:
  fixes e :: int
  shows "(2::real) ^ nat (- e) / 2 ^ nat e = 2 powi (- e)"
proof (cases "0 \<le> e")
  case True
  then show ?thesis by (simp add: power_int_def field_simps)
next
  case False
  then show ?thesis by (simp add: power_int_def)
qed

lemma round_half_even_range:
  assumes "0 < B" and "lo * B \<le> A" and "A < hi * B"
  shows "lo \<le> round_half_even A B \<and> round_half_even A B \<le> hi"
proof -
  from assms(1,2) have "lo \<le> A div B"
    by (metis div_le_mono div_mult_self_is_m mult.commute)
  moreover from assms(1,3) have "A div B < hi"
    by (simp add: less_mult_imp_div_less mult.commute)
  moreover have "round_half_even A B = A div B \<or> round_half_even A B = A div B + 1"
    by (simp add: round_half_even_def Let_def)
  ultimately show ?thesis by auto
qed

lemma round_double_normal:
  assumes "0 < a" and "0 < b"
  shows "2 ^ 52 \<le> mant (round_double a b) \<and> mant (round_double a b) \<le> 2 ^ 53"
proof -
  define la where "la = int (bit_length a)"
  define lb where "lb = int (bit_length b)"
  define e0 where "e0 = la - lb - 53"
  define e where "e = (if 2 ^ 53 * (b * 2 ^ nat e0) \<le> a * 2 ^ nat (- e0) then e0 + 1 else e0)"
  define A where "A = a * 2 ^ nat (- e)"
  define B where "B = b * 2 ^ nat e"
  define x where "x = real a / real b"
  have rd: "mant (round_double a b) = round_half_even A B"
    using assms by (simp add: round_double_def Let_def e_def e0_def A_def B_def la_def lb_def)
  have Bpos: "0 < B" using assms by (simp add: B_def)
  have xpos: "0 < x" using assms by (simp add: x_def)
  have sc: "real (a * 2 ^ nat (- k)) / real (b * 2 ^ nat k) = x * 2 powi (- k)" for k :: int
  proof -
    have "real (a * 2 ^ nat (- k)) / real (b * 2 ^ nat k) =
        x * ((2::real) ^ nat (- k) / 2 ^ nat k)"
      by (simp add: x_def)
    then show ?thesis by (simp only: scale_powi)
  qed
  have cmp: "(c * (b * 2 ^ nat k) \<le> a * 2 ^ nat (- k)) = (real c \<le> x * 2 powi (- k))"
    for c :: nat and k :: int
  proof -
    have "(c * (b * 2 ^ nat k) \<le> a * 2 ^ nat (- k)) =
        (real c * real (b * 2 ^ nat k) \<le> real (a * 2 ^ nat (- k)))"
      by (metis of_nat_le_iff of_nat_mult)
    also have "\<dots> = (real c \<le> real (a * 2 ^ nat (- k)) / real (b * 2 ^ nat k))"
      using assms by (simp add: field_simps)
    finally show ?thesis by (simp only: sc)
  qed
  have blpos: "0 < bit_length n" if "0 < n" for n
    using that by (subst bit_length.simps) simp
  have two: "(2::real) ^ bit_length n = 2 * 2 ^ (bit_length n - 1)" if "0 < n" for n
    using blpos [OF that] by (cases "bit_length n") simp_all
  have ra: "2 ^ (bit_length a - 1) \<le> real a" "real a < 2 ^ bit_length a"
    using bit_length_bounds [OF assms(1)]
    by (metis of_nat_le_iff of_nat_numeral of_nat_power,
        metis of_nat_less_iff of_nat_numeral of_nat_power)
  have rb: "2 ^ (bit_length b - 1) \<le> real b" "real b < 2 ^ bit_length b"
    using bit_length_bounds [OF assms(2)]
    by (metis of_nat_le_iff of_nat_numeral of_nat_power,
        metis of_nat_less_iff of_nat_numeral of_nat_power)
  have pa: "(2::real) ^ bit_length a = 2 powi la" "(2::real) ^ bit_length b = 2 powi lb"
    by (simp_all add: la_def lb_def)
  have x_lo: "2 powi (la - lb - 1) < x"
  proof -
    have "2 powi (la - lb - 1) = (2::real) ^ bit_length a / 2 / 2 ^ bit_length b"
      by (simp add: pa power_int_diff)
    also have "\<dots> = 2 ^ (bit_length a - 1) / 2 ^ bit_length b"
      using two [OF assms(1)] by simp
    also have "\<dots> < real a / real b"
      using ra(1) rb(2) assms by (intro frac_less2) simp_all
    finally show ?thesis by (simp add: x_def)
  qed
  have x_hi: "x < 2 powi (la - lb + 1)"
  proof -
    have "real a / real b < 2 ^ bit_length a / 2 ^ (bit_length b - 1)"
      using ra(2) rb(1) assms by (intro frac_less) simp_all
    also have "\<dots> = 2 ^ bit_length a * 2 / 2 ^ bit_length b"
      using two [OF assms(2)] by simp
    also have "\<dots> = 2 powi (la - lb + 1)"
      by (simp add: pa power_int_diff power_int_add)
    finally show ?thesis by (simp add: x_def)
  qed
  have lo0: "2 ^ 52 < x * 2 powi (- e0)"
  proof -
    have "(2::real) powi (la - lb - 1) * 2 powi (- e0) = 2 powi 52"
      unfolding e0_def by (subst power_int_add [symmetric]) simp_all
    moreover have "2 powi (la - lb - 1) * 2 powi (- e0) < x * 2 powi (- e0)"
      using x_lo by (intro mult_strict_right_mono) simp_all
    ultimately show ?thesis by simp
  qed
  have hi1: "x * 2 powi (- (e0 + 1)) < 2 ^ 53"
  proof -
    have "(2::real) powi (la - lb + 1) * 2 powi (- (e0 + 1)) = 2 powi 53"
      unfolding e0_def by (subst power_int_add [symmetric]) simp_all
    moreover have "x * 2 powi (- (e0 + 1)) < 2 powi (la - lb + 1) * 2 powi (- (e0 + 1))"
      using x_hi by (intro mult_strict_right_mono) simp_all
    ultimately show ?thesis by simp
  qed
  have half: "x * 2 powi (- (e0 + 1)) = x * 2 powi (- e0) / 2"
  proof -
    have "(2::real) powi (- (e0 + 1)) = 2 powi (- e0) * 2 powi (- 1)"
      by (subst power_int_add [symmetric]) simp_all
    then show ?thesis by simp
  qed
  have range: "2 ^ 52 \<le> x * 2 powi (- e) \<and> x * 2 powi (- e) < 2 ^ 53"
  proof (cases "2 ^ 53 * (b * 2 ^ nat e0) \<le> a * 2 ^ nat (- e0)")
    case True
    then have e: "e = e0 + 1" by (simp add: e_def)
    from True have "real (2 ^ 53) \<le> x * 2 powi (- e0)" unfolding cmp .
    then have "2 ^ 52 \<le> x * 2 powi (- e0) / 2" by simp
    with hi1 show ?thesis unfolding e half by simp
  next
    case False
    then have e: "e = e0" by (simp add: e_def)
    from False have "\<not> real (2 ^ 53) \<le> x * 2 powi (- e0)" unfolding cmp .
    with lo0 show ?thesis unfolding e by simp
  qed
  from range have "real (2 ^ 52) \<le> x * 2 powi (- e)" by simp
  then have lo: "2 ^ 52 * B \<le> A" unfolding A_def B_def cmp .
  from range have "\<not> real (2 ^ 53) \<le> x * 2 powi (- e)" by simp
  then have "\<not> 2 ^ 53 * B \<le> A" unfolding A_def B_def cmp .
  then have hi: "A < 2 ^ 53 * B" by simp
  from round_half_even_range [OF Bpos lo hi] show ?thesis unfolding rd .
qed

text \<open>
  The hundredths printed for \<open>((v / n) * 100)\<close> are within one half, and the slack of
  the two roundings, of the exact \<open>10000 * v / n\<close>.
\<close>

lemma percentage_error:
  assumes "0 < v" and "v \<le> n"
  shows "\<bar>real (hundredths (js_times (js_divide v n) 100)) - 10000 * real v / real n\<bar>
           \<le> 1 / 2 + 1 / 2 ^ 37"
proof -
  define q where "q = real v / real n"
  define d1 where "d1 = js_divide v n"
  define d2 where "d2 = js_times d1 100"
  from assms have npos: "0 < n" by simp
  have q0: "0 < q" using assms npos by (simp add: q_def)
  have q1: "q \<le> 1" using assms npos by (simp add: q_def)
  have e1: "\<bar>dbl_val d1 - q\<bar> \<le> q / 2 ^ 52"
    unfolding d1_def js_divide_def q_def by (rule round_double_error [OF assms(1) npos])
  have small: "q / 2 ^ 52 < q" using q0 by simp
  from e1 small have x1pos: "0 < dbl_val d1" by linarith
  from e1 small q1 have x1le: "dbl_val d1 \<le> 2" by linarith
  have denpos: "0 < dbl_den d1" by (simp add: dbl_den_def)
  from x1pos have numpos: "0 < dbl_num d1 * 100"
    by (cases "dbl_num d1 = 0") (simp_all add: dbl_val_def)
  have prod: "real (dbl_num d1 * 100) / real (dbl_den d1) = 100 * dbl_val d1"
    by (simp add: dbl_val_def)
  have e2: "\<bar>dbl_val d2 - 100 * dbl_val d1\<bar> \<le> (100 * dbl_val d1) / 2 ^ 52"
    using round_double_error [OF numpos denpos] unfolding prod d2_def js_times_def .
  have e3: "\<bar>real (hundredths d2) - 100 * dbl_val d2\<bar> \<le> 1 / 2"
    by (rule hundredths_error)
  have b1: "q / 2 ^ 52 \<le> 1 / 2 ^ 52" using q1 by (simp add: divide_right_mono)
  have b2: "(100 * dbl_val d1) / 2 ^ 52 \<le> 200 / 2 ^ 52"
    using x1le by (simp add: divide_right_mono)
  have "\<bar>real (hundredths d2) - 10000 * q\<bar> \<le> 1 / 2 + 100 * (200 / 2 ^ 52) + 10000 * (1 / 2 ^ 52)"
    using e1 e2 e3 b1 b2 by linarith
  also have "\<dots> \<le> 1 / 2 + 1 / 2 ^ 37" by simp
  finally show ?thesis by (simp add: d2_def d1_def q_def)
qed

text \<open>
  With fewer than \<open>2 ^ 36\<close> ballots the slack is less than the distance between two
  different fractions of the ballots, so the hundredths printed are an integer nearest to
  the exact \<open>10000 * v / n\<close>.
\<close>

lemma percentage_nearest:
  assumes "0 < v" and "v \<le> n" and "n < 2 ^ 36"
  shows "\<bar>real (hundredths (js_times (js_divide v n) 100)) - 10000 * real v / real n\<bar>
           \<le> 1 / 2"
proof -
  define h where "h = hundredths (js_times (js_divide v n) 100)"
  define D where "D = 2 * int h * int n - 20000 * int v"
  define x where "x = real h - 10000 * real v / real n"
  from assms have npos: "0 < real n" by simp
  have bound: "\<bar>x\<bar> \<le> 1 / 2 + 1 / 2 ^ 37"
    unfolding x_def h_def by (rule percentage_error [OF assms(1,2)])
  have "real n * x = real h * real n - 10000 * real v"
    unfolding x_def using npos by (simp add: right_diff_distrib mult.commute)
  then have scale: "real_of_int D = 2 * (real n * x)"
    by (simp add: D_def)
  have "\<bar>real_of_int D\<bar> = 2 * (real n * \<bar>x\<bar>)"
    unfolding scale using npos by (simp add: abs_mult)
  also have "\<dots> \<le> 2 * (real n * (1 / 2 + 1 / 2 ^ 37))"
    using bound npos by (intro mult_left_mono) simp_all
  also have "\<dots> = real n + real n / 2 ^ 36" by (simp add: distrib_left)
  finally have le: "\<bar>real_of_int D\<bar> \<le> real n + real n / 2 ^ 36" .
  from assms(3) have "real n < 2 ^ 36"
    by (metis of_nat_less_iff of_nat_numeral of_nat_power)
  then have "real n / 2 ^ 36 < 1" by simp
  with le have "\<bar>real_of_int D\<bar> < real n + 1" by linarith
  then have "real_of_int \<bar>D\<bar> < real_of_int (int n + 1)" by simp
  then have "\<bar>D\<bar> < int n + 1" by (simp only: of_int_less_iff)
  then have "\<bar>D\<bar> \<le> int n" by simp
  then have "real_of_int \<bar>D\<bar> \<le> real_of_int (int n)" by (simp only: of_int_le_iff)
  then have "\<bar>real_of_int D\<bar> \<le> real n" by simp
  then have "2 * (real n * \<bar>x\<bar>) \<le> real n"
    unfolding scale using npos by (simp add: abs_mult)
  then have "real n * (2 * \<bar>x\<bar>) \<le> real n * 1" by (simp add: mult.left_commute)
  then have "2 * \<bar>x\<bar> \<le> 1" using npos by (simp only: mult_le_cancel_left_pos)
  then show ?thesis by (simp add: x_def h_def)
qed

section \<open>The sample tallies, evaluated\<close>

lemmas sample_cipher_defs =
  sample_ballot_def sample_decryptVote_def decrypt_ballot_def

lemmas double_defs =
  percentage_of_def toFixed2_def hundredths_def js_times_def js_divide_def round_double_def
  round_half_even_def dbl_num_def dbl_den_def bit_length.simps Let_def dec_str.simps digit_def

text \<open>
  23 of 160, exactly 14.375 per cent: the quotient and the product as doubles
  (\<open>0x1.2666666666666p-3\<close> and \<open>0x1.cbfffffffffffp+3\<close>, just below 14.375).
\<close>

lemma sample_doubles:
  shows "js_divide 23 160 = \<lparr>mant = 5179139571476070, expo = -55\<rparr>"
    and "js_times (js_divide 23 160) 100 = \<lparr>mant = 8092405580431359, expo = -49\<rparr>"
    and "hundredths (js_times (js_divide 23 160) 100) = 1437"
  by (simp_all add: double_defs)

lemma sample_percentages:
  shows "percentage_of 3 7 = ''42.86''" and "percentage_of 1 7 = ''14.29''"
    and "percentage_of 2 3 = ''66.67''" and "percentage_of 1 3 = ''33.33''"
    and "percentage_of 2 2 = ''100.00''" and "percentage_of 23 160 = ''14.37''"
    and "percentage_of (Suc 0) 7 = ''14.29''" and "percentage_of (Suc 0) 3 = ''33.33''"
  by (simp_all add: double_defs)

lemmas result_line_defs =
  make_results_def name_of_def abc_candidates_def sample_percentages sort_results_def

lemma abc_counts:
  "count_loop sample_decryptVote 1 abc_ballots ([], 0) = ([(1, 3), (2, 3), (3, 1)], 7)"
  by (simp add: abc_ballots_def sample_cipher_defs)

lemma abc_tally:
  "tally_results sample_decryptVote abc_candidates 1 abc_ballots =
     [\<lparr>candidateId = 1, candidateName = ''A'', votes = 3, percentage = ''42.86''\<rparr>,
      \<lparr>candidateId = 2, candidateName = ''B'', votes = 3, percentage = ''42.86''\<rparr>,
      \<lparr>candidateId = 3, candidateName = ''C'', votes = 1, percentage = ''14.29''\<rparr>]"
proof -
  have "length abc_ballots = 7" by (simp add: abc_ballots_def)
  then show ?thesis
    unfolding tally_results_def abc_counts by (simp add: result_line_defs)
qed

lemma aab_counts:
  "count_loop sample_decryptVote 1 aab_ballots ([], 0) = ([(1, 2), (2, 1)], 3)"
  by (simp add: aab_ballots_def sample_cipher_defs)

lemma aab_tally:
  "tally_results sample_decryptVote abc_candidates 1 aab_ballots = [a_line, b_line]"
proof -
  have "length aab_ballots = 3" by (simp add: aab_ballots_def)
  then show ?thesis
    unfolding tally_results_def aab_counts
    by (simp add: result_line_defs a_line_def b_line_def)
qed

lemma aa_bad_counts:
  "count_loop sample_decryptVote 1 aa_bad_ballots ([], 0) = ([(1, 2)], 2)"
  by (simp add: aa_bad_ballots_def sample_cipher_defs)

lemma aa_bad_tally:
  "tally_results sample_decryptVote abc_candidates 1 aa_bad_ballots = [a_line]"
proof -
  have "length aa_bad_ballots = 3" by (simp add: aa_bad_ballots_def)
  then show ?thesis
    unfolding tally_results_def aa_bad_counts
    by (simp add: result_line_defs a_line_def)
qed

section \<open>The tie rule\<close>

text \<open>
  Claim C3. For the result list \<open>rs\<close> of any tally (any ballots, any cipher, any
  candidate table): \<open>topVotes\<close> is the largest count of the list, and \<open>0\<close> when the list
  is empty, as it is when there are no ballots; \<open>tiedCandidates\<close> is the sublist of the
  lines whose count is \<open>topVotes\<close>; \<open>tie\<close> holds exactly when that sublist has more than
  one line and \<open>topVotes\<close> is positive; \<open>winner\<close> is \<open>null\<close> under a tie, and otherwise
  the first line, which is then the only line with the top count (\<open>null\<close> when the list
  is empty). The counts \<open>{A:3, B:3, C:1}\<close> give a tie between A and B and no winner.
\<close>

theorem tie_rule:
  "let rs = tally_results decryptVote cs electionId bs in
     topVotes rs = (if rs = [] then 0 else Max (votes ` set rs))
   \<and> (bs = [] \<longrightarrow> rs = [] \<and> topVotes rs = 0)
   \<and> tiedCandidates rs = filter (\<lambda>r. votes r = topVotes rs) rs
   \<and> tie rs = (length (tiedCandidates rs) > 1 \<and> topVotes rs > 0)
   \<and> (tie rs \<longrightarrow> winner rs = None)
   \<and> (\<not> tie rs \<longrightarrow> rs \<noteq> [] \<longrightarrow> tiedCandidates rs = [hd rs] \<and> winner rs = Some (hd rs))
   \<and> (rs = [] \<longrightarrow> winner rs = None)
   \<and> (let abc = sort_results (make_results cs 7 [(1, 3), (2, 3), (3, 1)])
      in tie abc \<and> map candidateId (tiedCandidates abc) = [1, 2] \<and> winner abc = None)"
proof -
  define rs where "rs = tally_results decryptVote cs electionId bs"
  have srt: "rs = sort_results (make_results cs (length bs)
      (fst (count_loop decryptVote electionId bs ([], 0))))"
    by (simp add: rs_def tally_results_def)
  have a: "topVotes rs = (if rs = [] then 0 else Max (votes ` set rs))"
  proof (cases "rs = []")
    case True
    then show ?thesis by (simp add: topVotes_def)
  next
    case False
    then show ?thesis unfolding srt by (simp add: topVotes_Max)
  qed
  have b: "bs = [] \<longrightarrow> rs = [] \<and> topVotes rs = 0"
    by (simp add: srt make_results_def sort_results_def topVotes_def)
  have c: "tiedCandidates rs = filter (\<lambda>r. votes r = topVotes rs) rs"
    by (simp add: tiedCandidates_def)
  have d: "tie rs = (length (tiedCandidates rs) > 1 \<and> topVotes rs > 0)"
    by (simp add: tie_def)
  have e: "tie rs \<longrightarrow> winner rs = None"
    by (simp add: winner_def)
  have f: "\<not> tie rs \<longrightarrow> rs \<noteq> [] \<longrightarrow> tiedCandidates rs = [hd rs] \<and> winner rs = Some (hd rs)"
  proof (intro impI)
    assume nt: "\<not> tie rs" and ne: "rs \<noteq> []"
    then obtain r rest where eq: "rs = r # rest" by (cases rs) auto
    have "r \<in> set (tally_results decryptVote cs electionId bs)"
      using eq by (simp add: rs_def [symmetric])
    then have "0 < votes r"
      using tally_results_member [of r decryptVote cs electionId bs] by blast
    then have "0 < topVotes rs" using eq by (simp add: topVotes_def)
    with nt have "length (tiedCandidates rs) \<le> 1" by (simp add: tie_def)
    then have "tiedCandidates rs = [r]"
      using eq by (simp add: tiedCandidates_Cons)
    moreover have "winner rs = Some r" using nt eq by (simp add: winner_def)
    ultimately show "tiedCandidates rs = [hd rs] \<and> winner rs = Some (hd rs)"
      using eq by simp
  qed
  have g: "rs = [] \<longrightarrow> winner rs = None"
    by (simp add: winner_def)
  have h: "let abc = sort_results (make_results cs 7 [(1, 3), (2, 3), (3, 1)])
      in tie abc \<and> map candidateId (tiedCandidates abc) = [1, 2] \<and> winner abc = None"
    by (simp add: make_results_def sort_results_def tie_def tiedCandidates_def
        topVotes_def winner_def)
  from a b c d e f g h show ?thesis
    unfolding rs_def [symmetric] Let_def by blast
qed

theorem tie_rule_witness:
  "tie (tally_results sample_decryptVote abc_candidates 1 abc_ballots)
   \<and> map candidateName (tiedCandidates
        (tally_results sample_decryptVote abc_candidates 1 abc_ballots)) = [''A'', ''B'']
   \<and> winner (tally_results sample_decryptVote abc_candidates 1 abc_ballots) = None
   \<and> topVotes (tally_results sample_decryptVote abc_candidates 1 abc_ballots) = 3
   \<and> \<not> tie (tally_results sample_decryptVote abc_candidates 1 aab_ballots)
   \<and> tiedCandidates (tally_results sample_decryptVote abc_candidates 1 aab_ballots) = [a_line]
   \<and> winner (tally_results sample_decryptVote abc_candidates 1 aab_ballots) = Some a_line
   \<and> tally_results sample_decryptVote abc_candidates 1 [] = []
   \<and> topVotes (tally_results sample_decryptVote abc_candidates 1 []) = 0
   \<and> winner (tally_results sample_decryptVote abc_candidates 1 []) = None"
proof -
  have t1: "tie (tally_results sample_decryptVote abc_candidates 1 abc_ballots)"
    unfolding abc_tally by (simp add: tie_def tiedCandidates_def topVotes_def)
  have t2: "\<not> tie (tally_results sample_decryptVote abc_candidates 1 aab_ballots)"
    unfolding aab_tally
    by (simp add: tie_def tiedCandidates_def topVotes_def a_line_def b_line_def)
  have n2: "tally_results sample_decryptVote abc_candidates 1 aab_ballots \<noteq> []"
    unfolding aab_tally by simp
  note abc = tie_rule [of sample_decryptVote abc_candidates 1 abc_ballots, unfolded Let_def]
  note aab = tie_rule [of sample_decryptVote abc_candidates 1 aab_ballots, unfolded Let_def]
  note nil = tie_rule [of sample_decryptVote abc_candidates 1 "[]", unfolded Let_def]
  have w1: "winner (tally_results sample_decryptVote abc_candidates 1 abc_ballots) = None"
    using abc t1 by blast
  have tc1: "map candidateName (tiedCandidates
      (tally_results sample_decryptVote abc_candidates 1 abc_ballots)) = [''A'', ''B'']"
    unfolding abc_tally by (simp add: tiedCandidates_def topVotes_def)
  have top1: "topVotes (tally_results sample_decryptVote abc_candidates 1 abc_ballots) = 3"
    unfolding abc_tally by (simp add: topVotes_def)
  have w2: "tiedCandidates (tally_results sample_decryptVote abc_candidates 1 aab_ballots) =
        [hd (tally_results sample_decryptVote abc_candidates 1 aab_ballots)]
      \<and> winner (tally_results sample_decryptVote abc_candidates 1 aab_ballots) =
        Some (hd (tally_results sample_decryptVote abc_candidates 1 aab_ballots))"
    using aab t2 n2 by blast
  have hd2: "hd (tally_results sample_decryptVote abc_candidates 1 aab_ballots) = a_line"
    unfolding aab_tally by simp
  have e3: "tally_results sample_decryptVote abc_candidates 1 [] = []
      \<and> topVotes (tally_results sample_decryptVote abc_candidates 1 []) = 0"
    using nil by blast
  then have w3: "winner (tally_results sample_decryptVote abc_candidates 1 []) = None"
    using nil by blast
  from t1 tc1 w1 top1 t2 w2 hd2 e3 w3 show ?thesis by metis
qed

section \<open>The tally route: guard, percentages, persistence\<close>

lemma runTally_consistent:
  assumes "u_type u = ''admin''" and "countVoted e s = length (ballots_of e s)"
  shows "runTally dec env u e s =
     (TallyOk \<lparr>tr_totalVotes = length (ballots_of e s),
               tr_decryptedVotes = decryptable dec e (ballots_of e s),
               tr_failedDecryptions = length (ballots_of e s) - decryptable dec e (ballots_of e s),
               tr_mysqlVotes = countVoted e s, tr_mongoVotes = length (ballots_of e s),
               tr_results = tally_results dec (candidates_of e s) e (ballots_of e s),
               tr_tie = tie (tally_results dec (candidates_of e s) e (ballots_of e s)),
               tr_tiedCandidates =
                 tiedCandidates (tally_results dec (candidates_of e s) e (ballots_of e s)),
               tr_winner = winner (tally_results dec (candidates_of e s) e (ballots_of e s))\<rparr>,
      persist_results env e (length (ballots_of e s))
        \<lparr>rp_list = tally_results dec (candidates_of e s) e (ballots_of e s),
         rp_tie = tie (tally_results dec (candidates_of e s) e (ballots_of e s)),
         rp_tiedCandidates =
           tiedCandidates (tally_results dec (candidates_of e s) e (ballots_of e s))\<rparr>
        (winner (tally_results dec (candidates_of e s) e (ballots_of e s))) s)"
  using assms by (simp add: runTally_def Let_def count_loop_decrypted)

lemmas sample_db_defs =
  open_db_def voted3_db_def ledger_row_def sample_election_def sample_ballot_def

lemma sample_admin_type: "u_type sample_admin = ''admin''"
  by (simp add: sample_admin_def)

lemma aab_facts:
  shows "ballots_of 1 (voted3_db aab_ballots) = aab_ballots"
    and "countVoted 1 (voted3_db aab_ballots) = 3"
    and "candidates_of 1 (voted3_db aab_ballots) = abc_candidates"
    and "snapshot_rows 1 (voted3_db aab_ballots) = []"
    and "length aab_ballots = 3"
    and "decryptable sample_decryptVote 1 aab_ballots = 3"
  by (simp_all add: ballots_of_def countVoted_def candidates_of_def snapshot_rows_def
      sample_db_defs abc_candidates_def aab_ballots_def decryptable_def sample_cipher_defs)

lemma aa_bad_facts:
  shows "ballots_of 1 (voted3_db aa_bad_ballots) = aa_bad_ballots"
    and "countVoted 1 (voted3_db aa_bad_ballots) = 3"
    and "candidates_of 1 (voted3_db aa_bad_ballots) = abc_candidates"
    and "snapshot_rows 1 (voted3_db aa_bad_ballots) = []"
    and "length aa_bad_ballots = 3"
    and "decryptable sample_decryptVote 1 aa_bad_ballots = 2"
  by (simp_all add: ballots_of_def countVoted_def candidates_of_def snapshot_rows_def
      sample_db_defs abc_candidates_def aa_bad_ballots_def decryptable_def sample_cipher_defs)

lemma a_line_wins:
  shows "tie [a_line, b_line] = False" and "tiedCandidates [a_line, b_line] = [a_line]"
    and "winner [a_line, b_line] = Some a_line"
    and "tie [a_line] = False" and "tiedCandidates [a_line] = [a_line]"
    and "winner [a_line] = Some a_line"
  by (simp_all add: tie_def tiedCandidates_def topVotes_def winner_def a_line_def b_line_def)

text \<open>
  Claim C2. Called by an administrator for an election whose ledger count of
  \<open>has_voted\<close> rows differs from the number of its ballots in the vault, the tally
  answers the consistency error carrying both counts and leaves the whole database, the
  result store included, as it was. The answer is the same for every cipher: no ballot is
  decrypted on this path.
\<close>

theorem consistency_guard:
  assumes "u_type u = ''admin''"
    and "countVoted electionId s \<noteq> length (ballots_of electionId s)"
  shows "runTally decryptVote env u electionId s =
     (ConsistencyError (countVoted electionId s) (length (ballots_of electionId s)), s)"
  using assms by (simp add: runTally_def Let_def)

theorem consistency_guard_witness:
  "u_type sample_admin = ''admin''
   \<and> countVoted 1 mismatch_db = 5 \<and> length (ballots_of 1 mismatch_db) = 4
   \<and> runTally sample_decryptVote quiet_env sample_admin 1 mismatch_db =
       (ConsistencyError 5 4, mismatch_db)"
proof -
  have c: "countVoted 1 mismatch_db = 5"
    by (simp add: countVoted_def mismatch_db_def sample_db_defs)
  have b: "length (ballots_of 1 mismatch_db) = 4"
    by (simp add: ballots_of_def mismatch_db_def sample_db_defs)
  have ne: "countVoted 1 mismatch_db \<noteq> length (ballots_of 1 mismatch_db)"
    unfolding c b by simp
  from consistency_guard [OF sample_admin_type ne, of sample_decryptVote quiet_env]
  show ?thesis using c b sample_admin_type by simp
qed

text \<open>
  Claim C6 as stated fails: with two ballots for A and a third that does not decrypt, the
  tally reports two decrypted ballots and one failure, and gives A two votes and
  \<open>66.67\<close> per cent; two votes out of the two decrypted ballots would be \<open>100.00\<close>.
\<close>

theorem percentage_counterexample:
  "fst (runTally sample_decryptVote quiet_env sample_admin 1 (voted3_db aa_bad_ballots)) =
     TallyOk \<lparr>tr_totalVotes = 3, tr_decryptedVotes = 2, tr_failedDecryptions = 1,
              tr_mysqlVotes = 3, tr_mongoVotes = 3, tr_results = [a_line], tr_tie = False,
              tr_tiedCandidates = [a_line], tr_winner = Some a_line\<rparr>
   \<and> votes a_line = 2 \<and> percentage a_line = ''66.67''
   \<and> percentage_of (votes a_line) 2 = ''100.00''"
proof -
  have ok: "countVoted 1 (voted3_db aa_bad_ballots) = length (ballots_of 1 (voted3_db aa_bad_ballots))"
    unfolding aa_bad_facts by simp
  have p: "percentage_of 2 2 = ''100.00''"
    by (rule sample_percentages)
  have run: "fst (runTally sample_decryptVote quiet_env sample_admin 1 (voted3_db aa_bad_ballots)) =
     TallyOk \<lparr>tr_totalVotes = 3, tr_decryptedVotes = 2, tr_failedDecryptions = 1,
              tr_mysqlVotes = 3, tr_mongoVotes = 3, tr_results = [a_line], tr_tie = False,
              tr_tiedCandidates = [a_line], tr_winner = Some a_line\<rparr>"
    unfolding runTally_consistent [OF sample_admin_type ok] aa_bad_facts aa_bad_tally a_line_wins
    by simp
  from run p show ?thesis by (simp add: a_line_def)
qed

text \<open>
  Claim C6, amended. The percentage of a line is its votes divided by the number of
  ballots found in the vault for the election (\<open>totalVotes\<close>, which is the decrypted
  ballots plus those that failed to decrypt), times 100, as \<open>toFixed(2)\<close> prints the
  double \<open>(votes / totalVotes) * 100\<close>; the votes of a line are the ballots that decrypt
  to its candidate, at least one and at most \<open>totalVotes\<close>. The hundredths printed are
  within \<open>1 / 2 + 2 ^ - 37\<close> of the exact \<open>10000 * votes / totalVotes\<close>, and within
  \<open>1 / 2\<close> of it when there are fewer than \<open>2 ^ 36\<close> ballots: the percentage is then
  the exact percentage rounded to a nearest hundredth, where an exact tie can go either
  way (23 votes of 160 are 14.375 per cent and print as \<open>14.37\<close>). This agrees with the
  claim when every ballot decrypts: ballots A, A, B give \<open>66.67\<close> and \<open>33.33\<close>.
\<close>

theorem percentage_over_all_ballots:
  assumes "u_type u = ''admin''"
    and "countVoted electionId s = length (ballots_of electionId s)"
  shows "\<exists>rep. fst (runTally decryptVote env u electionId s) = TallyOk rep
     \<and> tr_totalVotes rep = length (ballots_of electionId s)
     \<and> tr_decryptedVotes rep = decryptable decryptVote electionId (ballots_of electionId s)
     \<and> tr_totalVotes rep = tr_decryptedVotes rep + tr_failedDecryptions rep
     \<and> (\<forall>r \<in> set (tr_results rep).
          votes r = count_for decryptVote electionId (ballots_of electionId s) (candidateId r)
          \<and> 0 < votes r \<and> votes r \<le> tr_totalVotes rep
          \<and> percentage r = toFixed2 (js_times (js_divide (votes r) (tr_totalVotes rep)) 100)
          \<and> \<bar>real (hundredths (js_times (js_divide (votes r) (tr_totalVotes rep)) 100))
               - 10000 * real (votes r) / real (tr_totalVotes rep)\<bar> \<le> 1 / 2 + 1 / 2 ^ 37
          \<and> (tr_totalVotes rep < 2 ^ 36 \<longrightarrow>
               \<bar>real (hundredths (js_times (js_divide (votes r) (tr_totalVotes rep)) 100))
                 - 10000 * real (votes r) / real (tr_totalVotes rep)\<bar> \<le> 1 / 2))"
proof -
  let ?bs = "ballots_of electionId s"
  let ?rs = "tally_results decryptVote (candidates_of electionId s) electionId ?bs"
  have le: "decryptable decryptVote electionId ?bs \<le> length ?bs"
    by (rule decryptable_le)
  have lines: "\<forall>r \<in> set ?rs.
      votes r = count_for decryptVote electionId ?bs (candidateId r)
      \<and> 0 < votes r \<and> votes r \<le> length ?bs
      \<and> percentage r = toFixed2 (js_times (js_divide (votes r) (length ?bs)) 100)
      \<and> \<bar>real (hundredths (js_times (js_divide (votes r) (length ?bs)) 100))
           - 10000 * real (votes r) / real (length ?bs)\<bar> \<le> 1 / 2 + 1 / 2 ^ 37
      \<and> (length ?bs < 2 ^ 36 \<longrightarrow>
           \<bar>real (hundredths (js_times (js_divide (votes r) (length ?bs)) 100))
             - 10000 * real (votes r) / real (length ?bs)\<bar> \<le> 1 / 2)"
  proof
    fix r assume "r \<in> set ?rs"
    from tally_results_member [OF this]
    have v: "votes r = count_for decryptVote electionId ?bs (candidateId r)"
      and pos: "0 < votes r"
      and pc: "percentage r = percentage_of (votes r) (length ?bs)"
      by simp_all
    from v have bound: "votes r \<le> length ?bs" by (simp add: count_for_def)
    with pos have "length ?bs \<noteq> 0" by linarith
    with pc have "percentage r = toFixed2 (js_times (js_divide (votes r) (length ?bs)) 100)"
      by (simp add: percentage_of_def)
    with v pos bound percentage_error [OF pos bound] percentage_nearest [OF pos bound]
    show "votes r = count_for decryptVote electionId ?bs (candidateId r)
      \<and> 0 < votes r \<and> votes r \<le> length ?bs
      \<and> percentage r = toFixed2 (js_times (js_divide (votes r) (length ?bs)) 100)
      \<and> \<bar>real (hundredths (js_times (js_divide (votes r) (length ?bs)) 100))
           - 10000 * real (votes r) / real (length ?bs)\<bar> \<le> 1 / 2 + 1 / 2 ^ 37
      \<and> (length ?bs < 2 ^ 36 \<longrightarrow>
           \<bar>real (hundredths (js_times (js_divide (votes r) (length ?bs)) 100))
             - 10000 * real (votes r) / real (length ?bs)\<bar> \<le> 1 / 2)"
      by blast
  qed
  let ?rep = "\<lparr>tr_totalVotes = length ?bs,
               tr_decryptedVotes = decryptable decryptVote electionId ?bs,
               tr_failedDecryptions = length ?bs - decryptable decryptVote electionId ?bs,
               tr_mysqlVotes = countVoted electionId s, tr_mongoVotes = length ?bs,
               tr_results = ?rs, tr_tie = tie ?rs, tr_tiedCandidates = tiedCandidates ?rs,
               tr_winner = winner ?rs\<rparr>"
  have run: "fst (runTally decryptVote env u electionId s) = TallyOk ?rep"
    by (simp add: runTally_consistent [OF assms])
  have t: "tr_totalVotes ?rep = length ?bs" by simp
  have d: "tr_decryptedVotes ?rep = decryptable decryptVote electionId ?bs" by simp
  have sum: "tr_totalVotes ?rep = tr_decryptedVotes ?rep + tr_failedDecryptions ?rep"
    using le by simp
  have res: "tr_results ?rep = ?rs" by simp
  have lines': "\<forall>r \<in> set (tr_results ?rep).
      votes r = count_for decryptVote electionId ?bs (candidateId r)
      \<and> 0 < votes r \<and> votes r \<le> tr_totalVotes ?rep
      \<and> percentage r = toFixed2 (js_times (js_divide (votes r) (tr_totalVotes ?rep)) 100)
      \<and> \<bar>real (hundredths (js_times (js_divide (votes r) (tr_totalVotes ?rep)) 100))
           - 10000 * real (votes r) / real (tr_totalVotes ?rep)\<bar> \<le> 1 / 2 + 1 / 2 ^ 37
      \<and> (tr_totalVotes ?rep < 2 ^ 36 \<longrightarrow>
           \<bar>real (hundredths (js_times (js_divide (votes r) (tr_totalVotes ?rep)) 100))
             - 10000 * real (votes r) / real (tr_totalVotes ?rep)\<bar> \<le> 1 / 2)"
    using lines by (simp only: res t)
  show ?thesis
    by (rule exI [of _ ?rep]) (intro conjI run t d sum lines')
qed

theorem percentage_over_all_ballots_witness:
  "u_type sample_admin = ''admin''
   \<and> countVoted 1 (voted3_db aab_ballots) = length (ballots_of 1 (voted3_db aab_ballots))
   \<and> fst (runTally sample_decryptVote quiet_env sample_admin 1 (voted3_db aab_ballots)) =
       TallyOk \<lparr>tr_totalVotes = 3, tr_decryptedVotes = 3, tr_failedDecryptions = 0,
                tr_mysqlVotes = 3, tr_mongoVotes = 3, tr_results = [a_line, b_line],
                tr_tie = False, tr_tiedCandidates = [a_line], tr_winner = Some a_line\<rparr>
   \<and> map percentage [a_line, b_line] = [''66.67'', ''33.33'']
   \<and> (\<exists>rep. fst (runTally sample_decryptVote quiet_env sample_admin 1 (voted3_db aab_ballots))
          = TallyOk rep
        \<and> tr_totalVotes rep = 3
        \<and> list_all (\<lambda>r. percentage r = toFixed2 (js_times (js_divide (votes r) 3) 100)
                         \<and> \<bar>real (hundredths (js_times (js_divide (votes r) 3) 100))
                              - 10000 * real (votes r) / 3\<bar> \<le> 1 / 2)
            (tr_results rep))
   \<and> toFixed2 (js_times (js_divide 23 160) 100) = ''14.37''"
proof -
  have ok: "countVoted 1 (voted3_db aab_ballots) = length (ballots_of 1 (voted3_db aab_ballots))"
    unfolding aab_facts by simp
  have run: "fst (runTally sample_decryptVote quiet_env sample_admin 1 (voted3_db aab_ballots)) =
       TallyOk \<lparr>tr_totalVotes = 3, tr_decryptedVotes = 3, tr_failedDecryptions = 0,
                tr_mysqlVotes = 3, tr_mongoVotes = 3, tr_results = [a_line, b_line],
                tr_tie = False, tr_tiedCandidates = [a_line], tr_winner = Some a_line\<rparr>"
    unfolding runTally_consistent [OF sample_admin_type ok] aab_facts aab_tally a_line_wins
    by simp
  have pc: "map percentage [a_line, b_line] = [''66.67'', ''33.33'']"
    by (simp add: a_line_def b_line_def)
  from percentage_over_all_ballots [OF sample_admin_type ok, of sample_decryptVote quiet_env]
  obtain rep where rep: "fst (runTally sample_decryptVote quiet_env sample_admin 1
        (voted3_db aab_ballots)) = TallyOk rep"
    and tot: "tr_totalVotes rep = length (ballots_of 1 (voted3_db aab_ballots))"
    and lines: "\<forall>r \<in> set (tr_results rep).
        percentage r = toFixed2 (js_times (js_divide (votes r) (tr_totalVotes rep)) 100)
        \<and> (tr_totalVotes rep < 2 ^ 36 \<longrightarrow>
             \<bar>real (hundredths (js_times (js_divide (votes r) (tr_totalVotes rep)) 100))
               - 10000 * real (votes r) / real (tr_totalVotes rep)\<bar> \<le> 1 / 2)"
    by blast
  have tot3: "tr_totalVotes rep = 3" using tot unfolding aab_facts .
  have small: "(3::nat) < 2 ^ 36" by simp
  from lines small have "\<forall>r \<in> set (tr_results rep).
        percentage r = toFixed2 (js_times (js_divide (votes r) 3) 100)
        \<and> \<bar>real (hundredths (js_times (js_divide (votes r) 3) 100))
               - 10000 * real (votes r) / real 3\<bar> \<le> 1 / 2"
    unfolding tot3 by blast
  then have "list_all (\<lambda>r. percentage r = toFixed2 (js_times (js_divide (votes r) 3) 100)
                         \<and> \<bar>real (hundredths (js_times (js_divide (votes r) 3) 100))
                              - 10000 * real (votes r) / 3\<bar> \<le> 1 / 2)
            (tr_results rep)"
    by (simp add: list_all_iff)
  with rep tot3
  have inst: "\<exists>rep. fst (runTally sample_decryptVote quiet_env sample_admin 1 (voted3_db aab_ballots))
          = TallyOk rep
        \<and> tr_totalVotes rep = 3
        \<and> list_all (\<lambda>r. percentage r = toFixed2 (js_times (js_divide (votes r) 3) 100)
                         \<and> \<bar>real (hundredths (js_times (js_divide (votes r) 3) 100))
                              - 10000 * real (votes r) / 3\<bar> \<le> 1 / 2)
            (tr_results rep)"
    by blast
  have tie_case: "toFixed2 (js_times (js_divide 23 160) 100) = ''14.37''"
    using sample_percentages(6) by (simp add: percentage_of_def)
  from sample_admin_type ok run pc inst tie_case show ?thesis by blast
qed

text \<open>
  Claim C10. When the tally passes the consistency guard, it answers success with the
  results, the tie status and the winner whatever the persistence block meets: the
  response is the one of a run whose statements all succeed. The upsert takes no effect
  when \<open>CREATE TABLE\<close> fails, when the upsert fails with a message that is not a
  missing-column one, or when the replay after the migration fails; the database is then
  unchanged. If the election had no snapshot, reading the results afterwards answers that
  none is available.
\<close>

theorem persistence_failure_swallowed:
  assumes "u_type u = ''admin''"
    and "countVoted electionId s = length (ballots_of electionId s)"
  shows "fst (runTally decryptVote env u electionId s) =
       fst (runTally decryptVote
             (env\<lparr>te_create_table_error := None, te_upsert_error := None\<rparr>) u electionId s)
   \<and> (\<exists>rep. fst (runTally decryptVote env u electionId s) = TallyOk rep
        \<and> tr_results rep =
            tally_results decryptVote (candidates_of electionId s) electionId
              (ballots_of electionId s)
        \<and> tr_tie rep = tie (tr_results rep)
        \<and> tr_tiedCandidates rep = tiedCandidates (tr_results rep)
        \<and> tr_winner rep = winner (tr_results rep))
   \<and> (\<not> upsert_takes_effect env) =
       (te_create_table_error env \<noteq> None
        \<or> (\<exists>m. te_upsert_error env = Some m
              \<and> (missing_column_error m \<longrightarrow> te_retry_error env \<noteq> None)))
   \<and> (\<not> upsert_takes_effect env \<longrightarrow> snd (runTally decryptVote env u electionId s) = s)
   \<and> (\<not> upsert_takes_effect env \<longrightarrow> snapshot_rows electionId s = [] \<longrightarrow>
        (u_type v = ''admin'' \<and> u_institution_id v \<noteq> 0 \<longrightarrow>
           assertAdminCanAccessElection v electionId s = AccessOk) \<longrightarrow>
        getResults v electionId (snd (runTally decryptVote env u electionId s)) = NoResults)"
proof -
  have a: "fst (runTally decryptVote env u electionId s) =
       fst (runTally decryptVote
             (env\<lparr>te_create_table_error := None, te_upsert_error := None\<rparr>) u electionId s)"
    by (simp add: runTally_consistent [OF assms])
  have b: "\<exists>rep. fst (runTally decryptVote env u electionId s) = TallyOk rep
        \<and> tr_results rep =
            tally_results decryptVote (candidates_of electionId s) electionId
              (ballots_of electionId s)
        \<and> tr_tie rep = tie (tr_results rep)
        \<and> tr_tiedCandidates rep = tiedCandidates (tr_results rep)
        \<and> tr_winner rep = winner (tr_results rep)"
    by (simp add: runTally_consistent [OF assms])
  have c: "(\<not> upsert_takes_effect env) =
       (te_create_table_error env \<noteq> None
        \<or> (\<exists>m. te_upsert_error env = Some m
              \<and> (missing_column_error m \<longrightarrow> te_retry_error env \<noteq> None)))"
    by (auto simp: upsert_takes_effect_def split: option.splits)
  have d: "\<not> upsert_takes_effect env \<longrightarrow> snd (runTally decryptVote env u electionId s) = s"
    by (simp add: runTally_consistent [OF assms] persist_results_def)
  have e: "\<not> upsert_takes_effect env \<longrightarrow> snapshot_rows electionId s = [] \<longrightarrow>
        (u_type v = ''admin'' \<and> u_institution_id v \<noteq> 0 \<longrightarrow>
           assertAdminCanAccessElection v electionId s = AccessOk) \<longrightarrow>
        getResults v electionId (snd (runTally decryptVote env u electionId s)) = NoResults"
    using d by (auto simp: getResults_def)
  from a b c d e show ?thesis by blast
qed

theorem persistence_failure_swallowed_witness:
  "u_type sample_admin = ''admin''
   \<and> countVoted 1 (voted3_db aab_ballots) = length (ballots_of 1 (voted3_db aab_ballots))
   \<and> te_upsert_error failing_env = Some ''Connection lost''
   \<and> \<not> upsert_takes_effect failing_env
   \<and> runTally sample_decryptVote failing_env sample_admin 1 (voted3_db aab_ballots) =
       (TallyOk \<lparr>tr_totalVotes = 3, tr_decryptedVotes = 3, tr_failedDecryptions = 0,
                 tr_mysqlVotes = 3, tr_mongoVotes = 3, tr_results = [a_line, b_line],
                 tr_tie = False, tr_tiedCandidates = [a_line], tr_winner = Some a_line\<rparr>,
        voted3_db aab_ballots)
   \<and> getResults sample_admin 1
       (snd (runTally sample_decryptVote failing_env sample_admin 1 (voted3_db aab_ballots))) =
       NoResults"
proof -
  have ok: "countVoted 1 (voted3_db aab_ballots) = length (ballots_of 1 (voted3_db aab_ballots))"
    unfolding aab_facts by simp
  have msg: "te_upsert_error failing_env = Some ''Connection lost''"
    by (simp add: failing_env_def quiet_env_def)
  have "\<not> missing_column_error ''Connection lost''"
    by (simp add: missing_column_error_def toLowerCase_def lower_char_def)
  then have fails: "\<not> upsert_takes_effect failing_env"
    by (simp add: upsert_takes_effect_def failing_env_def quiet_env_def)
  have none: "snapshot_rows 1 (voted3_db aab_ballots) = []"
    by (rule aab_facts)
  have scope: "assertAdminCanAccessElection sample_admin 1 (voted3_db aab_ballots) = AccessOk"
    by (simp add: assertAdminCanAccessElection_def sample_admin_def sample_db_defs)
  note inst = persistence_failure_swallowed
    [OF sample_admin_type ok, of sample_decryptVote failing_env sample_admin]
  have unchanged: "snd (runTally sample_decryptVote failing_env sample_admin 1
      (voted3_db aab_ballots)) = voted3_db aab_ballots"
    using inst fails by blast
  have nores: "getResults sample_admin 1
       (snd (runTally sample_decryptVote failing_env sample_admin 1 (voted3_db aab_ballots))) =
       NoResults"
    using inst fails none scope by blast
  have resp: "fst (runTally sample_decryptVote failing_env sample_admin 1 (voted3_db aab_ballots)) =
       TallyOk \<lparr>tr_totalVotes = 3, tr_decryptedVotes = 3, tr_failedDecryptions = 0,
                 tr_mysqlVotes = 3, tr_mongoVotes = 3, tr_results = [a_line, b_line],
                 tr_tie = False, tr_tiedCandidates = [a_line], tr_winner = Some a_line\<rparr>"
    unfolding runTally_consistent [OF sample_admin_type ok] aab_facts aab_tally a_line_wins
    by simp
  have run: "runTally sample_decryptVote failing_env sample_admin 1 (voted3_db aab_ballots) =
       (TallyOk \<lparr>tr_totalVotes = 3, tr_decryptedVotes = 3, tr_failedDecryptions = 0,
                 tr_mysqlVotes = 3, tr_mongoVotes = 3, tr_results = [a_line, b_line],
                 tr_tie = False, tr_tiedCandidates = [a_line], tr_winner = Some a_line\<rparr>,
        voted3_db aab_ballots)"
    using resp unchanged by (simp add: prod_eq_iff)
  from sample_admin_type ok msg fails run nores show ?thesis by blast
qed

section \<open>Proclamation\<close>

lemma on_update_alt:
  "on_update now old new =
     new\<lparr>updated_at := (if new = old then updated_at new else now)\<rparr>"
  by (simp add: on_update_def)

lemma snapshot_content_on_update:
  "snapshot_content (on_update now old new) = snapshot_content new"
  by (simp add: on_update_alt snapshot_content_def)

lemma update_results_content:
  assumes "\<And>r. snapshot_content (f r) = snapshot_content r"
  shows "map snapshot_content (update_results now e f rows) = map snapshot_content rows"
  using assms by (induction rows) (simp_all add: update_results_def snapshot_content_on_update)

lemma update_results_others:
  "filter (\<lambda>r. er_election_id r \<noteq> e) (update_results now e f rows) =
   filter (\<lambda>r. er_election_id r \<noteq> e) rows"
  if "\<And>r. er_election_id (f r) = er_election_id r"
  using that by (induction rows) (simp_all add: update_results_def on_update_alt)

lemma update_results_rows:
  "filter (\<lambda>r. er_election_id r = e) (update_results now e f rows) =
   map (\<lambda>r. on_update now r (f r)) (filter (\<lambda>r. er_election_id r = e) rows)"
  if "\<And>r. er_election_id (f r) = er_election_id r"
  using that by (induction rows) (simp_all add: update_results_def on_update_alt)

lemma winner_view_content:
  "snapshot_content a = snapshot_content b \<Longrightarrow> winner_view a = winner_view b"
  by (auto simp: snapshot_content_def winner_view_def split: option.splits)

lemma snapshot_rows_update:
  "snapshot_rows e (s\<lparr>election_results := update_results now e f (election_results s)\<rparr>) =
   map (\<lambda>r. on_update now r (f r)) (snapshot_rows e s)"
  if "\<And>r. er_election_id (f r) = er_election_id r"
  using that by (simp add: snapshot_rows_def update_results_rows)

text \<open>The route in normal form: three refusals, or the update of the rows of the election.\<close>

lemma proclaim_cases:
  "proclaim now u e s =
     (if u_type u \<noteq> ''admin'' then (ProclaimForbidden, s)
      else if assertAdminCanAccessElection u e s \<noteq> AccessOk
        then (ProclaimRefused (assertAdminCanAccessElection u e s), s)
      else if snapshot_rows e s = [] then (NothingToProclaim, s)
      else (Proclaimed True (Some now) (winner_view (hd (snapshot_rows e s))),
            s\<lparr>election_results :=
                update_results now e (\<lambda>r. r\<lparr>proclaimed := True, proclaimed_at := Some now\<rparr>)
                  (election_results s)\<rparr>))"
proof (cases "snapshot_rows e s")
  case Nil
  then show ?thesis by (simp add: proclaim_def Let_def)
next
  case (Cons r rest)
  let ?f = "\<lambda>r. r\<lparr>proclaimed := True, proclaimed_at := Some now\<rparr>"
  let ?s' = "s\<lparr>election_results := update_results now e ?f (election_results s)\<rparr>"
  have rows': "snapshot_rows e ?s' = map (\<lambda>r. on_update now r (?f r)) (r # rest)"
    using Cons by (simp add: snapshot_rows_update)
  have "snapshot_content (?f r) = snapshot_content r"
    by (simp add: snapshot_content_def)
  then have view: "winner_view (on_update now r (?f r)) = winner_view r"
    by (intro winner_view_content) (simp only: snapshot_content_on_update)
  have flags: "proclaimed (on_update now r (?f r)) = True"
    "proclaimed_at (on_update now r (?f r)) = Some now"
    by (simp_all add: on_update_alt)
  show ?thesis
    using Cons rows' view flags by (simp add: proclaim_def Let_def)
qed

lemma access_ignores_results:
  "assertAdminCanAccessElection u e (s\<lparr>election_results := rows\<rparr>) =
   assertAdminCanAccessElection u e s"
  by (simp add: assertAdminCanAccessElection_def)

lemma proclaim_twice_same_clock:
  "update_results now e (\<lambda>r. r\<lparr>proclaimed := True, proclaimed_at := Some now\<rparr>)
     (update_results now e (\<lambda>r. r\<lparr>proclaimed := True, proclaimed_at := Some now\<rparr>) rows) =
   update_results now e (\<lambda>r. r\<lparr>proclaimed := True, proclaimed_at := Some now\<rparr>) rows"
  by (induction rows) (simp_all add: update_results_def on_update_def)

lemma proclaim_flags:
  "map proclaimed
     (update_results now2 e (\<lambda>r. r\<lparr>proclaimed := True, proclaimed_at := Some now2\<rparr>)
       (update_results now e (\<lambda>r. r\<lparr>proclaimed := True, proclaimed_at := Some now\<rparr>) rows)) =
   map proclaimed
     (update_results now e (\<lambda>r. r\<lparr>proclaimed := True, proclaimed_at := Some now\<rparr>) rows)"
  by (induction rows) (simp_all add: update_results_def on_update_alt)

text \<open>
  Claim C9. Without a snapshot of the election the proclamation fails and changes
  nothing. In every case it leaves the other tables, the snapshots of other elections
  and, in each snapshot, the election, the total, the results payload and the winner
  as they were; when it succeeds, the snapshot is flagged proclaimed at the time of the
  call and the response names the unchanged winner. A second call succeeds exactly when
  the first did, and leaves the content and the flag of every snapshot as the first call
  left them; with the same clock value the database is the same after one call and
  after two (\<open>proclaimed_at\<close> is otherwise the time of the later call).
\<close>

theorem proclaim_frame:
  "(snapshot_rows electionId s = [] \<longrightarrow>
      \<not> is_proclaimed (fst (proclaim now u electionId s))
      \<and> snd (proclaim now u electionId s) = s)
   \<and> map snapshot_content (election_results (snd (proclaim now u electionId s))) =
       map snapshot_content (election_results s)
   \<and> snd (proclaim now u electionId s) =
       s\<lparr>election_results := election_results (snd (proclaim now u electionId s))\<rparr>
   \<and> filter (\<lambda>r. er_election_id r \<noteq> electionId)
         (election_results (snd (proclaim now u electionId s))) =
       filter (\<lambda>r. er_election_id r \<noteq> electionId) (election_results s)
   \<and> (is_proclaimed (fst (proclaim now u electionId s)) \<longrightarrow>
        snapshot_rows electionId s \<noteq> []
        \<and> fst (proclaim now u electionId s) =
            Proclaimed True (Some now) (winner_view (hd (snapshot_rows electionId s)))
        \<and> list_all (\<lambda>r. proclaimed r \<and> proclaimed_at r = Some now)
            (snapshot_rows electionId (snd (proclaim now u electionId s))))
   \<and> is_proclaimed (fst (proclaim now2 u electionId (snd (proclaim now u electionId s)))) =
       is_proclaimed (fst (proclaim now u electionId s))
   \<and> map snapshot_content
         (election_results (snd (proclaim now2 u electionId (snd (proclaim now u electionId s))))) =
       map snapshot_content (election_results (snd (proclaim now u electionId s)))
   \<and> map proclaimed
         (election_results (snd (proclaim now2 u electionId (snd (proclaim now u electionId s))))) =
       map proclaimed (election_results (snd (proclaim now u electionId s)))
   \<and> snd (proclaim now u electionId (snd (proclaim now u electionId s))) =
       snd (proclaim now u electionId s)"
proof -
  let ?f = "\<lambda>t r. r\<lparr>proclaimed := True, proclaimed_at := Some t\<rparr>"
  have content: "\<And>t rows. map snapshot_content (update_results t electionId (?f t) rows) =
      map snapshot_content rows"
    by (rule update_results_content) (simp add: snapshot_content_def)
  have others: "\<And>t rows. filter (\<lambda>r. er_election_id r \<noteq> electionId)
      (update_results t electionId (?f t) rows) =
      filter (\<lambda>r. er_election_id r \<noteq> electionId) rows"
    by (rule update_results_others) simp
  have rows: "\<And>t s. snapshot_rows electionId
      (s\<lparr>election_results := update_results t electionId (?f t) (election_results s)\<rparr>) =
      map (\<lambda>r. on_update t r (?f t r)) (snapshot_rows electionId s)"
    by (rule snapshot_rows_update) simp
  have a: "snapshot_rows electionId s = [] \<longrightarrow>
      \<not> is_proclaimed (fst (proclaim now u electionId s))
      \<and> snd (proclaim now u electionId s) = s"
    by (simp add: proclaim_cases)
  have b: "map snapshot_content (election_results (snd (proclaim now u electionId s))) =
       map snapshot_content (election_results s)"
    by (simp add: proclaim_cases content)
  have c: "snd (proclaim now u electionId s) =
       s\<lparr>election_results := election_results (snd (proclaim now u electionId s))\<rparr>"
    by (simp add: proclaim_cases)
  have d: "filter (\<lambda>r. er_election_id r \<noteq> electionId)
         (election_results (snd (proclaim now u electionId s))) =
       filter (\<lambda>r. er_election_id r \<noteq> electionId) (election_results s)"
    by (simp add: proclaim_cases others)
  have e: "is_proclaimed (fst (proclaim now u electionId s)) \<longrightarrow>
        snapshot_rows electionId s \<noteq> []
        \<and> fst (proclaim now u electionId s) =
            Proclaimed True (Some now) (winner_view (hd (snapshot_rows electionId s)))
        \<and> list_all (\<lambda>r. proclaimed r \<and> proclaimed_at r = Some now)
            (snapshot_rows electionId (snd (proclaim now u electionId s)))"
    by (simp add: proclaim_cases rows list_all_iff on_update_alt)
  have f: "is_proclaimed (fst (proclaim now2 u electionId (snd (proclaim now u electionId s)))) =
       is_proclaimed (fst (proclaim now u electionId s))"
    by (simp add: proclaim_cases [of now2] proclaim_cases [of now u electionId s]
        access_ignores_results rows)
  have g: "map snapshot_content
         (election_results (snd (proclaim now2 u electionId (snd (proclaim now u electionId s))))) =
       map snapshot_content (election_results (snd (proclaim now u electionId s)))"
    by (simp add: proclaim_cases [of now2] content)
  have h: "map proclaimed
         (election_results (snd (proclaim now2 u electionId (snd (proclaim now u electionId s))))) =
       map proclaimed (election_results (snd (proclaim now u electionId s)))"
    by (simp add: proclaim_cases [of now2] proclaim_cases [of now u electionId s]
        access_ignores_results rows proclaim_flags)
  have i: "snd (proclaim now u electionId (snd (proclaim now u electionId s))) =
       snd (proclaim now u electionId s)"
    by (simp add: proclaim_cases [of now] access_ignores_results rows
        proclaim_twice_same_clock)
  from a b c d e f g h i show ?thesis by blast
qed

lemma counted_db_facts:
  shows "snapshot_rows 1 counted_db = [untied_snapshot]"
    and "election_results counted_db = [untied_snapshot]"
    and "assertAdminCanAccessElection sample_admin 1 counted_db = AccessOk"
  by (simp_all add: snapshot_rows_def counted_db_def voted3_db_def open_db_def
      untied_snapshot_def assertAdminCanAccessElection_def sample_admin_def
      sample_election_def)

lemma open_db_facts:
  shows "snapshot_rows 1 open_db = []"
    and "assertAdminCanAccessElection sample_admin 1 open_db = AccessOk"
  by (simp_all add: snapshot_rows_def open_db_def assertAdminCanAccessElection_def
      sample_admin_def sample_election_def)

theorem proclaim_frame_witness:
  "snapshot_rows 1 open_db = []
   \<and> proclaim 50 sample_admin 1 open_db = (NothingToProclaim, open_db)
   \<and> snapshot_rows 1 counted_db = [untied_snapshot]
   \<and> fst (proclaim 50 sample_admin 1 counted_db) = Proclaimed True (Some 50) (Some (1, Some ''A''))
   \<and> election_results (snd (proclaim 50 sample_admin 1 counted_db)) =
       [untied_snapshot\<lparr>proclaimed := True, proclaimed_at := Some 50, updated_at := 50\<rparr>]
   \<and> map snapshot_content
        (election_results (snd (proclaim 60 sample_admin 1 (snd (proclaim 50 sample_admin 1 counted_db))))) =
       [snapshot_content untied_snapshot]
   \<and> snd (proclaim 50 sample_admin 1 (snd (proclaim 50 sample_admin 1 counted_db))) =
       snd (proclaim 50 sample_admin 1 counted_db)"
proof -
  note open1 = proclaim_frame [of 1 open_db 50 sample_admin 60]
  note cnt = proclaim_frame [of 1 counted_db 50 sample_admin 60]
  have "fst (proclaim 50 sample_admin 1 open_db) = NothingToProclaim"
    unfolding proclaim_cases open_db_facts by (simp add: sample_admin_type)
  moreover have "snd (proclaim 50 sample_admin 1 open_db) = open_db"
    using open1 open_db_facts(1) by blast
  ultimately have o1: "proclaim 50 sample_admin 1 open_db = (NothingToProclaim, open_db)"
    by (simp add: prod_eq_iff)
  have ok: "is_proclaimed (fst (proclaim 50 sample_admin 1 counted_db))"
    unfolding proclaim_cases counted_db_facts by (simp add: sample_admin_type)
  have "fst (proclaim 50 sample_admin 1 counted_db) =
      Proclaimed True (Some 50) (winner_view (hd (snapshot_rows 1 counted_db)))"
    using cnt ok by blast
  then have r1: "fst (proclaim 50 sample_admin 1 counted_db) =
      Proclaimed True (Some 50) (Some (1, Some ''A''))"
    unfolding counted_db_facts by (simp add: winner_view_def untied_snapshot_def)
  have r2: "election_results (snd (proclaim 50 sample_admin 1 counted_db)) =
       [untied_snapshot\<lparr>proclaimed := True, proclaimed_at := Some 50, updated_at := 50\<rparr>]"
    unfolding proclaim_cases counted_db_facts
    by (simp add: sample_admin_type update_results_def on_update_def)
       (simp add: untied_snapshot_def)
  have "map snapshot_content
        (election_results (snd (proclaim 60 sample_admin 1 (snd (proclaim 50 sample_admin 1 counted_db))))) =
       map snapshot_content (election_results counted_db)"
    using cnt by metis
  then have r3: "map snapshot_content
        (election_results (snd (proclaim 60 sample_admin 1 (snd (proclaim 50 sample_admin 1 counted_db))))) =
       [snapshot_content untied_snapshot]"
    unfolding counted_db_facts by simp
  have r4: "snd (proclaim 50 sample_admin 1 (snd (proclaim 50 sample_admin 1 counted_db))) =
       snd (proclaim 50 sample_admin 1 counted_db)"
    using cnt by blast
  from open_db_facts(1) o1 counted_db_facts(1) r1 r2 r3 r4 show ?thesis by blast
qed

section \<open>The tie-break route\<close>



text \<open>
  The handler itself never reads \<open>election_results\<close> before it acts: its answer is the
  same whatever that table holds. Were the body parsed before it (the route registered
  after \<open>express.json()\<close>), a regulatory decision naming C against the sample snapshot,
  which is not a tie and has A as winner, would be carried out. The guarantee of the next
  theorem rests on the order of registration, not on a test in the handler.
\<close>

lemma handler_ignores_snapshot:
  "fst (tieBreak_handler env u e b (s\<lparr>election_results := rows\<rparr>)) =
   fst (tieBreak_handler env u e b s)"
  by (simp add: tieBreak_handler_def second_round_def random_draw_def
      regulatory_decision_def candidate_by_id_def set_winner_def log_decision_def
      candidates_of_def Let_def split: option.splits list.splits)

lemma handler_given_parsed_body:
  "tieBreak_handler decision_env sample_admin 1 (req_body True choose_c) counted_db =
     (DecisionRecorded 3 ''C'',
      counted_db\<lparr>election_results :=
                   [untied_snapshot\<lparr>winner_id := Some 3, winner_name := Some ''C'',
                                    updated_at := 40\<rparr>],
                 election_decisions :=
                   [\<lparr>ed_election_id = 1, ed_decision_type = ''regulatory_decision'',
                     ed_payload = RegulatoryDecision 3 None, ed_decided_by = 100\<rparr>]\<rparr>)"
proof -
  have cand: "candidate_by_id 3 counted_db =
      Some \<lparr>c_id = 3, c_election_id = 1, c_name = ''C'', c_description = [],
            c_order_position = 3\<rparr>"
    by (simp add: candidate_by_id_def counted_db_def voted3_db_def open_db_def
        abc_candidates_def)
  have win: "set_winner 40 1 (Some 3) (Some ''C'') counted_db =
      counted_db\<lparr>election_results :=
                   [untied_snapshot\<lparr>winner_id := Some 3, winner_name := Some ''C'',
                                    updated_at := 40\<rparr>]\<rparr>"
    unfolding set_winner_def counted_db_facts
    by (simp add: update_results_def on_update_def untied_snapshot_def)
  have decs: "election_decisions counted_db = []"
    by (simp add: counted_db_def voted3_db_def open_db_def)
  have "regulatory_decision decision_env sample_admin 1 choose_c counted_db =
     (DecisionRecorded 3 ''C'',
      log_decision 1 ''regulatory_decision'' (RegulatoryDecision 3 None) 100
        (set_winner 40 1 (Some 3) (Some ''C'') counted_db))"
    unfolding regulatory_decision_def Let_def
    by (simp add: choose_c_def cand decision_env_def sample_admin_def note_or_null_def)
  then show ?thesis
    unfolding win by (simp add: tieBreak_handler_def body_or_empty_def req_body_def
        sample_admin_def choose_c_def log_decision_def decs)
qed



section \<open>The vote route: the ledger mark\<close>

lemma eligibility_rows_ballots [simp]:
  "eligibility_rows v e (s\<lparr>ballots := bs\<rparr>) = eligibility_rows v e s"
  by (simp add: eligibility_rows_def)

lemma filter_mark_rows:
  "filter (\<lambda>r. vr_voter_id r = v \<and> vr_election_id r = e)
     (map (\<lambda>r. if vr_voter_id r = v' \<and> vr_election_id r = e'
               then r\<lparr>has_voted := True, voted_at := t\<rparr> else r) rows) =
   map (\<lambda>r. if v = v' \<and> e = e' then r\<lparr>has_voted := True, voted_at := t\<rparr> else r)
     (filter (\<lambda>r. vr_voter_id r = v \<and> vr_election_id r = e) rows)"
  by (induction rows) auto

lemma eligibility_rows_marked:
  "eligibility_rows v e
     (s\<lparr>voting_records :=
          map (\<lambda>r. if vr_voter_id r = v' \<and> vr_election_id r = e'
                    then r\<lparr>has_voted := True, voted_at := t\<rparr> else r) (voting_records s)\<rparr>) =
   map (\<lambda>r. if v = v' \<and> e = e' then r\<lparr>has_voted := True, voted_at := t\<rparr> else r)
     (eligibility_rows v e s)"
  by (simp add: eligibility_rows_def filter_mark_rows)

lemma stages_give_no_receipt:
  shows "check_eligibility v body s \<noteq> Some (Receipt h)"
    and "check_election body s \<noteq> Some (Receipt h)"
    and "prepare_ballot E H env v body s \<noteq> Inl (Receipt h)"
    and "save_ballot b s \<noteq> Inl (Receipt h)"
    and "mark_voted env v e s \<noteq> Inl (Receipt h)"
  by (simp_all add: check_eligibility_def check_election_def prepare_ballot_def
      save_ballot_def mark_voted_def Let_def split: list.splits option.splits)

text \<open>The six ways through the handler.\<close>

lemma submitVote_cases:
  assumes "submitVote E H env v body s = (r, s')"
  shows "check_eligibility v body s = Some r \<and> s' = s
   \<or> check_eligibility v body s = None \<and> check_election body s = Some r \<and> s' = s
   \<or> check_eligibility v body s = None \<and> check_election body s = None
       \<and> prepare_ballot E H env v body s = Inl r \<and> s' = s
   \<or> (\<exists>b. check_eligibility v body s = None \<and> check_election body s = None
       \<and> prepare_ballot E H env v body s = Inr b \<and> save_ballot b s = Inl r \<and> s' = s)
   \<or> (\<exists>b s1. check_eligibility v body s = None \<and> check_election body s = None
       \<and> prepare_ballot E H env v body s = Inr b \<and> save_ballot b s = Inr s1
       \<and> mark_voted env v (vq_electionId body) s1 = Inl r \<and> s' = s1)
   \<or> (\<exists>b s1. check_eligibility v body s = None \<and> check_election body s = None
       \<and> prepare_ballot E H env v body s = Inr b \<and> save_ballot b s = Inr s1
       \<and> mark_voted env v (vq_electionId body) s1 = Inr s' \<and> r = Receipt (b_voteHash b))"
proof (cases "check_eligibility v body s")
  case (Some x)
  with assms show ?thesis by (simp add: submitVote_def)
next
  case elig: None
  show ?thesis
  proof (cases "check_election body s")
    case (Some x)
    with assms elig show ?thesis by (simp add: submitVote_def)
  next
    case elec: None
    show ?thesis
    proof (cases "prepare_ballot E H env v body s")
      case (Inl x)
      with assms elig elec show ?thesis by (simp add: submitVote_def)
    next
      case prep: (Inr b)
      show ?thesis
      proof (cases "save_ballot b s")
        case (Inl x)
        with assms elig elec prep show ?thesis by (simp add: submitVote_def)
      next
        case saved: (Inr s1)
        show ?thesis
        proof (cases "mark_voted env v (vq_electionId body) s1")
          case (Inl x)
          with assms elig elec prep saved show ?thesis by (simp add: submitVote_def)
        next
          case (Inr s2)
          with assms elig elec prep saved show ?thesis by (simp add: submitVote_def)
        qed
      qed
    qed
  qed
qed

lemma save_ballot_cases:
  "save_ballot b s = Inr s1 \<Longrightarrow>
     s1 = s\<lparr>ballots := ballots s @ [b]\<rparr> \<and> b_voteHash b \<notin> b_voteHash ` set (ballots s)"
  by (auto simp: save_ballot_def split: if_splits)

lemma mark_voted_cases:
  "mark_voted env v e s = Inr s2 \<Longrightarrow>
     \<not> ve_update_fails env \<and>
     s2 = s\<lparr>voting_records :=
            map (\<lambda>r. if vr_voter_id r = v \<and> vr_election_id r = e
                      then r\<lparr>has_voted := True, voted_at := Some (ve_now env)\<rparr> else r)
              (voting_records s)\<rparr>"
  by (auto simp: mark_voted_def split: if_splits)

lemma mark_voted_keeps_marked:
  assumes "marked v e s" and "mark_voted env v' e' s = Inr s2"
  shows "marked v e s2"
proof -
  from mark_voted_cases [OF assms(2)] have s2: "s2 = s\<lparr>voting_records :=
            map (\<lambda>r. if vr_voter_id r = v' \<and> vr_election_id r = e'
                      then r\<lparr>has_voted := True, voted_at := Some (ve_now env)\<rparr> else r)
              (voting_records s)\<rparr>"
    by simp
  show ?thesis
    using assms(1) unfolding s2 marked_def eligibility_rows_marked
    by (auto simp: list_all_iff)
qed

lemma mark_voted_marks:
  assumes "eligibility_rows v e s \<noteq> []" and "mark_voted env v e s = Inr s2"
  shows "marked v e s2"
proof -
  from mark_voted_cases [OF assms(2)] have s2: "s2 = s\<lparr>voting_records :=
            map (\<lambda>r. if vr_voter_id r = v \<and> vr_election_id r = e
                      then r\<lparr>has_voted := True, voted_at := Some (ve_now env)\<rparr> else r)
              (voting_records s)\<rparr>"
    by simp
  show ?thesis
    using assms(1) unfolding s2 marked_def eligibility_rows_marked
    by (auto simp: list_all_iff)
qed

lemma check_eligibility_None:
  "check_eligibility v body s = None \<Longrightarrow>
     vq_electionId body \<noteq> 0 \<and> vq_candidateId body \<noteq> 0 \<and>
     eligibility_rows v (vq_electionId body) s \<noteq> []"
  by (auto simp: check_eligibility_def split: if_splits list.splits)

lemma check_eligibility_marked:
  assumes "marked v (vq_electionId body) s"
  shows "check_eligibility v body s =
     Some (if vq_electionId body = 0 \<or> vq_candidateId body = 0 then MissingIds
           else AlreadyVoted)"
proof -
  from assms obtain r rest where rows: "eligibility_rows v (vq_electionId body) s = r # rest"
    by (cases "eligibility_rows v (vq_electionId body) s") (auto simp: marked_def)
  with assms have "has_voted r" by (simp add: marked_def)
  with rows show ?thesis by (simp add: check_eligibility_def)
qed

text \<open>
  A pair that the ledger marks is turned away at the first stage: the cipher, the
  fingerprint and the stores are not reached.
\<close>

lemma submitVote_marked:
  assumes "marked v (vq_electionId body) s"
  shows "submitVote E H env v body s =
     (if vq_electionId body = 0 \<or> vq_candidateId body = 0 then MissingIds else AlreadyVoted, s)"
  by (simp add: submitVote_def check_eligibility_marked [OF assms])

lemma submitVote_keeps_marked:
  assumes "marked v e s"
  shows "marked v e (snd (submitVote E H env v' body s))"
proof -
  obtain r s' where out: "submitVote E H env v' body s = (r, s')"
    by (cases "submitVote E H env v' body s")
  from submitVote_cases [OF out] consider "s' = s"
    | b s1 where "save_ballot b s = Inr s1" "s' = s1"
    | b s1 where "save_ballot b s = Inr s1"
        "mark_voted env v' (vq_electionId body) s1 = Inr s'"
    by blast
  then have "marked v e s'"
  proof cases
    case 1
    with assms show ?thesis by simp
  next
    case 2
    from save_ballot_cases [OF 2(1)] assms 2(2) show ?thesis
      by (simp add: marked_def)
  next
    case 3
    from save_ballot_cases [OF 3(1)] assms have "marked v e s1"
      by (simp add: marked_def)
    from mark_voted_keeps_marked [OF this 3(2)] show ?thesis .
  qed
  with out show ?thesis by simp
qed

text \<open>A receipt means: one ballot appended, and the pair marked.\<close>

lemma submitVote_receipt:
  assumes "submitVote E H env v body s = (Receipt h, s1)"
  shows "marked v (vq_electionId body) s1 \<and> vq_electionId body \<noteq> 0 \<and>
         (\<exists>b. ballots s1 = ballots s @ [b] \<and> b_voteHash b = h \<and>
              h \<notin> b_voteHash ` set (ballots s))"
proof -
  from submitVote_cases [OF assms]
  have "\<exists>b sa. check_eligibility v body s = None \<and> save_ballot b s = Inr sa
      \<and> mark_voted env v (vq_electionId body) sa = Inr s1 \<and> h = b_voteHash b"
    by (auto simp: stages_give_no_receipt)
  then obtain b sa where
    elig: "check_eligibility v body s = None" and
    saved: "save_ballot b s = Inr sa" and
    mark: "mark_voted env v (vq_electionId body) sa = Inr s1" and
    h: "h = b_voteHash b"
    by blast
  from save_ballot_cases [OF saved] have sa: "sa = s\<lparr>ballots := ballots s @ [b]\<rparr>"
    and fresh: "b_voteHash b \<notin> b_voteHash ` set (ballots s)"
    by simp_all
  from check_eligibility_None [OF elig]
  have rows: "eligibility_rows v (vq_electionId body) sa \<noteq> []"
    and nz: "vq_electionId body \<noteq> 0"
    by (simp_all add: sa)
  from mark_voted_marks [OF rows mark] have "marked v (vq_electionId body) s1" .
  moreover from mark_voted_cases [OF mark] have "ballots s1 = ballots s @ [b]"
    by (simp add: sa)
  ultimately show ?thesis using h fresh nz by auto
qed

lemma vote_trace_marked:
  assumes "marked v e s"
  shows "\<forall>ev \<in> set (vote_trace E H calls s).
     vc_voter (ev_call ev) = v \<and> vq_electionId (vc_body (ev_call ev)) = e \<longrightarrow>
       ev_after ev = ev_before ev \<and> \<not> is_receipt (ev_response ev)
       \<and> (e \<noteq> 0 \<and> vq_candidateId (vc_body (ev_call ev)) \<noteq> 0 \<longrightarrow>
            ev_response ev = AlreadyVoted)
       \<and> (\<forall>E' H' env'. submitVote E' H' env' v (vc_body (ev_call ev)) (ev_before ev) =
            (ev_response ev, ev_before ev))"
  using assms
proof (induction calls arbitrary: s)
  case Nil
  then show ?case by simp
next
  case (Cons c calls)
  let ?out = "submitVote E H (vc_env c) (vc_voter c) (vc_body c) s"
  let ?ev0 = "\<lparr>ev_call = c, ev_response = fst ?out, ev_before = s, ev_after = snd ?out\<rparr>"
  have next_marked: "marked v e (snd ?out)"
    by (rule submitVote_keeps_marked [OF Cons.prems])
  note IH = Cons.IH [OF next_marked]
  have unfold: "vote_trace E H (c # calls) s = ?ev0 # vote_trace E H calls (snd ?out)"
    by (simp add: case_prod_beta)
  show ?case
    unfolding unfold
  proof (intro ballI impI)
    fix ev
    assume mem: "ev \<in> set (?ev0 # vote_trace E H calls (snd ?out))"
      and pair: "vc_voter (ev_call ev) = v \<and> vq_electionId (vc_body (ev_call ev)) = e"
    from mem consider "ev = ?ev0" | "ev \<in> set (vote_trace E H calls (snd ?out))"
      by auto
    then show "ev_after ev = ev_before ev \<and> \<not> is_receipt (ev_response ev)
       \<and> (e \<noteq> 0 \<and> vq_candidateId (vc_body (ev_call ev)) \<noteq> 0 \<longrightarrow>
            ev_response ev = AlreadyVoted)
       \<and> (\<forall>E' H' env'. submitVote E' H' env' v (vc_body (ev_call ev)) (ev_before ev) =
            (ev_response ev, ev_before ev))"
    proof cases
      case 1
      with pair have c: "vc_voter c = v" "vq_electionId (vc_body c) = e" by simp_all
      with Cons.prems have m: "marked v (vq_electionId (vc_body c)) s" by simp
      show ?thesis
        unfolding 1 using c by (simp add: submitVote_marked [OF m])
    next
      case 2
      with IH pair show ?thesis by blast
    qed
  qed
qed

text \<open>
  Every event of a trace is a call of \<open>submitVote\<close> on the database it found.
\<close>

lemma vote_trace_events:
  "ev \<in> set (vote_trace E H calls s) \<Longrightarrow>
   submitVote E H (vc_env (ev_call ev)) (vc_voter (ev_call ev)) (vc_body (ev_call ev))
     (ev_before ev) = (ev_response ev, ev_after ev)"
proof (induction calls arbitrary: s)
  case Nil
  then show ?case by simp
next
  case (Cons c calls)
  let ?out = "submitVote E H (vc_env c) (vc_voter c) (vc_body c) s"
  let ?ev0 = "\<lparr>ev_call = c, ev_response = fst ?out, ev_before = s, ev_after = snd ?out\<rparr>"
  have unfold: "vote_trace E H (c # calls) s = ?ev0 # vote_trace E H calls (snd ?out)"
    by (simp add: case_prod_beta)
  from Cons.prems consider "ev = ?ev0" | "ev \<in> set (vote_trace E H calls (snd ?out))"
    unfolding unfold by auto
  then show ?case
  proof cases
    case 1
    then show ?thesis by simp
  next
    case 2
    then show ?thesis by (rule Cons.IH)
  qed
qed

text \<open>
  What a call does to the vault: nothing, or one ballot appended, and then either the
  receipt is given or the ledger \<open>UPDATE\<close> threw and the ledger is as before.
\<close>

lemma submitVote_vault:
  assumes "submitVote E H env v body s = (r, s')"
  shows "ballots s' = ballots s
   \<or> (\<exists>b. ballots s' = ballots s @ [b]
         \<and> (is_receipt r
            \<or> r = PersistenceError \<and> ve_update_fails env
              \<and> voting_records s' = voting_records s))"
proof -
  from submitVote_cases [OF assms] consider
      (same) "s' = s"
    | (orphan) b s1 where "save_ballot b s = Inr s1"
        "mark_voted env v (vq_electionId body) s1 = Inl r" "s' = s1"
    | (marks) b s1 where "save_ballot b s = Inr s1"
        "mark_voted env v (vq_electionId body) s1 = Inr s'" "r = Receipt (b_voteHash b)"
    by blast
  then show ?thesis
  proof cases
    case same
    then show ?thesis by simp
  next
    case orphan
    from orphan(2) have "r = PersistenceError \<and> ve_update_fails env"
      by (auto simp: mark_voted_def split: if_splits)
    with save_ballot_cases [OF orphan(1)] orphan(3) show ?thesis by simp
  next
    case marks
    from save_ballot_cases [OF marks(1)] mark_voted_cases [OF marks(2)] marks(3)
    show ?thesis by auto
  qed
qed

lemma filter_length_cover:
  "\<forall>x \<in> set xs. P x \<longrightarrow> Q x \<or> R x \<Longrightarrow>
   length (filter P xs) \<le> length (filter Q xs) + length (filter R xs)"
  by (induction xs) auto

text \<open>In a trace, at most one submission of a pair is answered by a receipt.\<close>

lemma one_receipt_in_trace:
  "length (filter (\<lambda>ev. of_pair v e ev \<and> is_receipt (ev_response ev))
     (vote_trace E H calls s)) \<le> 1"
proof (induction calls arbitrary: s)
  case Nil
  then show ?case by simp
next
  case (Cons c calls)
  let ?out = "submitVote E H (vc_env c) (vc_voter c) (vc_body c) s"
  let ?ev0 = "\<lparr>ev_call = c, ev_response = fst ?out, ev_before = s, ev_after = snd ?out\<rparr>"
  let ?P = "\<lambda>ev. of_pair v e ev \<and> is_receipt (ev_response ev)"
  have unfold: "vote_trace E H (c # calls) s = ?ev0 # vote_trace E H calls (snd ?out)"
    by (simp add: case_prod_beta)
  show ?case
  proof (cases "?P ?ev0")
    case True
    then have pair: "vc_voter c = v" "vq_electionId (vc_body c) = e"
      by (simp_all add: of_pair_def)
    from True have "is_receipt (ev_response ?ev0)" by blast
    then have rec: "is_receipt (fst ?out)" by simp
    from rec obtain h where "fst ?out = Receipt h" by (cases "fst ?out") simp_all
    then have "?out = (Receipt h, snd ?out)" by (simp add: prod_eq_iff)
    from submitVote_receipt [OF this] pair have m: "marked v e (snd ?out)" by simp
    have "\<forall>ev \<in> set (vote_trace E H calls (snd ?out)). \<not> ?P ev"
      using vote_trace_marked [OF m, of E H calls] by (auto simp: of_pair_def)
    then have "filter ?P (vote_trace E H calls (snd ?out)) = []"
      by (simp add: filter_empty_conv)
    with True show ?thesis unfolding unfold by simp
  next
    case False
    then have "filter ?P (?ev0 # vote_trace E H calls (snd ?out)) =
        filter ?P (vote_trace E H calls (snd ?out))"
      by simp
    with Cons.IH [of "snd ?out"] show ?thesis unfolding unfold by simp
  qed
qed

text \<open>
  Claim C1, amended. For submissions served one after the other (by any voters, with any
  clock, random material and faults):

  \<^item> once a submission of a voter for an election has been answered by a receipt, exactly
    one ballot has been appended by it and the ledger marks the pair; every later
    submission of that voter for that election leaves the database, the vault included,
    as it found it and gets no receipt; it gets \<open>AlreadyVoted\<close> when its body carries a
    candidate id (a body without one is turned away as malformed before the ledger is
    read), whatever the cipher, the digest and the environment are: the answer is given
    before any encryption;

  \<^item> at most one submission of a pair is answered by a receipt;

  \<^item> a submission appends at most one ballot, and when it appends one it either gives the
    receipt or its ledger \<open>UPDATE\<close> threw after \<open>ballot.save()\<close>: then it is answered by
    an error, its ballot stays in the vault and the ledger is as before;

  \<^item> hence the submissions of a pair that append a ballot are at most one more than those
    whose ledger \<open>UPDATE\<close> threw: at most one when no \<open>UPDATE\<close> throws.
\<close>

theorem one_receipt_per_pair:
  "(submitVote encryptVote sha256 env voterId body s0 = (Receipt h, s1) \<longrightarrow>
      length (ballots s1) = Suc (length (ballots s0))
      \<and> marked voterId (vq_electionId body) s1
      \<and> (\<forall>ev \<in> set (vote_trace encryptVote sha256 later s1).
           vc_voter (ev_call ev) = voterId
           \<and> vq_electionId (vc_body (ev_call ev)) = vq_electionId body \<longrightarrow>
             ev_after ev = ev_before ev
             \<and> \<not> is_receipt (ev_response ev)
             \<and> (vq_candidateId (vc_body (ev_call ev)) \<noteq> 0 \<longrightarrow> ev_response ev = AlreadyVoted)
             \<and> (\<forall>E' H' env'.
                   submitVote E' H' env' voterId (vc_body (ev_call ev)) (ev_before ev) =
                     (ev_response ev, ev_before ev))))
   \<and> length (filter (\<lambda>ev. of_pair voterId electionId ev \<and> is_receipt (ev_response ev))
        (vote_trace encryptVote sha256 calls s)) \<le> 1
   \<and> (\<forall>ev \<in> set (vote_trace encryptVote sha256 calls s).
        ballots (ev_after ev) = ballots (ev_before ev)
        \<or> (\<exists>b. ballots (ev_after ev) = ballots (ev_before ev) @ [b]
              \<and> (is_receipt (ev_response ev)
                 \<or> ledger_update_lost ev
                   \<and> voting_records (ev_after ev) = voting_records (ev_before ev))))
   \<and> length (filter (\<lambda>ev. of_pair voterId electionId ev
                          \<and> ballots (ev_after ev) \<noteq> ballots (ev_before ev))
        (vote_trace encryptVote sha256 calls s))
       \<le> 1 + length (filter (\<lambda>ev. of_pair voterId electionId ev \<and> ledger_update_lost ev)
                (vote_trace encryptVote sha256 calls s))"
proof -
  let ?tr = "vote_trace encryptVote sha256 calls s"
  have a: "submitVote encryptVote sha256 env voterId body s0 = (Receipt h, s1) \<longrightarrow>
      length (ballots s1) = Suc (length (ballots s0))
      \<and> marked voterId (vq_electionId body) s1
      \<and> (\<forall>ev \<in> set (vote_trace encryptVote sha256 later s1).
           vc_voter (ev_call ev) = voterId
           \<and> vq_electionId (vc_body (ev_call ev)) = vq_electionId body \<longrightarrow>
             ev_after ev = ev_before ev
             \<and> \<not> is_receipt (ev_response ev)
             \<and> (vq_candidateId (vc_body (ev_call ev)) \<noteq> 0 \<longrightarrow> ev_response ev = AlreadyVoted)
             \<and> (\<forall>E' H' env'.
                   submitVote E' H' env' voterId (vc_body (ev_call ev)) (ev_before ev) =
                     (ev_response ev, ev_before ev)))"
  proof
    assume rec: "submitVote encryptVote sha256 env voterId body s0 = (Receipt h, s1)"
    from submitVote_receipt [OF rec] have m: "marked voterId (vq_electionId body) s1"
      and nz: "vq_electionId body \<noteq> 0"
      and len: "length (ballots s1) = Suc (length (ballots s0))"
      by auto
    from vote_trace_marked [OF m, of encryptVote sha256 later] nz len m
    show "length (ballots s1) = Suc (length (ballots s0))
      \<and> marked voterId (vq_electionId body) s1
      \<and> (\<forall>ev \<in> set (vote_trace encryptVote sha256 later s1).
           vc_voter (ev_call ev) = voterId
           \<and> vq_electionId (vc_body (ev_call ev)) = vq_electionId body \<longrightarrow>
             ev_after ev = ev_before ev
             \<and> \<not> is_receipt (ev_response ev)
             \<and> (vq_candidateId (vc_body (ev_call ev)) \<noteq> 0 \<longrightarrow> ev_response ev = AlreadyVoted)
             \<and> (\<forall>E' H' env'.
                   submitVote E' H' env' voterId (vc_body (ev_call ev)) (ev_before ev) =
                     (ev_response ev, ev_before ev)))"
      by blast
  qed
  have b: "length (filter (\<lambda>ev. of_pair voterId electionId ev \<and> is_receipt (ev_response ev))
      ?tr) \<le> 1"
    by (rule one_receipt_in_trace)
  have c: "\<forall>ev \<in> set ?tr.
        ballots (ev_after ev) = ballots (ev_before ev)
        \<or> (\<exists>b. ballots (ev_after ev) = ballots (ev_before ev) @ [b]
              \<and> (is_receipt (ev_response ev)
                 \<or> ledger_update_lost ev
                   \<and> voting_records (ev_after ev) = voting_records (ev_before ev)))"
  proof
    fix ev assume "ev \<in> set ?tr"
    from submitVote_vault [OF vote_trace_events [OF this]]
    show "ballots (ev_after ev) = ballots (ev_before ev)
        \<or> (\<exists>b. ballots (ev_after ev) = ballots (ev_before ev) @ [b]
              \<and> (is_receipt (ev_response ev)
                 \<or> ledger_update_lost ev
                   \<and> voting_records (ev_after ev) = voting_records (ev_before ev)))"
      by (auto simp: ledger_update_lost_def)
  qed
  have "\<forall>ev \<in> set ?tr.
      of_pair voterId electionId ev \<and> ballots (ev_after ev) \<noteq> ballots (ev_before ev) \<longrightarrow>
        (of_pair voterId electionId ev \<and> is_receipt (ev_response ev))
        \<or> (of_pair voterId electionId ev \<and> ledger_update_lost ev)"
    using c by blast
  from filter_length_cover [OF this] b
  have d: "length (filter (\<lambda>ev. of_pair voterId electionId ev
                          \<and> ballots (ev_after ev) \<noteq> ballots (ev_before ev)) ?tr)
       \<le> 1 + length (filter (\<lambda>ev. of_pair voterId electionId ev \<and> ledger_update_lost ev) ?tr)"
    by linarith
  from a b c d show ?thesis by blast
qed

section \<open>The sample election, vote by vote\<close>

text \<open>
  The stages of the handler in the sample election, for a state whose election and
  candidate tables are the sample ones.
\<close>

lemma sample_fingerprint:
  "generateVoteHash (\<lambda>x. x) rnd v 1 ''t0'' = dec_str v @ ''-1-t0-'' @ rnd"
  by (simp add: generateVoteHash_def dec_str.simps digit_def)

lemma sample_check_election:
  "elections s = [sample_election] \<Longrightarrow> check_election vote_for_a s = None"
  by (simp add: check_election_def vote_for_a_def sample_election_def)

lemma sample_prepare_ballot:
  "candidates s = abc_candidates \<Longrightarrow>
   prepare_ballot sample_encryptVote (\<lambda>x. x) (calm_env\<lparr>ve_random := rnd\<rparr>) v vote_for_a s =
     Inr (vote_ballot v rnd)"
  unfolding prepare_ballot_def Let_def
  by (simp del: One_nat_def add: vote_for_a_def abc_candidates_def sample_encryptVote_def
      calm_env_def sample_fingerprint vote_ballot_def sample_ballot_def) simp

lemma sample_check_eligibility:
  "eligibility_rows v 1 s = ledger_row v False # rest \<Longrightarrow>
   check_eligibility v vote_for_a s = None"
  by (simp add: check_eligibility_def vote_for_a_def ledger_row_def)

lemma sample_mark_voted:
  "mark_voted (calm_env\<lparr>ve_random := rnd\<rparr>) v 1 s =
     Inr (s\<lparr>voting_records :=
              map (\<lambda>r. if vr_voter_id r = v \<and> vr_election_id r = 1
                        then r\<lparr>has_voted := True, voted_at := Some 12\<rparr> else r)
                (voting_records s)\<rparr>)"
  by (simp add: mark_voted_def calm_env_def)

lemma sample_tables:
  shows "elections open_db = [sample_election]" and "candidates open_db = abc_candidates"
    and "elections voted7_db = [sample_election]" and "candidates voted7_db = abc_candidates"
    and "elections collision_db = [sample_election]"
    and "candidates collision_db = abc_candidates"
  by (simp_all add: open_db_def voted7_db_def collision_db_def)

lemma sample_hashes:
  shows "b_voteHash (vote_ballot v rnd) = dec_str v @ ''-1-t0-'' @ rnd"
    and "dec_str 7 = ''7''" and "dec_str 8 = ''8''"
  by (simp_all add: vote_ballot_def sample_ballot_def dec_str.simps digit_def)

lemma sample_rows:
  shows "eligibility_rows 7 1 open_db = [ledger_row 7 False]"
    and "eligibility_rows 8 1 voted7_db = [ledger_row 8 False]"
    and "eligibility_rows 7 1 collision_db = [ledger_row 7 False]"
  by (simp_all add: eligibility_rows_def open_db_def voted7_db_def collision_db_def
      ledger_row_def)

lemma calm_env_random: "calm_env\<lparr>ve_random := ''ab''\<rparr> = calm_env"
  by (simp add: calm_env_def)

lemma first_vote:
  "submitVote sample_encryptVote (\<lambda>x. x) calm_env 7 vote_for_a open_db =
     (Receipt ''7-1-t0-ab'', voted7_db)"
proof -
  have prep: "prepare_ballot sample_encryptVote (\<lambda>x. x) calm_env 7 vote_for_a open_db =
      Inr (vote_ballot 7 ''ab'')"
    using sample_prepare_ballot [OF sample_tables(2), of "''ab''" 7]
    by (simp only: calm_env_random)
  have saved: "save_ballot (vote_ballot 7 ''ab'') open_db =
      Inr (open_db\<lparr>ballots := [vote_ballot 7 ''ab'']\<rparr>)"
    by (simp add: save_ballot_def open_db_def)
  have mark: "mark_voted calm_env 7 1 (open_db\<lparr>ballots := [vote_ballot 7 ''ab'']\<rparr>) =
      Inr voted7_db"
    by (simp add: mark_voted_def calm_env_def open_db_def voted7_db_def ledger_row_def)
  have e1: "vq_electionId vote_for_a = 1" by (simp add: vote_for_a_def)
  show ?thesis
    unfolding submitVote_def
      sample_check_eligibility [OF sample_rows(1)]
      sample_check_election [OF sample_tables(1)] prep e1
    by (simp del: One_nat_def add: saved mark sample_hashes)
qed

lemma marked7: "marked 7 1 voted7_db"
  by (simp add: marked_def eligibility_rows_def voted7_db_def open_db_def ledger_row_def)

lemma later_vote_of_7:
  "submitVote E H env 7 vote_for_a voted7_db = (AlreadyVoted, voted7_db)"
proof -
  have m: "marked 7 (vq_electionId vote_for_a) voted7_db"
    using marked7 by (simp add: vote_for_a_def)
  show ?thesis
    unfolding submitVote_marked [OF m] by (simp add: vote_for_a_def)
qed

lemma vote_of_8:
  "submitVote sample_encryptVote (\<lambda>x. x) calm_env 8 vote_for_a voted7_db =
     (Receipt ''8-1-t0-ab'', voted78_db)"
proof -
  have prep: "prepare_ballot sample_encryptVote (\<lambda>x. x) calm_env 8 vote_for_a voted7_db =
      Inr (vote_ballot 8 ''ab'')"
    using sample_prepare_ballot [OF sample_tables(4), of "''ab''" 8]
    by (simp only: calm_env_random)
  have saved: "save_ballot (vote_ballot 8 ''ab'') voted7_db =
      Inr (voted7_db\<lparr>ballots := [vote_ballot 7 ''ab'', vote_ballot 8 ''ab'']\<rparr>)"
    by (simp add: save_ballot_def voted7_db_def sample_hashes)
  have mark: "mark_voted calm_env 8 1
        (voted7_db\<lparr>ballots := [vote_ballot 7 ''ab'', vote_ballot 8 ''ab'']\<rparr>) =
      Inr voted78_db"
    by (simp add: mark_voted_def calm_env_def open_db_def voted7_db_def voted78_db_def
        ledger_row_def)
  have e1: "vq_electionId vote_for_a = 1" by (simp add: vote_for_a_def)
  show ?thesis
    unfolding submitVote_def
      sample_check_eligibility [OF sample_rows(2)]
      sample_check_election [OF sample_tables(3)] prep e1
    by (simp del: One_nat_def add: saved mark sample_hashes)
qed

lemma marked7_later: "marked 7 1 voted78_db"
  by (simp add: marked_def eligibility_rows_def voted78_db_def open_db_def ledger_row_def)

lemma sample_trace:
  "map ev_response
     (vote_trace sample_encryptVote (\<lambda>x. x) [call7 ''cd'', call8, call7 ''ef''] voted7_db) =
     [AlreadyVoted, Receipt ''8-1-t0-ab'', AlreadyVoted]
   \<and> map ev_after
     (vote_trace sample_encryptVote (\<lambda>x. x) [call7 ''cd'', call8, call7 ''ef''] voted7_db) =
     [voted7_db, voted78_db, voted78_db]"
proof -
  have m: "marked 7 (vq_electionId vote_for_a) voted78_db"
    using marked7_later by (simp add: vote_for_a_def)
  have last: "\<And>E H env. submitVote E H env 7 vote_for_a voted78_db = (AlreadyVoted, voted78_db)"
    unfolding submitVote_marked [OF m] by (simp add: vote_for_a_def)
  show ?thesis
    by (simp add: call7_def call8_def later_vote_of_7 vote_of_8 last)
qed

text \<open>
  A submission of voter 7 whose ledger \<open>UPDATE\<close> throws, the retry of the voter, and a
  third submission.
\<close>

lemma prepare_ballot_faults:
  "prepare_ballot E H (env\<lparr>ve_update_fails := f\<rparr>) v body s = prepare_ballot E H env v body s"
  by (simp add: prepare_ballot_def Let_def split: list.splits option.splits)

lemma orphan_db_facts:
  shows "elections orphan_db = [sample_election]" and "candidates orphan_db = abc_candidates"
    and "eligibility_rows 7 1 orphan_db = [ledger_row 7 False]"
    and "ballots orphan_db = [vote_ballot 7 ''ab'']"
    and "ballots open_db = []"
    and "ballots double_db = [vote_ballot 7 ''ab'', vote_ballot 7 ''cd'']"
    and "voting_records orphan_db = voting_records open_db"
  by (simp_all add: orphan_db_def open_db_def double_db_def eligibility_rows_def ledger_row_def)

lemma lost_vote:
  "submitVote sample_encryptVote (\<lambda>x. x) (calm_env\<lparr>ve_update_fails := True\<rparr>) 7 vote_for_a
     open_db = (PersistenceError, orphan_db)"
proof -
  have prep: "prepare_ballot sample_encryptVote (\<lambda>x. x) (calm_env\<lparr>ve_update_fails := True\<rparr>) 7
      vote_for_a open_db = Inr (vote_ballot 7 ''ab'')"
    unfolding prepare_ballot_faults
    using sample_prepare_ballot [OF sample_tables(2), of "''ab''" 7]
    by (simp only: calm_env_random)
  have saved: "save_ballot (vote_ballot 7 ''ab'') open_db = Inr orphan_db"
    by (simp add: save_ballot_def open_db_def orphan_db_def)
  have mark: "mark_voted (calm_env\<lparr>ve_update_fails := True\<rparr>) 7 1 orphan_db =
      Inl PersistenceError"
    by (simp add: mark_voted_def)
  have e1: "vq_electionId vote_for_a = 1" by (simp add: vote_for_a_def)
  show ?thesis
    unfolding submitVote_def
      sample_check_eligibility [OF sample_rows(1)]
      sample_check_election [OF sample_tables(1)] prep e1
    by (simp del: One_nat_def add: saved mark)
qed

lemma retry_vote:
  "submitVote sample_encryptVote (\<lambda>x. x) (calm_env\<lparr>ve_random := ''cd''\<rparr>) 7 vote_for_a
     orphan_db = (Receipt ''7-1-t0-cd'', double_db)"
proof -
  have saved: "save_ballot (vote_ballot 7 ''cd'') orphan_db =
      Inr (orphan_db\<lparr>ballots := [vote_ballot 7 ''ab'', vote_ballot 7 ''cd'']\<rparr>)"
    by (simp add: save_ballot_def orphan_db_def sample_hashes)
  have mark: "mark_voted (calm_env\<lparr>ve_random := ''cd''\<rparr>) 7 1
        (orphan_db\<lparr>ballots := [vote_ballot 7 ''ab'', vote_ballot 7 ''cd'']\<rparr>) =
      Inr double_db"
    by (simp add: mark_voted_def calm_env_def open_db_def orphan_db_def double_db_def
        ledger_row_def)
  have e1: "vq_electionId vote_for_a = 1" by (simp add: vote_for_a_def)
  show ?thesis
    unfolding submitVote_def
      sample_check_eligibility [OF orphan_db_facts(3)]
      sample_check_election [OF orphan_db_facts(1)]
      sample_prepare_ballot [OF orphan_db_facts(2)] e1
    by (simp del: One_nat_def add: saved mark sample_hashes)
qed

lemma marked7_double: "marked 7 1 double_db"
  by (simp add: marked_def eligibility_rows_def double_db_def open_db_def ledger_row_def)

lemma lost_trace:
  "vote_trace sample_encryptVote (\<lambda>x. x) [lost7, call7 ''cd'', call7 ''ef''] open_db =
     [\<lparr>ev_call = lost7, ev_response = PersistenceError, ev_before = open_db,
       ev_after = orphan_db\<rparr>,
      \<lparr>ev_call = call7 ''cd'', ev_response = Receipt ''7-1-t0-cd'', ev_before = orphan_db,
       ev_after = double_db\<rparr>,
      \<lparr>ev_call = call7 ''ef'', ev_response = AlreadyVoted, ev_before = double_db,
       ev_after = double_db\<rparr>]"
proof -
  have m: "marked 7 (vq_electionId vote_for_a) double_db"
    using marked7_double by (simp add: vote_for_a_def)
  have last: "\<And>E H env. submitVote E H env 7 vote_for_a double_db = (AlreadyVoted, double_db)"
    unfolding submitVote_marked [OF m] by (simp add: vote_for_a_def)
  show ?thesis
    by (simp add: lost7_def call7_def lost_vote retry_vote last)
qed

lemma lost_trace_pairs:
  shows "of_pair 7 1 \<lparr>ev_call = lost7, ev_response = r, ev_before = s, ev_after = s'\<rparr>"
    and "of_pair 7 1 \<lparr>ev_call = call7 rnd, ev_response = r, ev_before = s, ev_after = s'\<rparr>"
    and "ve_update_fails (vc_env lost7)"
    and "of_pair 7 (Suc 0) \<lparr>ev_call = lost7, ev_response = r, ev_before = s, ev_after = s'\<rparr>"
    and "of_pair 7 (Suc 0)
           \<lparr>ev_call = call7 rnd, ev_response = r, ev_before = s, ev_after = s'\<rparr>"
  by (simp_all add: of_pair_def lost7_def call7_def vote_for_a_def)

text \<open>
  Claim C1 as stated fails. The vault is empty and voter 7 submits three times for
  election 1, one submission after the other. The ledger \<open>UPDATE\<close> of the first throws:
  the submission is answered by an error, but its ballot has been saved and the pair is
  not marked. The second is accepted and appends a second ballot; the third is turned
  away. Two ballots have been appended for the pair.
\<close>

theorem lost_update_counterexample:
  "ballots open_db = []
   \<and> list_all (of_pair 7 1)
       (vote_trace sample_encryptVote (\<lambda>x. x) [lost7, call7 ''cd'', call7 ''ef''] open_db)
   \<and> map ev_response
       (vote_trace sample_encryptVote (\<lambda>x. x) [lost7, call7 ''cd'', call7 ''ef''] open_db) =
       [PersistenceError, Receipt ''7-1-t0-cd'', AlreadyVoted]
   \<and> map (\<lambda>ev. ballots (ev_after ev))
       (vote_trace sample_encryptVote (\<lambda>x. x) [lost7, call7 ''cd'', call7 ''ef''] open_db) =
       [[vote_ballot 7 ''ab''],
        [vote_ballot 7 ''ab'', vote_ballot 7 ''cd''],
        [vote_ballot 7 ''ab'', vote_ballot 7 ''cd'']]"
  unfolding lost_trace by (simp add: lost_trace_pairs orphan_db_facts)

theorem one_receipt_per_pair_witness:
  "submitVote sample_encryptVote (\<lambda>x. x) calm_env 7 vote_for_a open_db =
     (Receipt ''7-1-t0-ab'', voted7_db)
   \<and> length (ballots open_db) = 0 \<and> length (ballots voted7_db) = 1
   \<and> marked 7 1 voted7_db
   \<and> map ev_response
       (vote_trace sample_encryptVote (\<lambda>x. x) [call7 ''cd'', call8, call7 ''ef''] voted7_db) =
       [AlreadyVoted, Receipt ''8-1-t0-ab'', AlreadyVoted]
   \<and> list_all (\<lambda>ev. vc_voter (ev_call ev) = 7 \<longrightarrow> ev_after ev = ev_before ev)
       (vote_trace sample_encryptVote (\<lambda>x. x) [call7 ''cd'', call8, call7 ''ef''] voted7_db)
   \<and> length (filter (\<lambda>ev. of_pair 7 1 ev \<and> is_receipt (ev_response ev))
        (vote_trace sample_encryptVote (\<lambda>x. x) [lost7, call7 ''cd'', call7 ''ef''] open_db)) \<le> 1
   \<and> list_all (\<lambda>ev. ballots (ev_after ev) = ballots (ev_before ev)
                  \<or> (\<exists>b. ballots (ev_after ev) = ballots (ev_before ev) @ [b]))
        (vote_trace sample_encryptVote (\<lambda>x. x) [lost7, call7 ''cd'', call7 ''ef''] open_db)
   \<and> length (filter (\<lambda>ev. of_pair 7 1 ev \<and> ledger_update_lost ev)
        (vote_trace sample_encryptVote (\<lambda>x. x) [lost7, call7 ''cd'', call7 ''ef''] open_db)) = 1
   \<and> length (filter (\<lambda>ev. of_pair 7 1 ev
                          \<and> ballots (ev_after ev) \<noteq> ballots (ev_before ev))
        (vote_trace sample_encryptVote (\<lambda>x. x) [lost7, call7 ''cd'', call7 ''ef''] open_db)) \<le> 2"
proof -
  note inst = one_receipt_per_pair
    [of sample_encryptVote "\<lambda>x. x" calm_env 7 vote_for_a open_db "''7-1-t0-ab''" voted7_db
       "[call7 ''cd'', call8, call7 ''ef'']" 1 "[lost7, call7 ''cd'', call7 ''ef'']" open_db]
  let ?later = "vote_trace sample_encryptVote (\<lambda>x. x) [call7 ''cd'', call8, call7 ''ef''] voted7_db"
  let ?tr = "vote_trace sample_encryptVote (\<lambda>x. x) [lost7, call7 ''cd'', call7 ''ef''] open_db"
  have e1: "vq_electionId vote_for_a = 1" by (simp add: vote_for_a_def)
  have l0: "length (ballots open_db) = 0" by (simp add: open_db_def)
  from inst first_vote have l1: "length (ballots voted7_db) = 1" by (simp add: l0)
  have bodies: "list_all (\<lambda>ev. vq_electionId (vc_body (ev_call ev)) = 1) ?later"
    by (simp add: call7_def call8_def vote_for_a_def case_prod_beta)
  have frame: "list_all (\<lambda>ev. vc_voter (ev_call ev) = 7 \<longrightarrow> ev_after ev = ev_before ev) ?later"
    using inst first_vote bodies unfolding e1 list_all_iff by blast
  from inst have once: "length (filter (\<lambda>ev. of_pair 7 1 ev \<and> is_receipt (ev_response ev)) ?tr) \<le> 1"
    by blast
  from inst have "\<forall>ev \<in> set ?tr. ballots (ev_after ev) = ballots (ev_before ev)
      \<or> (\<exists>b. ballots (ev_after ev) = ballots (ev_before ev) @ [b])"
    by blast
  then have grow: "list_all (\<lambda>ev. ballots (ev_after ev) = ballots (ev_before ev)
                  \<or> (\<exists>b. ballots (ev_after ev) = ballots (ev_before ev) @ [b])) ?tr"
    by (simp add: list_all_iff)
  have lost: "length (filter (\<lambda>ev. of_pair 7 1 ev \<and> ledger_update_lost ev) ?tr) = 1"
    unfolding lost_trace
    by (simp add: lost_trace_pairs ledger_update_lost_def orphan_db_facts)
  from inst have "length (filter (\<lambda>ev. of_pair 7 1 ev
                          \<and> ballots (ev_after ev) \<noteq> ballots (ev_before ev)) ?tr)
       \<le> 1 + length (filter (\<lambda>ev. of_pair 7 1 ev \<and> ledger_update_lost ev) ?tr)"
    by blast
  with lost have most: "length (filter (\<lambda>ev. of_pair 7 1 ev
                          \<and> ballots (ev_after ev) \<noteq> ballots (ev_before ev)) ?tr) \<le> 2"
    by simp
  from first_vote l0 l1 marked7 sample_trace frame once grow lost most show ?thesis by blast
qed

section \<open>A fingerprint collision\<close>

text \<open>
  Claim C8 as stated fails. The vault holds a ballot with the fingerprint that the
  submission of voter 7 generates. The submission is answered by a persistence error and
  nothing is written, although a regenerated fingerprint (other random bytes) is not in
  the vault and the same submission with it is accepted.
\<close>

theorem duplicate_hash_counterexample:
  "map b_voteHash (ballots collision_db) = [''7-1-t0-ab'']
   \<and> generateVoteHash (\<lambda>x. x) (ve_random calm_env) 7 1 (ve_timestamp calm_env) = ''7-1-t0-ab''
   \<and> submitVote sample_encryptVote (\<lambda>x. x) calm_env 7 vote_for_a collision_db =
       (PersistenceError, collision_db)
   \<and> generateVoteHash (\<lambda>x. x) ''cd'' 7 1 (ve_timestamp calm_env) = ''7-1-t0-cd''
   \<and> fst (submitVote sample_encryptVote (\<lambda>x. x) (calm_env\<lparr>ve_random := ''cd''\<rparr>) 7 vote_for_a
          collision_db) = Receipt ''7-1-t0-cd''"
proof -
  have hs: "map b_voteHash (ballots collision_db) = [''7-1-t0-ab'']"
    by (simp del: One_nat_def
        add: collision_db_def sample_ballot_def sample_fingerprint sample_hashes)
  have g1: "generateVoteHash (\<lambda>x. x) (ve_random calm_env) 7 1 (ve_timestamp calm_env) =
      ''7-1-t0-ab''"
    by (simp del: One_nat_def add: calm_env_def sample_fingerprint sample_hashes)
  have g2: "generateVoteHash (\<lambda>x. x) ''cd'' 7 1 (ve_timestamp calm_env) = ''7-1-t0-cd''"
    by (simp del: One_nat_def add: calm_env_def sample_fingerprint sample_hashes)
  have e1: "vq_electionId vote_for_a = 1" by (simp add: vote_for_a_def)
  have set_hs: "b_voteHash ` set (ballots collision_db) = {''7-1-t0-ab''}"
    using hs by (metis list.set_map list.simps(15) empty_set)
  have prep1: "prepare_ballot sample_encryptVote (\<lambda>x. x) calm_env 7 vote_for_a collision_db =
      Inr (vote_ballot 7 ''ab'')"
    using sample_prepare_ballot [OF sample_tables(6), of "''ab''" 7]
    by (simp only: calm_env_random)
  have dup: "save_ballot (vote_ballot 7 ''ab'') collision_db = Inl PersistenceError"
    unfolding save_ballot_def set_hs by (simp add: sample_hashes)
  have r1: "submitVote sample_encryptVote (\<lambda>x. x) calm_env 7 vote_for_a collision_db =
       (PersistenceError, collision_db)"
    unfolding submitVote_def
      sample_check_eligibility [OF sample_rows(3)]
      sample_check_election [OF sample_tables(5)] prep1 e1
    by (simp del: One_nat_def add: dup)
  have fresh: "save_ballot (vote_ballot 7 ''cd'') collision_db =
      Inr (collision_db\<lparr>ballots := ballots collision_db @ [vote_ballot 7 ''cd'']\<rparr>)"
    unfolding save_ballot_def set_hs by (simp add: sample_hashes)
  have r2: "fst (submitVote sample_encryptVote (\<lambda>x. x) (calm_env\<lparr>ve_random := ''cd''\<rparr>) 7
      vote_for_a collision_db) = Receipt ''7-1-t0-cd''"
    unfolding submitVote_def
      sample_check_eligibility [OF sample_rows(3)]
      sample_check_election [OF sample_tables(5)]
      sample_prepare_ballot [OF sample_tables(6)] e1
    by (simp del: One_nat_def add: fresh sample_mark_voted sample_hashes)
  from hs g1 r1 g2 r2 show ?thesis by blast
qed

text \<open>
  Claim C8, amended. The fingerprint is generated once per submission and the ballot is
  saved once. When the save meets a fingerprint already in the vault, the submission is
  answered by a persistence error at once, with the database unchanged: nothing is
  regenerated or retried. In every case the ledger changes only when a ballot has been
  appended, and then by the receipt path alone; a submission appends at most one ballot.
\<close>

theorem no_retry_on_duplicate_hash:
  "(check_eligibility voterId body s = None \<longrightarrow> check_election body s = None \<longrightarrow>
      prepare_ballot encryptVote sha256 env voterId body s = Inr b \<longrightarrow>
      b_voteHash b \<in> b_voteHash ` set (ballots s) \<longrightarrow>
        submitVote encryptVote sha256 env voterId body s = (PersistenceError, s))
   \<and> (voting_records (snd (submitVote encryptVote sha256 env voterId body s))
         \<noteq> voting_records s \<longrightarrow>
        (\<exists>b'. ballots (snd (submitVote encryptVote sha256 env voterId body s)) =
                ballots s @ [b']
              \<and> b_voteHash b' \<notin> b_voteHash ` set (ballots s)
              \<and> fst (submitVote encryptVote sha256 env voterId body s) =
                  Receipt (b_voteHash b')))
   \<and> (ballots (snd (submitVote encryptVote sha256 env voterId body s)) = ballots s
       \<or> (\<exists>b'. ballots (snd (submitVote encryptVote sha256 env voterId body s)) =
                 ballots s @ [b']))"
proof -
  let ?out = "submitVote encryptVote sha256 env voterId body s"
  have a: "check_eligibility voterId body s = None \<longrightarrow> check_election body s = None \<longrightarrow>
      prepare_ballot encryptVote sha256 env voterId body s = Inr b \<longrightarrow>
      b_voteHash b \<in> b_voteHash ` set (ballots s) \<longrightarrow> ?out = (PersistenceError, s)"
    by (simp add: submitVote_def save_ballot_def)
  obtain r s' where out: "?out = (r, s')" by (cases ?out)
  from submitVote_cases [OF out] consider
      (same) "s' = s"
    | (orphan) b' s1 where "save_ballot b' s = Inr s1" "s' = s1"
    | (marks) b' s1 where "save_ballot b' s = Inr s1"
        "mark_voted env voterId (vq_electionId body) s1 = Inr s'" "r = Receipt (b_voteHash b')"
    by blast
  then have bc: "(voting_records s' \<noteq> voting_records s \<longrightarrow>
        (\<exists>b'. ballots s' = ballots s @ [b']
              \<and> b_voteHash b' \<notin> b_voteHash ` set (ballots s)
              \<and> r = Receipt (b_voteHash b')))
      \<and> (ballots s' = ballots s \<or> (\<exists>b'. ballots s' = ballots s @ [b']))"
  proof cases
    case same
    then show ?thesis by simp
  next
    case orphan
    from save_ballot_cases [OF orphan(1)] orphan(2) show ?thesis by simp
  next
    case marks
    from save_ballot_cases [OF marks(1)] mark_voted_cases [OF marks(2)] marks(3)
    show ?thesis by auto
  qed
  from a bc show ?thesis unfolding out by simp
qed

theorem no_retry_on_duplicate_hash_witness:
  "check_eligibility 7 vote_for_a collision_db = None
   \<and> check_election vote_for_a collision_db = None
   \<and> prepare_ballot sample_encryptVote (\<lambda>x. x) calm_env 7 vote_for_a collision_db =
       Inr (vote_ballot 7 ''ab'')
   \<and> b_voteHash (vote_ballot 7 ''ab'') \<in> b_voteHash ` set (ballots collision_db)
   \<and> submitVote sample_encryptVote (\<lambda>x. x) calm_env 7 vote_for_a collision_db =
       (PersistenceError, collision_db)
   \<and> voting_records (snd (submitVote sample_encryptVote (\<lambda>x. x) calm_env 7 vote_for_a open_db))
       \<noteq> voting_records open_db
   \<and> (\<exists>b'. ballots (snd (submitVote sample_encryptVote (\<lambda>x. x) calm_env 7 vote_for_a open_db)) =
              ballots open_db @ [b']
          \<and> fst (submitVote sample_encryptVote (\<lambda>x. x) calm_env 7 vote_for_a open_db) =
              Receipt (b_voteHash b'))"
proof -
  have elig: "check_eligibility 7 vote_for_a collision_db = None"
    by (rule sample_check_eligibility [OF sample_rows(3)])
  have elec: "check_election vote_for_a collision_db = None"
    by (rule sample_check_election [OF sample_tables(5)])
  have prep: "prepare_ballot sample_encryptVote (\<lambda>x. x) calm_env 7 vote_for_a collision_db =
      Inr (vote_ballot 7 ''ab'')"
    using sample_prepare_ballot [OF sample_tables(6), of "''ab''" 7]
    by (simp only: calm_env_random)
  have dup: "b_voteHash (vote_ballot 7 ''ab'') \<in> b_voteHash ` set (ballots collision_db)"
    by (simp del: One_nat_def
        add: collision_db_def sample_ballot_def sample_fingerprint sample_hashes)
  note coll = no_retry_on_duplicate_hash
    [of 7 vote_for_a collision_db sample_encryptVote "\<lambda>x. x" calm_env "vote_ballot 7 ''ab''"]
  note fine = no_retry_on_duplicate_hash
    [of 7 vote_for_a open_db sample_encryptVote "\<lambda>x. x" calm_env "vote_ballot 7 ''ab''"]
  have r1: "submitVote sample_encryptVote (\<lambda>x. x) calm_env 7 vote_for_a collision_db =
       (PersistenceError, collision_db)"
    using coll elig elec prep dup by blast
  have changed: "voting_records (snd (submitVote sample_encryptVote (\<lambda>x. x) calm_env 7
      vote_for_a open_db)) \<noteq> voting_records open_db"
    unfolding first_vote by (simp add: voted7_db_def open_db_def ledger_row_def)
  then have r2: "\<exists>b'. ballots (snd (submitVote sample_encryptVote (\<lambda>x. x) calm_env 7
        vote_for_a open_db)) = ballots open_db @ [b']
      \<and> fst (submitVote sample_encryptVote (\<lambda>x. x) calm_env 7 vote_for_a open_db) =
          Receipt (b_voteHash b')"
    using fine by blast
  from elig elec prep dup r1 changed r2 show ?thesis by blast
qed

section \<open>Interleaved submissions\<close>

text \<open>A handler that runs alone goes through its operations as \<open>submitVote\<close> does.\<close>

lemma run_alone:
  "run_schedule E H [0, 0, 0, 0, 0] ([start_task c], s) =
     ([\<lparr>vt_call = c,
        vt_pc = Responded (fst (submitVote E H (vc_env c) (vc_voter c) (vc_body c) s))\<rparr>],
      snd (submitVote E H (vc_env c) (vc_voter c) (vc_body c) s))"
proof (cases "check_eligibility (vc_voter c) (vc_body c) s")
  case (Some x)
  then show ?thesis by (simp add: start_task_def vote_step_def submitVote_def)
next
  case elig: None
  show ?thesis
  proof (cases "check_election (vc_body c) s")
    case (Some x)
    with elig show ?thesis by (simp add: start_task_def vote_step_def submitVote_def)
  next
    case elec: None
    show ?thesis
    proof (cases "prepare_ballot E H (vc_env c) (vc_voter c) (vc_body c) s")
      case (Inl x)
      with elig elec show ?thesis by (simp add: start_task_def vote_step_def submitVote_def)
    next
      case prep: (Inr b)
      show ?thesis
      proof (cases "save_ballot b s")
        case (Inl x)
        with elig elec prep show ?thesis
          by (simp add: start_task_def vote_step_def submitVote_def)
      next
        case saved: (Inr s1)
        show ?thesis
        proof (cases "mark_voted (vc_env c) (vc_voter c) (vq_electionId (vc_body c)) s1")
          case (Inl x)
          with elig elec prep saved show ?thesis
            by (simp add: start_task_def vote_step_def submitVote_def)
        next
          case (Inr s2)
          with elig elec prep saved show ?thesis
            by (simp add: start_task_def vote_step_def submitVote_def)
        qed
      qed
    qed
  qed
qed

text \<open>After the first operation, no operation of a handler reads the ledger.\<close>

lemma later_steps_ignore_ledger:
  assumes "vt_pc t \<noteq> AtEligibility"
  shows "vt_pc (fst (vote_step E H t (s\<lparr>voting_records := rows\<rparr>))) =
         vt_pc (fst (vote_step E H t s))"
proof (cases "vt_pc t")
  case AtEligibility
  with assms show ?thesis by simp
next
  case AtElection
  then show ?thesis
    by (simp add: vote_step_def check_election_def split: list.splits)
next
  case AtCandidate
  then show ?thesis
    by (simp add: vote_step_def prepare_ballot_def Let_def split: list.splits option.splits)
next
  case (AtSave b)
  then show ?thesis by (simp add: vote_step_def save_ballot_def)
next
  case (AtMark b)
  then show ?thesis by (simp add: vote_step_def mark_voted_def Let_def)
next
  case (Responded r)
  then show ?thesis by (simp add: vote_step_def)
qed

lemma mark_step:
  assumes "\<not> ve_update_fails (vc_env c)"
  shows "vote_step E H \<lparr>vt_call = c, vt_pc = AtMark b\<rparr> s =
     (\<lparr>vt_call = c, vt_pc = Responded (Receipt (b_voteHash b))\<rparr>,
      s\<lparr>voting_records :=
          map (\<lambda>r. if vr_voter_id r = vc_voter c
                       \<and> vr_election_id r = vq_electionId (vc_body c)
                    then r\<lparr>has_voted := True, voted_at := Some (ve_now (vc_env c))\<rparr>
                    else r) (voting_records s)\<rparr>)"
  using assms by (simp add: vote_step_def mark_voted_def)

text \<open>The operations of a submission of voter 7 in the sample election.\<close>

lemma call7_fields:
  shows "vc_voter (call7 rnd) = 7" and "vc_body (call7 rnd) = vote_for_a"
    and "vc_env (call7 rnd) = calm_env\<lparr>ve_random := rnd\<rparr>"
    and "vq_electionId vote_for_a = 1"
  by (simp_all add: call7_def vote_for_a_def)

lemma step_eligibility:
  "eligibility_rows 7 1 s = ledger_row 7 False # rest \<Longrightarrow>
   vote_step E H \<lparr>vt_call = call7 rnd, vt_pc = AtEligibility\<rparr> s =
     (\<lparr>vt_call = call7 rnd, vt_pc = AtElection\<rparr>, s)"
  by (simp add: vote_step_def call7_fields sample_check_eligibility)

lemma step_election:
  "elections s = [sample_election] \<Longrightarrow>
   vote_step E H \<lparr>vt_call = call7 rnd, vt_pc = AtElection\<rparr> s =
     (\<lparr>vt_call = call7 rnd, vt_pc = AtCandidate\<rparr>, s)"
  by (simp add: vote_step_def call7_fields sample_check_election)

lemma step_candidate:
  "candidates s = abc_candidates \<Longrightarrow>
   vote_step sample_encryptVote (\<lambda>x. x) \<lparr>vt_call = call7 rnd, vt_pc = AtCandidate\<rparr> s =
     (\<lparr>vt_call = call7 rnd, vt_pc = AtSave (vote_ballot 7 rnd)\<rparr>, s)"
  by (simp add: vote_step_def call7_fields sample_prepare_ballot)

lemma step_save:
  "b_voteHash b \<notin> b_voteHash ` set (ballots s) \<Longrightarrow>
   vote_step E H \<lparr>vt_call = c, vt_pc = AtSave b\<rparr> s =
     (\<lparr>vt_call = c, vt_pc = AtMark b\<rparr>, s\<lparr>ballots := ballots s @ [b]\<rparr>)"
  by (simp add: vote_step_def save_ballot_def)

lemma step_mark:
  "voting_records s = [ledger_row 7 b7, ledger_row 8 b8] \<Longrightarrow>
   vote_step E H \<lparr>vt_call = call7 rnd, vt_pc = AtMark b\<rparr> s =
     (\<lparr>vt_call = call7 rnd, vt_pc = Responded (Receipt (b_voteHash b))\<rparr>,
      s\<lparr>voting_records := [ledger_row 7 True, ledger_row 8 b8]\<rparr>)"
  by (simp del: One_nat_def
      add: vote_step_def call7_fields sample_mark_voted ledger_row_def)

lemma double_db_facts:
  shows "open_db\<lparr>ballots := ballots open_db @ [vote_ballot 7 ''ab'', vote_ballot 7 ''cd'']\<rparr>
           \<lparr>voting_records := [ledger_row 7 True, ledger_row 8 False]\<rparr> = double_db"
    and "voting_records double_db = [ledger_row 7 True, ledger_row 8 False]"
    and "double_db\<lparr>voting_records := [ledger_row 7 True, ledger_row 8 False]\<rparr> = double_db"
    and "length (ballots double_db) = 2"
    and "countVoted 1 double_db = 1"
    and "ballots_of 1 double_db = ballots double_db"
  by (simp_all add: double_db_def open_db_def countVoted_def ballots_of_def ledger_row_def
      vote_ballot_def sample_ballot_def)

text \<open>
  Claim C5 as stated fails. Two submissions of voter 7 for election 1 are in flight and
  their operations alternate. Both eligibility reads see \<open>has_voted\<close> false, both
  ballots are saved, both marks succeed and both requests receive a receipt: the vault
  holds two ballots of the same voter against one ledger mark, which a tally then
  reports as an inconsistency.
\<close>

theorem concurrent_double_vote:
  "run_schedule sample_encryptVote (\<lambda>x. x) [0, 1, 0, 1, 0, 1, 0, 1, 0, 1]
     ([start_task (call7 ''ab''), start_task (call7 ''cd'')], open_db) =
     ([\<lparr>vt_call = call7 ''ab'', vt_pc = Responded (Receipt ''7-1-t0-ab'')\<rparr>,
       \<lparr>vt_call = call7 ''cd'', vt_pc = Responded (Receipt ''7-1-t0-cd'')\<rparr>], double_db)
   \<and> vc_voter (call7 ''ab'') = vc_voter (call7 ''cd'')
   \<and> vc_body (call7 ''ab'') = vc_body (call7 ''cd'')
   \<and> length (ballots double_db) = 2
   \<and> countVoted 1 double_db = 1
   \<and> fst (runTally sample_decryptVote quiet_env sample_admin 1 double_db) =
       ConsistencyError 1 2"
proof -
  let ?s1 = "open_db\<lparr>ballots := ballots open_db @ [vote_ballot 7 ''ab'']\<rparr>"
  let ?s2 = "open_db\<lparr>ballots := ballots open_db @ [vote_ballot 7 ''ab'', vote_ballot 7 ''cd'']\<rparr>"
  have r0: "eligibility_rows 7 1 open_db = ledger_row 7 False # []"
    by (rule sample_rows(1))
  have fresh1: "b_voteHash (vote_ballot 7 ''ab'') \<notin> b_voteHash ` set (ballots open_db)"
    by (simp add: open_db_def)
  have fresh2: "b_voteHash (vote_ballot 7 ''cd'') \<notin> b_voteHash ` set (ballots ?s1)"
    by (simp add: open_db_def sample_hashes)
  have rows2: "voting_records ?s2 = [ledger_row 7 False, ledger_row 8 False]"
    by (simp add: open_db_def)
  have m1: "vote_step sample_encryptVote (\<lambda>x. x)
      \<lparr>vt_call = call7 ''ab'', vt_pc = AtMark (vote_ballot 7 ''ab'')\<rparr> ?s2 =
      (\<lparr>vt_call = call7 ''ab'', vt_pc = Responded (Receipt ''7-1-t0-ab'')\<rparr>, double_db)"
    using step_mark [OF rows2, where b = "vote_ballot 7 ''ab''" and rnd = "''ab''"]
    by (simp only: double_db_facts sample_hashes append.simps)
  have m2: "vote_step sample_encryptVote (\<lambda>x. x)
      \<lparr>vt_call = call7 ''cd'', vt_pc = AtMark (vote_ballot 7 ''cd'')\<rparr> double_db =
      (\<lparr>vt_call = call7 ''cd'', vt_pc = Responded (Receipt ''7-1-t0-cd'')\<rparr>, double_db)"
    using step_mark [OF double_db_facts(2), where b = "vote_ballot 7 ''cd''" and rnd = "''cd''"]
    by (simp only: double_db_facts sample_hashes append.simps)
  have run: "run_schedule sample_encryptVote (\<lambda>x. x) [0, 1, 0, 1, 0, 1, 0, 1, 0, 1]
     ([start_task (call7 ''ab''), start_task (call7 ''cd'')], open_db) =
     ([\<lparr>vt_call = call7 ''ab'', vt_pc = Responded (Receipt ''7-1-t0-ab'')\<rparr>,
       \<lparr>vt_call = call7 ''cd'', vt_pc = Responded (Receipt ''7-1-t0-cd'')\<rparr>], double_db)"
    by (simp add: start_task_def step_eligibility [OF r0] step_election [OF sample_tables(1)]
        step_candidate [OF sample_tables(2)] step_save [OF fresh1] step_save [OF fresh2]
        m1 m2)
  have same: "vc_voter (call7 ''ab'') = vc_voter (call7 ''cd'')"
    "vc_body (call7 ''ab'') = vc_body (call7 ''cd'')"
    by (simp_all add: call7_def)
  have tally: "fst (runTally sample_decryptVote quiet_env sample_admin 1 double_db) =
       ConsistencyError 1 2"
    unfolding runTally_def Let_def double_db_facts
    by (simp add: sample_admin_type)
  from run same double_db_facts(4,5) tally show ?thesis by blast
qed

text \<open>
  Two submissions whose operations alternate: when each would be accepted on its own
  and their fingerprints differ, both are accepted.
\<close>

lemma alternating_submissions:
  assumes "check_eligibility (vc_voter c1) (vc_body c1) s = None"
    and "check_eligibility (vc_voter c2) (vc_body c2) s = None"
    and "check_election (vc_body c1) s = None"
    and "check_election (vc_body c2) s = None"
    and "prepare_ballot E H (vc_env c1) (vc_voter c1) (vc_body c1) s = Inr b1"
    and "prepare_ballot E H (vc_env c2) (vc_voter c2) (vc_body c2) s = Inr b2"
    and "b_voteHash b1 \<notin> b_voteHash ` set (ballots s)"
    and "b_voteHash b2 \<notin> b_voteHash ` set (ballots s)"
    and "b_voteHash b1 \<noteq> b_voteHash b2"
    and "\<not> ve_update_fails (vc_env c1)"
    and "\<not> ve_update_fails (vc_env c2)"
  shows "map vt_pc (fst (run_schedule E H [0, 1, 0, 1, 0, 1, 0, 1, 0, 1]
             ([start_task c1, start_task c2], s))) =
           [Responded (Receipt (b_voteHash b1)), Responded (Receipt (b_voteHash b2))]"
    and "ballots (snd (run_schedule E H [0, 1, 0, 1, 0, 1, 0, 1, 0, 1]
             ([start_task c1, start_task c2], s))) = ballots s @ [b1, b2]"
proof -
  let ?t1 = "\<lambda>pc. \<lparr>vt_call = c1, vt_pc = pc\<rparr>"
  let ?t2 = "\<lambda>pc. \<lparr>vt_call = c2, vt_pc = pc\<rparr>"
  let ?s1 = "s\<lparr>ballots := ballots s @ [b1]\<rparr>"
  let ?s2 = "s\<lparr>ballots := ballots s @ [b1, b2]\<rparr>"
  have reads: "run_schedule E H [0, 1, 0, 1, 0, 1] ([start_task c1, start_task c2], s) =
      ([?t1 (AtSave b1), ?t2 (AtSave b2)], s)"
    using assms(1-6) by (simp add: start_task_def vote_step_def)
  have save1: "vote_step E H (?t1 (AtSave b1)) s = (?t1 (AtMark b1), ?s1)"
    using assms(7) by (simp add: vote_step_def save_ballot_def)
  have save2: "vote_step E H (?t2 (AtSave b2)) ?s1 = (?t2 (AtMark b2), ?s2)"
    using assms(8,9) by (simp add: vote_step_def save_ballot_def)
  have mark1: "vt_pc (fst (vote_step E H (?t1 (AtMark b1)) ?s2)) =
        Responded (Receipt (b_voteHash b1))"
      "ballots (snd (vote_step E H (?t1 (AtMark b1)) ?s2)) = ballots s @ [b1, b2]"
      "vt_call (fst (vote_step E H (?t1 (AtMark b1)) ?s2)) = c1"
    using assms(10) by (simp_all add: vote_step_def mark_voted_def)
  have mark2: "\<And>s'. vt_pc (fst (vote_step E H (?t2 (AtMark b2)) s')) =
        Responded (Receipt (b_voteHash b2))"
      "\<And>s'. ballots (snd (vote_step E H (?t2 (AtMark b2)) s')) = ballots s'"
    using assms(11) by (simp_all add: vote_step_def mark_voted_def)
  have split: "run_schedule E H [0, 1, 0, 1, 0, 1, 0, 1, 0, 1] cfg =
      run_schedule E H [0, 1, 0, 1] (run_schedule E H [0, 1, 0, 1, 0, 1] cfg)" for cfg
    by (cases cfg) (simp add: case_prod_beta)
  show "map vt_pc (fst (run_schedule E H [0, 1, 0, 1, 0, 1, 0, 1, 0, 1]
             ([start_task c1, start_task c2], s))) =
           [Responded (Receipt (b_voteHash b1)), Responded (Receipt (b_voteHash b2))]"
    unfolding split reads
    by (simp add: save1 save2 case_prod_beta mark1 mark2)
  show "ballots (snd (run_schedule E H [0, 1, 0, 1, 0, 1, 0, 1, 0, 1]
             ([start_task c1, start_task c2], s))) = ballots s @ [b1, b2]"
    unfolding split reads
    by (simp add: save1 save2 case_prod_beta mark1 mark2)
qed

lemma first_step_marked:
  assumes "marked (vc_voter c) (vq_electionId (vc_body c)) s"
    and "vq_electionId (vc_body c) \<noteq> 0" and "vq_candidateId (vc_body c) \<noteq> 0"
  shows "vote_step E H (start_task c) s = (\<lparr>vt_call = c, vt_pc = Responded AlreadyVoted\<rparr>, s)"
  using assms(2,3)
  by (simp add: vote_step_def start_task_def check_eligibility_marked [OF assms(1)])

text \<open>
  Claim C5, amended. The one-vote check is not a compare-and-set. The ledger is read
  once, by the first operation of the handler; no later operation reads it, and the last
  one is an unconditional write that sets \<open>has_voted\<close> on the rows of the pair and
  answers the receipt whatever the flag is by then. A handler that runs without another
  in between behaves as the sequential route, and a submission (with both ids in its
  body) that starts when its pair is marked is turned away with \<open>AlreadyVoted\<close> by its
  first operation. But when the
  operations of two submissions alternate, so that both eligibility reads precede the
  first mark, and each submission would be accepted on its own (its pair eligible and
  not marked, the election active, the candidate valid, the encryption successful, the
  two fingerprints distinct and not in the vault, the ledger updates successful), both
  append a ballot and both get a receipt, also when they are submissions of the same
  voter for the same election.
\<close>

theorem ledger_check_then_unconditional_mark:
  "run_schedule encryptVote sha256 [0, 0, 0, 0, 0] ([start_task c], s) =
     ([\<lparr>vt_call = c,
        vt_pc = Responded
          (fst (submitVote encryptVote sha256 (vc_env c) (vc_voter c) (vc_body c) s))\<rparr>],
      snd (submitVote encryptVote sha256 (vc_env c) (vc_voter c) (vc_body c) s))
   \<and> (vt_pc t \<noteq> AtEligibility \<longrightarrow>
        vt_pc (fst (vote_step encryptVote sha256 t (s\<lparr>voting_records := rows\<rparr>))) =
        vt_pc (fst (vote_step encryptVote sha256 t s)))
   \<and> (\<not> ve_update_fails (vc_env c) \<longrightarrow>
        vote_step encryptVote sha256 \<lparr>vt_call = c, vt_pc = AtMark b\<rparr> s =
          (\<lparr>vt_call = c, vt_pc = Responded (Receipt (b_voteHash b))\<rparr>,
           s\<lparr>voting_records :=
               map (\<lambda>r. if vr_voter_id r = vc_voter c
                            \<and> vr_election_id r = vq_electionId (vc_body c)
                         then r\<lparr>has_voted := True, voted_at := Some (ve_now (vc_env c))\<rparr>
                         else r) (voting_records s)\<rparr>))
   \<and> (marked (vc_voter c) (vq_electionId (vc_body c)) s
       \<and> vq_electionId (vc_body c) \<noteq> 0 \<and> vq_candidateId (vc_body c) \<noteq> 0 \<longrightarrow>
        vote_step encryptVote sha256 (start_task c) s =
          (\<lparr>vt_call = c, vt_pc = Responded AlreadyVoted\<rparr>, s))
   \<and> (check_eligibility (vc_voter c1) (vc_body c1) s = None
       \<and> check_eligibility (vc_voter c2) (vc_body c2) s = None
       \<and> check_election (vc_body c1) s = None
       \<and> check_election (vc_body c2) s = None
       \<and> prepare_ballot encryptVote sha256 (vc_env c1) (vc_voter c1) (vc_body c1) s = Inr b1
       \<and> prepare_ballot encryptVote sha256 (vc_env c2) (vc_voter c2) (vc_body c2) s = Inr b2
       \<and> b_voteHash b1 \<notin> b_voteHash ` set (ballots s)
       \<and> b_voteHash b2 \<notin> b_voteHash ` set (ballots s)
       \<and> b_voteHash b1 \<noteq> b_voteHash b2
       \<and> \<not> ve_update_fails (vc_env c1) \<and> \<not> ve_update_fails (vc_env c2) \<longrightarrow>
        map vt_pc (fst (run_schedule encryptVote sha256 [0, 1, 0, 1, 0, 1, 0, 1, 0, 1]
             ([start_task c1, start_task c2], s))) =
          [Responded (Receipt (b_voteHash b1)), Responded (Receipt (b_voteHash b2))]
        \<and> ballots (snd (run_schedule encryptVote sha256 [0, 1, 0, 1, 0, 1, 0, 1, 0, 1]
             ([start_task c1, start_task c2], s))) = ballots s @ [b1, b2])"
proof -
  have a: "run_schedule encryptVote sha256 [0, 0, 0, 0, 0] ([start_task c], s) =
     ([\<lparr>vt_call = c,
        vt_pc = Responded
          (fst (submitVote encryptVote sha256 (vc_env c) (vc_voter c) (vc_body c) s))\<rparr>],
      snd (submitVote encryptVote sha256 (vc_env c) (vc_voter c) (vc_body c) s))"
    by (rule run_alone)
  have b: "vt_pc t \<noteq> AtEligibility \<longrightarrow>
        vt_pc (fst (vote_step encryptVote sha256 t (s\<lparr>voting_records := rows\<rparr>))) =
        vt_pc (fst (vote_step encryptVote sha256 t s))"
    using later_steps_ignore_ledger by blast
  have c: "\<not> ve_update_fails (vc_env c) \<longrightarrow>
        vote_step encryptVote sha256 \<lparr>vt_call = c, vt_pc = AtMark b\<rparr> s =
          (\<lparr>vt_call = c, vt_pc = Responded (Receipt (b_voteHash b))\<rparr>,
           s\<lparr>voting_records :=
               map (\<lambda>r. if vr_voter_id r = vc_voter c
                            \<and> vr_election_id r = vq_electionId (vc_body c)
                         then r\<lparr>has_voted := True, voted_at := Some (ve_now (vc_env c))\<rparr>
                         else r) (voting_records s)\<rparr>)"
    using mark_step by blast
  have d: "marked (vc_voter c) (vq_electionId (vc_body c)) s
       \<and> vq_electionId (vc_body c) \<noteq> 0 \<and> vq_candidateId (vc_body c) \<noteq> 0 \<longrightarrow>
        vote_step encryptVote sha256 (start_task c) s =
          (\<lparr>vt_call = c, vt_pc = Responded AlreadyVoted\<rparr>, s)"
    using first_step_marked by blast
  have e: "check_eligibility (vc_voter c1) (vc_body c1) s = None
       \<and> check_eligibility (vc_voter c2) (vc_body c2) s = None
       \<and> check_election (vc_body c1) s = None
       \<and> check_election (vc_body c2) s = None
       \<and> prepare_ballot encryptVote sha256 (vc_env c1) (vc_voter c1) (vc_body c1) s = Inr b1
       \<and> prepare_ballot encryptVote sha256 (vc_env c2) (vc_voter c2) (vc_body c2) s = Inr b2
       \<and> b_voteHash b1 \<notin> b_voteHash ` set (ballots s)
       \<and> b_voteHash b2 \<notin> b_voteHash ` set (ballots s)
       \<and> b_voteHash b1 \<noteq> b_voteHash b2
       \<and> \<not> ve_update_fails (vc_env c1) \<and> \<not> ve_update_fails (vc_env c2) \<longrightarrow>
        map vt_pc (fst (run_schedule encryptVote sha256 [0, 1, 0, 1, 0, 1, 0, 1, 0, 1]
             ([start_task c1, start_task c2], s))) =
          [Responded (Receipt (b_voteHash b1)), Responded (Receipt (b_voteHash b2))]
        \<and> ballots (snd (run_schedule encryptVote sha256 [0, 1, 0, 1, 0, 1, 0, 1, 0, 1]
             ([start_task c1, start_task c2], s))) = ballots s @ [b1, b2]"
    using alternating_submissions [of c1 s c2 encryptVote sha256 b1 b2] by blast
  from a b c d e show ?thesis by blast
qed

theorem ledger_check_then_unconditional_mark_witness:
  "run_schedule sample_encryptVote (\<lambda>x. x) [0, 0, 0, 0, 0] ([start_task (call7 ''ab'')], open_db) =
     ([\<lparr>vt_call = call7 ''ab'', vt_pc = Responded (Receipt ''7-1-t0-ab'')\<rparr>], voted7_db)
   \<and> vt_pc \<lparr>vt_call = call7 ''cd'', vt_pc = AtMark (vote_ballot 7 ''cd'')\<rparr> \<noteq> AtEligibility
   \<and> marked 7 1 voted7_db
   \<and> \<not> ve_update_fails (vc_env (call7 ''cd''))
   \<and> fst (vote_step sample_encryptVote (\<lambda>x. x)
          \<lparr>vt_call = call7 ''cd'', vt_pc = AtMark (vote_ballot 7 ''cd'')\<rparr> voted7_db) =
       \<lparr>vt_call = call7 ''cd'', vt_pc = Responded (Receipt ''7-1-t0-cd'')\<rparr>
   \<and> vt_pc (fst (vote_step sample_encryptVote (\<lambda>x. x)
          \<lparr>vt_call = call7 ''cd'', vt_pc = AtMark (vote_ballot 7 ''cd'')\<rparr>
          (voted7_db\<lparr>voting_records := []\<rparr>))) = Responded (Receipt ''7-1-t0-cd'')
   \<and> vote_step sample_encryptVote (\<lambda>x. x) (start_task (call7 ''cd'')) voted7_db =
       (\<lparr>vt_call = call7 ''cd'', vt_pc = Responded AlreadyVoted\<rparr>, voted7_db)
   \<and> vc_voter (call7 ''ab'') = vc_voter (call7 ''cd'')
   \<and> vc_body (call7 ''ab'') = vc_body (call7 ''cd'')
   \<and> map vt_pc (fst (run_schedule sample_encryptVote (\<lambda>x. x) [0, 1, 0, 1, 0, 1, 0, 1, 0, 1]
          ([start_task (call7 ''ab''), start_task (call7 ''cd'')], open_db))) =
       [Responded (Receipt ''7-1-t0-ab''), Responded (Receipt ''7-1-t0-cd'')]
   \<and> ballots (snd (run_schedule sample_encryptVote (\<lambda>x. x) [0, 1, 0, 1, 0, 1, 0, 1, 0, 1]
          ([start_task (call7 ''ab''), start_task (call7 ''cd'')], open_db))) =
       [vote_ballot 7 ''ab'', vote_ballot 7 ''cd'']"
proof -
  note alone = ledger_check_then_unconditional_mark
    [where encryptVote = sample_encryptVote and ?sha256.0 = "\<lambda>x. x" and c = "call7 ''ab''"
       and s = open_db and ?c1.0 = "call7 ''ab''" and ?c2.0 = "call7 ''cd''"
       and ?b1.0 = "vote_ballot 7 ''ab''" and ?b2.0 = "vote_ballot 7 ''cd''"]
  note later = ledger_check_then_unconditional_mark
    [where encryptVote = sample_encryptVote and ?sha256.0 = "\<lambda>x. x" and c = "call7 ''cd''"
       and s = voted7_db
       and t = "\<lparr>vt_call = call7 ''cd'', vt_pc = AtMark (vote_ballot 7 ''cd'')\<rparr>"
       and rows = "[]" and b = "vote_ballot 7 ''cd''"]
  have first: "submitVote sample_encryptVote (\<lambda>x. x) (vc_env (call7 ''ab''))
      (vc_voter (call7 ''ab'')) (vc_body (call7 ''ab'')) open_db =
      (Receipt ''7-1-t0-ab'', voted7_db)"
    unfolding call7_fields calm_env_random by (rule first_vote)
  have a: "run_schedule sample_encryptVote (\<lambda>x. x) [0, 0, 0, 0, 0]
      ([start_task (call7 ''ab'')], open_db) =
     ([\<lparr>vt_call = call7 ''ab'', vt_pc = Responded (Receipt ''7-1-t0-ab'')\<rparr>], voted7_db)"
    using alone unfolding first by simp
  have b: "vt_pc \<lparr>vt_call = call7 ''cd'', vt_pc = AtMark (vote_ballot 7 ''cd'')\<rparr> \<noteq> AtEligibility"
    by simp
  have c: "\<not> ve_update_fails (vc_env (call7 rnd))" for rnd
    by (simp add: call7_def calm_env_def)
  have d: "fst (vote_step sample_encryptVote (\<lambda>x. x)
          \<lparr>vt_call = call7 ''cd'', vt_pc = AtMark (vote_ballot 7 ''cd'')\<rparr> voted7_db) =
       \<lparr>vt_call = call7 ''cd'', vt_pc = Responded (Receipt ''7-1-t0-cd'')\<rparr>"
    using later c by (simp del: One_nat_def add: sample_hashes)
  have e: "vt_pc (fst (vote_step sample_encryptVote (\<lambda>x. x)
          \<lparr>vt_call = call7 ''cd'', vt_pc = AtMark (vote_ballot 7 ''cd'')\<rparr>
          (voted7_db\<lparr>voting_records := []\<rparr>))) = Responded (Receipt ''7-1-t0-cd'')"
    using later b d by simp
  have m: "marked (vc_voter (call7 ''cd'')) (vq_electionId (vc_body (call7 ''cd''))) voted7_db"
    unfolding call7_fields by (rule marked7)
  have ids: "vq_electionId (vc_body (call7 ''cd'')) \<noteq> 0"
      "vq_candidateId (vc_body (call7 ''cd'')) \<noteq> 0"
    by (simp_all add: call7_def vote_for_a_def)
  from later m ids
  have f: "vote_step sample_encryptVote (\<lambda>x. x) (start_task (call7 ''cd'')) voted7_db =
       (\<lparr>vt_call = call7 ''cd'', vt_pc = Responded AlreadyVoted\<rparr>, voted7_db)"
    by blast
  have same: "vc_voter (call7 ''ab'') = vc_voter (call7 ''cd'')"
    "vc_body (call7 ''ab'') = vc_body (call7 ''cd'')"
    by (simp_all add: call7_def)
  have elig: "check_eligibility (vc_voter (call7 rnd)) (vc_body (call7 rnd)) open_db = None"
    for rnd
    unfolding call7_fields by (rule sample_check_eligibility [OF sample_rows(1)])
  have elec: "check_election (vc_body (call7 rnd)) open_db = None" for rnd
    unfolding call7_fields by (rule sample_check_election [OF sample_tables(1)])
  have prep: "prepare_ballot sample_encryptVote (\<lambda>x. x) (vc_env (call7 rnd))
      (vc_voter (call7 rnd)) (vc_body (call7 rnd)) open_db = Inr (vote_ballot 7 rnd)" for rnd
    unfolding call7_fields by (rule sample_prepare_ballot [OF sample_tables(2)])
  have fresh: "b_voteHash (vote_ballot 7 rnd) \<notin> b_voteHash ` set (ballots open_db)" for rnd
    by (simp add: open_db_def)
  have distinct: "b_voteHash (vote_ballot 7 ''ab'') \<noteq> b_voteHash (vote_ballot 7 ''cd'')"
    by (simp add: sample_hashes)
  from alone elig elec prep fresh distinct c
  have g: "map vt_pc (fst (run_schedule sample_encryptVote (\<lambda>x. x) [0, 1, 0, 1, 0, 1, 0, 1, 0, 1]
          ([start_task (call7 ''ab''), start_task (call7 ''cd'')], open_db))) =
       [Responded (Receipt (b_voteHash (vote_ballot 7 ''ab''))),
        Responded (Receipt (b_voteHash (vote_ballot 7 ''cd'')))]
     \<and> ballots (snd (run_schedule sample_encryptVote (\<lambda>x. x) [0, 1, 0, 1, 0, 1, 0, 1, 0, 1]
          ([start_task (call7 ''ab''), start_task (call7 ''cd'')], open_db))) =
       ballots open_db @ [vote_ballot 7 ''ab'', vote_ballot 7 ''cd'']"
    by blast
  have hs: "b_voteHash (vote_ballot 7 ''ab'') = ''7-1-t0-ab''"
      "b_voteHash (vote_ballot 7 ''cd'') = ''7-1-t0-cd''"
      "ballots open_db @ [vote_ballot 7 ''ab'', vote_ballot 7 ''cd''] =
         [vote_ballot 7 ''ab'', vote_ballot 7 ''cd'']"
    by (simp_all add: sample_hashes open_db_def)
  from g have g': "map vt_pc (fst (run_schedule sample_encryptVote (\<lambda>x. x)
          [0, 1, 0, 1, 0, 1, 0, 1, 0, 1]
          ([start_task (call7 ''ab''), start_task (call7 ''cd'')], open_db))) =
       [Responded (Receipt ''7-1-t0-ab''), Responded (Receipt ''7-1-t0-cd'')]
     \<and> ballots (snd (run_schedule sample_encryptVote (\<lambda>x. x) [0, 1, 0, 1, 0, 1, 0, 1, 0, 1]
          ([start_task (call7 ''ab''), start_task (call7 ''cd'')], open_db))) =
       [vote_ballot 7 ''ab'', vote_ballot 7 ''cd'']"
    unfolding hs .
  from a b marked7 c [of "''cd''"] d e f same g' show ?thesis by blast
qed

end
